theory Spec2Isabelle
  imports Main "HOL-Library.Word" "HOL-Library.AList"
begin

unbundle bit_operations_syntax

section \<open>Session management of the Shipping Manager CoPilot helper\<close>

text \<open>
  A shallow embedding of \<^verbatim>\<open>helper/get_session.py\<close>: the credential vault
  (\<^verbatim>\<open>encrypt_cookie\<close>, \<^verbatim>\<open>decrypt_cookie\<close>), the session store
  (\<^verbatim>\<open>load_sessions\<close>, \<^verbatim>\<open>save_session\<close>), the validator, the browser login
  loop and the orchestration in \<^verbatim>\<open>main\<close>. Everything outside the module (the OS
  keyring, the file system, the clock, the remote service, the browser driver and the
  selection dialog) is a field of one explicit \<open>world\<close> value that the functions read and
  return updated.
\<close>

subsection \<open>Python values\<close>

text \<open>
  A Python \<^verbatim>\<open>str\<close> is modelled by the bytes of its UTF-8 encoding, one \<open>char\<close> per
  byte. \<^verbatim>\<open>startswith\<close> and slicing are prefix tests and \<open>drop\<close>.
\<close>

definition startswith :: "string \<Rightarrow> string \<Rightarrow> bool" where
  "startswith p s = (take (length p) s = p)"

text \<open>
  A user id comes out of a JSON document, as a number or as a string, or is missing
  (\<^verbatim>\<open>None\<close>). \<^verbatim>\<open>str(x)\<close> renders it, and its truth value is what \<^verbatim>\<open>if x:\<close>
  tests.
\<close>

datatype pyid = IdNone | IdInt int | IdStr string

definition digit_char :: "nat \<Rightarrow> char" where
  "digit_char d = ''0123456789'' ! d"

fun str_nat :: "nat \<Rightarrow> string" where
  "str_nat n = (if n < 10 then [digit_char n] else str_nat (n div 10) @ [digit_char (n mod 10)])"

declare str_nat.simps [simp del]

definition str_int :: "int \<Rightarrow> string" where
  "str_int i = (if i < 0 then CHR ''-'' # str_nat (nat (- i)) else str_nat (nat i))"

fun py_str :: "pyid \<Rightarrow> string" where
  "py_str IdNone = ''None''"
| "py_str (IdInt i) = str_int i"
| "py_str (IdStr s) = s"

fun truthy_id :: "pyid \<Rightarrow> bool" where
  "truthy_id IdNone = False"
| "truthy_id (IdInt i) = (i \<noteq> 0)"
| "truthy_id (IdStr s) = (s \<noteq> [])"

text \<open>\<^verbatim>\<open>str(x)\<close> and f-string formatting of a value that may be \<^verbatim>\<open>None\<close>.\<close>

fun str_opt :: "string option \<Rightarrow> string" where
  "str_opt None = ''None''"
| "str_opt (Some s) = s"

text \<open>The truth value of an optional string: \<^verbatim>\<open>None\<close> and \<^verbatim>\<open>''\<close> are false.\<close>

fun truthy :: "string option \<Rightarrow> bool" where
  "truthy None = False"
| "truthy (Some s) = (s \<noteq> [])"

text \<open>
  The \<^verbatim>\<open>cookie\<close> argument of \<^verbatim>\<open>save_session\<close> and \<^verbatim>\<open>validate_session_cookie\<close>:
  \<^verbatim>\<open>None\<close>, a string, or the dictionary that \<^verbatim>\<open>browser_login\<close> returns. A dictionary
  is an association list in insertion order; assigning to a key is \<open>AList.update\<close>.
\<close>

type_synonym pydict = "(string \<times> string) list"

datatype pycookie = PyNone | PyStr string | PyDict pydict

fun opt_cookie :: "string option \<Rightarrow> pycookie" where
  "opt_cookie None = PyNone"
| "opt_cookie (Some s) = PyStr s"

subsection \<open>Bytes, UTF-8, Base64\<close>

type_synonym byte = "8 word"

definition byte_of_char :: "char \<Rightarrow> byte" where
  "byte_of_char c = of_nat (of_char c)"

definition char_of_byte :: "byte \<Rightarrow> char" where
  "char_of_byte b = char_of (unat b)"

text \<open>\<^verbatim>\<open>s.encode()\<close>: the bytes of the string.\<close>

definition str_encode :: "string \<Rightarrow> byte list" where
  "str_encode s = map byte_of_char s"

text \<open>
  \<^verbatim>\<open>bs.decode()\<close> is strict UTF-8: it raises (here \<open>None\<close>) on a byte sequence that is
  not well-formed UTF-8 (no overlong forms, no surrogates, nothing above U+10FFFF).
\<close>

definition cont :: "byte \<Rightarrow> bool" where
  "cont b = (0x80 \<le> b \<and> b \<le> 0xBF)"

fun utf8_valid :: "byte list \<Rightarrow> bool" where
  "utf8_valid [] = True"
| "utf8_valid (b # bs) =
     (if b \<le> 0x7F then utf8_valid bs
      else if 0xC2 \<le> b \<and> b \<le> 0xDF then
        (case bs of c1 # r \<Rightarrow> cont c1 \<and> utf8_valid r | _ \<Rightarrow> False)
      else if 0xE0 \<le> b \<and> b \<le> 0xEF then
        (case bs of
           c1 # c2 # r \<Rightarrow>
             (if b = 0xE0 then 0xA0 \<le> c1 \<and> c1 \<le> 0xBF
              else if b = 0xED then 0x80 \<le> c1 \<and> c1 \<le> 0x9F
              else cont c1) \<and> cont c2 \<and> utf8_valid r
         | _ \<Rightarrow> False)
      else if 0xF0 \<le> b \<and> b \<le> 0xF4 then
        (case bs of
           c1 # c2 # c3 # r \<Rightarrow>
             (if b = 0xF0 then 0x90 \<le> c1 \<and> c1 \<le> 0xBF
              else if b = 0xF4 then 0x80 \<le> c1 \<and> c1 \<le> 0x8F
              else cont c1) \<and> cont c2 \<and> cont c3 \<and> utf8_valid r
         | _ \<Rightarrow> False)
      else False)"

definition bytes_decode :: "byte list \<Rightarrow> string option" where
  "bytes_decode bs = (if utf8_valid bs then Some (map char_of_byte bs) else None)"

text \<open>
  \<^verbatim>\<open>bytes([b ^ key[i % len(key)] for i, b in enumerate(data)])\<close>: the repeating-key XOR of
  both fallback paths.
\<close>

definition xor_key :: "byte list \<Rightarrow> byte list \<Rightarrow> byte list" where
  "xor_key key data = map (\<lambda>(i, b). b XOR key ! (i mod length key)) (enumerate 0 data)"

text \<open>
  \<^verbatim>\<open>base64.b64encode\<close>: three bytes become four characters of the standard alphabet,
  a last group of one or two bytes is padded with \<^verbatim>\<open>=\<close>.
\<close>

definition b64_alphabet :: string where
  "b64_alphabet = ''ABCDEFGHIJKLMNOPQRSTUVWXYZabcdefghijklmnopqrstuvwxyz0123456789+/''"

definition b64_char :: "nat \<Rightarrow> char" where
  "b64_char i = b64_alphabet ! i"

fun index_of :: "'a \<Rightarrow> 'a list \<Rightarrow> nat option" where
  "index_of x [] = None"
| "index_of x (y # ys) = (if x = y then Some 0 else map_option Suc (index_of x ys))"

definition b64_value :: "char \<Rightarrow> nat option" where
  "b64_value c = index_of c b64_alphabet"

fun b64encode :: "byte list \<Rightarrow> string" where
  "b64encode (a # b # c # rest) =
     [b64_char (unat a div 4),
      b64_char ((unat a mod 4) * 16 + unat b div 16),
      b64_char ((unat b mod 16) * 4 + unat c div 64),
      b64_char (unat c mod 64)] @ b64encode rest"
| "b64encode [a, b] =
     [b64_char (unat a div 4),
      b64_char ((unat a mod 4) * 16 + unat b div 16),
      b64_char ((unat b mod 16) * 4),
      CHR ''='']"
| "b64encode [a] =
     [b64_char (unat a div 4), b64_char ((unat a mod 4) * 16), CHR ''='', CHR ''='']"
| "b64encode [] = []"

text \<open>
  \<^verbatim>\<open>base64.b64decode\<close> in its default, non-strict mode, after the library's decoder:
  one pass over the characters with the position in the current group of four
  (\<open>quad_pos\<close>), the bits left over from the previous character (\<open>leftchar\<close>) and the
  number of padding characters seen (\<open>pads\<close>). Characters outside the alphabet are
  skipped, padding that completes a group ends the input, and an incomplete group at
  the end is the error \<^verbatim>\<open>Incorrect padding\<close> (\<open>None\<close>).
\<close>

fun a2b_base64 :: "nat \<Rightarrow> nat \<Rightarrow> nat \<Rightarrow> byte list \<Rightarrow> string \<Rightarrow> byte list option" where
  "a2b_base64 quad_pos leftchar pads out [] = (if quad_pos = 0 then Some out else None)"
| "a2b_base64 quad_pos leftchar pads out (c # cs) =
     (if c = CHR ''='' then
        (if 2 \<le> quad_pos \<and> 4 \<le> quad_pos + (pads + 1) then Some out
         else a2b_base64 quad_pos leftchar (if 2 \<le> quad_pos then pads + 1 else pads) out cs)
      else
        (case b64_value c of
           None \<Rightarrow> a2b_base64 quad_pos leftchar pads out cs
         | Some v \<Rightarrow>
             (if quad_pos = 0 then a2b_base64 1 v 0 out cs
              else if quad_pos = 1 then
                a2b_base64 2 (v mod 16) 0 (out @ [of_nat (leftchar * 4 + v div 16)]) cs
              else if quad_pos = 2 then
                a2b_base64 3 (v mod 4) 0 (out @ [of_nat (leftchar * 16 + v div 4)]) cs
              else a2b_base64 0 0 0 (out @ [of_nat (leftchar * 64 + v)]) cs)))"

text \<open>A \<^verbatim>\<open>str\<close> argument must be ASCII, else \<^verbatim>\<open>ValueError\<close>.\<close>

definition b64decode :: "string \<Rightarrow> byte list option" where
  "b64decode s =
     (if list_all (\<lambda>c. (of_char c :: nat) < 128) s then a2b_base64 0 0 0 [] s else None)"

subsection \<open>The world outside the module\<close>

definition TARGET_COOKIE_NAME :: string where
  "TARGET_COOKIE_NAME = ''shipping_manager_session''"

text \<open>
  What the remote service answers to a validation request: the call raises (no
  connection, timeout) or returns a status code and, when the body parses and has one,
  the \<^verbatim>\<open>user\<close> object of the body, of which the module reads \<^verbatim>\<open>id\<close> and
  \<^verbatim>\<open>company_name\<close>.
\<close>

record user_info =
  u_id :: pyid
  u_company_name :: "string option"

datatype response = NetError | Http nat "user_info option"

text \<open>
  The record stored under an account id in \<^verbatim>\<open>sessions.json\<close>; \<open>None\<close> is a key
  that is missing (what \<^verbatim>\<open>.get\<close> returns).
\<close>

record session_data =
  rec_cookie :: "string option"
  rec_timestamp :: "int option"
  rec_company_name :: "string option"
  rec_login_method :: "string option"
  rec_app_platform :: "string option"
  rec_app_version :: "string option"

type_synonym sessions = "(string \<times> session_data) list"

text \<open>
  The file \<^verbatim>\<open>sessions.json\<close>: missing, not readable, not parseable, or a JSON object
  given by its members in file order.
\<close>

datatype file_state = Absent | Unreadable | Corrupt | Document sessions

text \<open>
  One browser session as the login loop sees it. Pass \<open>i\<close> of the loop probes the window
  and reads the cookie jar: the window is gone, a driver call raises, or there is a jar
  (name and raw value of each cookie). The calls of pass \<open>i\<close> to the driver and to the
  remote service take \<open>latency_ms i\<close> milliseconds. \<open>final_jar\<close> is the jar read after
  the login succeeded (\<open>None\<close>: that call raises).
\<close>

datatype poll_obs = WindowClosed | PollError | CookieJar "(string \<times> string) list"

record browser =
  navigate_ok :: bool
  observe :: "nat \<Rightarrow> poll_obs"
  latency_ms :: "nat \<Rightarrow> nat"
  final_jar :: "(string \<times> string) list option"

text \<open>
  \<^item> \<open>KEYRING_AVAILABLE\<close>: the module constant (the \<^verbatim>\<open>keyring\<close> import succeeded);
    \<open>keyring_ok\<close>: calls to the backend do not raise; \<open>keyring_store\<close>: the passwords
    held under the service name \<^verbatim>\<open>ShippingManagerCoPilot\<close>.
  \<^item> \<open>machine_key\<close>: the SHA-256 digest of the machine fingerprint
    \<^verbatim>\<open>platform.node() + os.getlogin() + platform.system()\<close>; \<open>None\<close> when
    \<^verbatim>\<open>os.getlogin()\<close> raises.
  \<^item> \<open>clock_ms\<close>: \<^verbatim>\<open>time.time()\<close> in milliseconds; \<^verbatim>\<open>time.sleep\<close> advances it.
  \<^item> \<open>remote n header\<close>: the answer to the \<open>n\<close>-th request, sent with this
    \<^verbatim>\<open>Cookie\<close> header; \<open>requests_log\<close>: the headers sent so far.
  \<^item> \<open>unquote_strip\<close>: \<^verbatim>\<open>urllib.parse.unquote(raw).strip()\<close>.
  \<^item> \<open>browsers\<close>: for each coming call of \<^verbatim>\<open>detect_browser\<close>, the browser it
    starts, or \<open>None\<close> when no browser can be started.
\<close>

record world =
  KEYRING_AVAILABLE :: bool
  keyring_ok :: bool
  keyring_store :: "string \<rightharpoonup> string"
  machine_key :: "byte list option"
  sessions_file :: file_state
  file_writable :: bool
  clock_ms :: nat
  remote :: "nat \<Rightarrow> string \<Rightarrow> response"
  requests_log :: "string list"
  unquote_strip :: "string \<Rightarrow> string"
  browsers :: "browser option list"

subsection \<open>Encryption helpers\<close>

text \<open>
  The first lines of \<^verbatim>\<open>encrypt_cookie\<close>: the name of the keyring entry. An argument
  with an underscore is taken as a name already formed.
\<close>

definition account_name_for :: "string \<Rightarrow> string" where
  "account_name_for user_id_or_account_name =
     (if CHR ''_'' \<in> set user_id_or_account_name then user_id_or_account_name
      else ''session_'' @ user_id_or_account_name)"

text \<open>
  \<^verbatim>\<open>encrypt_cookie(cookie, user_id_or_account_name)\<close>. The keyring branch stores
  \<^verbatim>\<open>str(cookie)\<close> under the account name and returns the reference; when the keyring is
  missing or a call to it raises, the fallback XORs the bytes with the machine key. When
  the fallback raises (no login name, or \<^verbatim>\<open>cookie\<close> is \<^verbatim>\<open>None\<close>) the cookie is
  returned as it came.
\<close>

definition encrypt_cookie :: "world \<Rightarrow> string option \<Rightarrow> string \<Rightarrow> string option \<times> world" where
  "encrypt_cookie w cookie user_id_or_account_name =
     (let account_name = account_name_for user_id_or_account_name
      in if KEYRING_AVAILABLE w \<and> keyring_ok w then
           (Some (''KEYRING:'' @ account_name),
            w\<lparr>keyring_store := (keyring_store w)(account_name \<mapsto> str_opt cookie)\<rparr>)
         else
           (case machine_key w of
              None \<Rightarrow> (cookie, w)
            | Some key \<Rightarrow>
                (case cookie of
                   None \<Rightarrow> (cookie, w)
                 | Some s \<Rightarrow> (Some (''v1:'' @ b64encode (xor_key key (str_encode s))), w))))"

text \<open>
  \<^verbatim>\<open>decrypt_cookie(encrypted_data, user_id)\<close>; \<open>None\<close> is Python's \<^verbatim>\<open>None\<close>.
  The \<^verbatim>\<open>user_id\<close> is not used: the reference names the keyring entry.
\<close>

definition decrypt_cookie :: "world \<Rightarrow> string \<Rightarrow> string \<Rightarrow> string option" where
  "decrypt_cookie w encrypted_data user_id =
     (if encrypted_data = [] then None
      else if startswith ''KEYRING:'' encrypted_data then
        (if KEYRING_AVAILABLE w then
           (if keyring_ok w then keyring_store w (drop 8 encrypted_data) else None)
         else None)
      else if startswith ''v1:'' encrypted_data then
        (case machine_key w of
           None \<Rightarrow> None
         | Some key \<Rightarrow>
             (case b64decode (drop 3 encrypted_data) of
                None \<Rightarrow> None
              | Some encrypted_bytes \<Rightarrow> bytes_decode (xor_key key encrypted_bytes)))
      else Some encrypted_data)"

fun is_encrypted :: "pycookie \<Rightarrow> bool" where
  "is_encrypted (PyStr data) =
     (data \<noteq> [] \<and> (startswith ''KEYRING:'' data \<or> startswith ''v1:'' data))"
| "is_encrypted PyNone = False"
| "is_encrypted (PyDict d) = False"

subsection \<open>Session management\<close>

text \<open>
  \<^verbatim>\<open>json.load\<close> builds the dictionary member by member: a repeated key keeps its first
  position and takes the last value.
\<close>

definition json_object :: "sessions \<Rightarrow> sessions" where
  "json_object members = foldl (\<lambda>d (k, v). AList.update k v d) [] members"

datatype py_exception = OSError | JSONDecodeError

text \<open>The body of the \<^verbatim>\<open>try\<close> in \<^verbatim>\<open>load_sessions\<close>, and the function with its handler.\<close>

definition read_sessions_file :: "world \<Rightarrow> py_exception + sessions" where
  "read_sessions_file w =
     (case sessions_file w of
        Absent \<Rightarrow> Inr []
      | Unreadable \<Rightarrow> Inl OSError
      | Corrupt \<Rightarrow> Inl JSONDecodeError
      | Document members \<Rightarrow> Inr (json_object members))"

definition load_sessions :: "world \<Rightarrow> sessions" where
  "load_sessions w = (case read_sessions_file w of Inl e \<Rightarrow> [] | Inr d \<Rightarrow> d)"

text \<open>
  \<^verbatim>\<open>save_session(user_id, cookie, company_name, login_method, app_platform, app_version)\<close>
  in its two parts. The first builds the new record \<^verbatim>\<open>session_data\<close>: it picks the
  tokens out of the cookie argument and encrypts each, which may already change the
  keyring. The second puts the record under \<^verbatim>\<open>str(user_id)\<close> in the loaded mapping and
  writes the whole mapping; when the write raises, the handler prints and the file stays
  as it was.
\<close>

definition build_session_data ::
  "world \<Rightarrow> pyid \<Rightarrow> pycookie \<Rightarrow> string \<Rightarrow> string \<Rightarrow> string option \<Rightarrow> string option
     \<Rightarrow> session_data \<times> world" where
  "build_session_data w user_id cookie company_name login_method app_platform0 app_version0 =
     (let shipping_cookie =
            (case cookie of
               PyDict d \<Rightarrow> map_of d ''shipping_manager_session''
             | PyStr s \<Rightarrow> Some s
             | PyNone \<Rightarrow> None);
          app_platform =
            (case cookie of
               PyDict d \<Rightarrow> (case map_of d ''app_platform'' of Some v \<Rightarrow> Some v | None \<Rightarrow> app_platform0)
             | _ \<Rightarrow> app_platform0);
          app_version =
            (case cookie of
               PyDict d \<Rightarrow> (case map_of d ''app_version'' of Some v \<Rightarrow> Some v | None \<Rightarrow> app_version0)
             | _ \<Rightarrow> app_version0);
          (encrypted_cookie, w1) = encrypt_cookie w shipping_cookie (py_str user_id);
          (encrypted_platform, w2) =
            (if truthy app_platform
             then encrypt_cookie w1 app_platform (''app_platform_'' @ py_str user_id)
             else (None, w1));
          (encrypted_version, w3) =
            (if truthy app_version
             then encrypt_cookie w2 app_version (''app_version_'' @ py_str user_id)
             else (None, w2))
      in (\<lparr>rec_cookie = encrypted_cookie,
           rec_timestamp = Some (int (clock_ms w div 1000)),
           rec_company_name = Some company_name,
           rec_login_method = Some login_method,
           rec_app_platform = encrypted_platform,
           rec_app_version = encrypted_version\<rparr>, w3))"

definition save_session ::
  "world \<Rightarrow> pyid \<Rightarrow> pycookie \<Rightarrow> string \<Rightarrow> string \<Rightarrow> string option \<Rightarrow> string option \<Rightarrow> world" where
  "save_session w user_id cookie company_name login_method app_platform app_version =
     (let sessions = load_sessions w;
          (session_data, w3) =
            build_session_data w user_id cookie company_name login_method app_platform app_version
      in if file_writable w
         then w3\<lparr>sessions_file := Document (AList.update (py_str user_id) session_data sessions),
                 clock_ms := clock_ms w + 500\<rparr>
         else w3)"

text \<open>
  The test both validation sites apply to an answer: status 200 and a \<^verbatim>\<open>user\<close>
  object with a true \<^verbatim>\<open>id\<close>.
\<close>

definition response_user :: "response \<Rightarrow> user_info option" where
  "response_user r =
     (case r of
        NetError \<Rightarrow> None
      | Http status body \<Rightarrow>
          (if status = 200 then
             (case body of
                None \<Rightarrow> None
              | Some user \<Rightarrow> if truthy_id (u_id user) then Some user else None)
           else None))"

text \<open>
  \<^verbatim>\<open>validate_session_cookie(cookie, user_id=None)\<close>. The first part picks the three
  tokens, or returns early (\<open>None\<close>) for a tagged string that cannot be decrypted; the
  second part is the request.
\<close>

definition validate_session_cookie ::
  "world \<Rightarrow> pycookie \<Rightarrow> string option \<Rightarrow> user_info option \<times> world" where
  "validate_session_cookie w cookie user_id =
     (case
        (case cookie of
           PyDict d \<Rightarrow>
             Some (map_of d ''shipping_manager_session'', map_of d ''app_platform'',
                   map_of d ''app_version'')
         | PyNone \<Rightarrow> Some (None, None, None)
         | PyStr s \<Rightarrow>
             (if is_encrypted cookie then
                (case user_id of
                   None \<Rightarrow> None
                 | Some uid \<Rightarrow>
                     (if uid = [] then None
                      else (case decrypt_cookie w s uid of
                              None \<Rightarrow> None
                            | Some p \<Rightarrow> if p = [] then None else Some (Some p, None, None))))
              else Some (Some s, None, None)))
      of
        None \<Rightarrow> (None, w)
      | Some (session_cookie, app_platform, app_version) \<Rightarrow>
          (let cookie_header =
                 TARGET_COOKIE_NAME @ ''='' @ str_opt session_cookie
                 @ (if truthy app_platform then ''; app_platform='' @ str_opt app_platform else [])
                 @ (if truthy app_version then ''; app_version='' @ str_opt app_version else []);
               response = remote w (length (requests_log w)) cookie_header
           in (response_user response, w\<lparr>requests_log := requests_log w @ [cookie_header]\<rparr>)))"

record valid_session =
  vs_user_id :: string
  vs_cookie :: pycookie
  vs_company_name :: string
  vs_user_data :: user_info
  vs_login_method :: string

record expired_session =
  es_user_id :: string
  es_company_name :: string
  es_login_method :: string

fun get_default :: "string option \<Rightarrow> string \<Rightarrow> string" where
  "get_default None d = d"
| "get_default (Some v) d = v"

text \<open>The \<^verbatim>\<open>for\<close> loop of \<^verbatim>\<open>validate_all_sessions\<close> over the sorted records.\<close>

fun validate_each :: "world \<Rightarrow> sessions \<Rightarrow> valid_session list \<times> world" where
  "validate_each w [] = ([], w)"
| "validate_each w ((user_id, sd) # rest) =
     (let encrypted_cookie = opt_cookie (rec_cookie sd);
          company_name = get_default (rec_company_name sd) ''Unknown'';
          login_method = get_default (rec_login_method sd) ''unknown'';
          plaintext_cookie =
            (if is_encrypted encrypted_cookie
             then (case decrypt_cookie w (str_opt (rec_cookie sd)) user_id of
                     None \<Rightarrow> None
                   | Some p \<Rightarrow> if p = [] then None else Some (PyStr p))
             else Some encrypted_cookie)
      in case plaintext_cookie of
           None \<Rightarrow> validate_each w rest
         | Some plain \<Rightarrow>
             (case validate_session_cookie w plain (Some user_id) of
                (Some user_data, w') \<Rightarrow>
                  (let (valid_sessions, w'') = validate_each w' rest
                   in (\<lparr>vs_user_id = user_id,
                        vs_cookie = plain,
                        vs_company_name = get_default (u_company_name user_data) company_name,
                        vs_user_data = user_data,
                        vs_login_method = login_method\<rparr> # valid_sessions, w''))
              | (None, w') \<Rightarrow> validate_each w' rest))"

text \<open>
  \<^verbatim>\<open>sorted(sessions.items(), key=timestamp, reverse=True)\<close>: a stable sort, largest
  timestamp first; records with equal timestamps keep their order.
\<close>

definition stored_timestamp :: "session_data \<Rightarrow> int" where
  "stored_timestamp sd = (case rec_timestamp sd of None \<Rightarrow> 0 | Some t \<Rightarrow> t)"

definition sorted_sessions :: "sessions \<Rightarrow> sessions" where
  "sorted_sessions ss = sort_key (\<lambda>x. - stored_timestamp (snd x)) ss"

definition validate_all_sessions :: "world \<Rightarrow> valid_session list \<times> world" where
  "validate_all_sessions w =
     (let sessions = load_sessions w
      in if sessions = [] then ([], w) else validate_each w (sorted_sessions sessions))"

fun expired_each :: "world \<Rightarrow> sessions \<Rightarrow> expired_session list \<times> world" where
  "expired_each w [] = ([], w)"
| "expired_each w ((user_id, sd) # rest) =
     (let encrypted_cookie = opt_cookie (rec_cookie sd);
          company_name = get_default (rec_company_name sd) ''Unknown''
      in case validate_session_cookie w encrypted_cookie (Some user_id) of
           (None, w') \<Rightarrow>
             (let (expired, w'') = expired_each w' rest
              in (\<lparr>es_user_id = user_id, es_company_name = company_name,
                   es_login_method = ''browser''\<rparr> # expired, w''))
         | (Some user_data, w') \<Rightarrow> expired_each w' rest)"

definition get_expired_sessions_with_methods :: "world \<Rightarrow> expired_session list \<times> world" where
  "get_expired_sessions_with_methods w =
     (let sessions = load_sessions w
      in if sessions = [] then ([], w) else expired_each w sessions)"

definition get_user_from_cookie :: "world \<Rightarrow> pycookie \<Rightarrow> user_info option \<times> world" where
  "get_user_from_cookie w cookie = validate_session_cookie w cookie None"

subsection \<open>Browser login\<close>

text \<open>
  The waiting loop of \<^verbatim>\<open>browser_login\<close>, from \<^verbatim>\<open>start_time = time.time()\<close> on.
  \<open>now\<close> is the clock, \<open>i\<close> counts the passes, \<open>reqs\<close> is the log of validation
  requests. A pass that neither returns nor breaks ends in \<^verbatim>\<open>time.sleep(2)\<close>, also
  when a call in it raises.
\<close>

datatype poll_end = PollClosed | PollTimeout | PollValidated string

function poll_loop ::
  "browser \<Rightarrow> (string \<Rightarrow> string) \<Rightarrow> (nat \<Rightarrow> string \<Rightarrow> response) \<Rightarrow> nat \<Rightarrow> nat \<Rightarrow> nat \<Rightarrow> string list
     \<Rightarrow> poll_end \<times> nat \<times> string list" where
  "poll_loop b unq rem start_time i now reqs =
     (if now - start_time < 300000 then
        (case observe b i of
           WindowClosed \<Rightarrow> (PollClosed, now + latency_ms b i, reqs)
         | PollError \<Rightarrow>
             poll_loop b unq rem start_time (Suc i) (now + latency_ms b i + 2000) reqs
         | CookieJar cookies \<Rightarrow>
             (case map_of cookies TARGET_COOKIE_NAME of
                None \<Rightarrow>
                  poll_loop b unq rem start_time (Suc i) (now + latency_ms b i + 2000) reqs
              | Some raw_cookie \<Rightarrow>
                  (if unq raw_cookie = [] then
                     poll_loop b unq rem start_time (Suc i) (now + latency_ms b i + 2000) reqs
                   else if response_user
                             (rem (length reqs) (TARGET_COOKIE_NAME @ ''='' @ unq raw_cookie))
                           \<noteq> None
                   then (PollValidated (unq raw_cookie), now + latency_ms b i,
                         reqs @ [TARGET_COOKIE_NAME @ ''='' @ unq raw_cookie])
                   else poll_loop b unq rem start_time (Suc i) (now + latency_ms b i + 2000)
                          (reqs @ [TARGET_COOKIE_NAME @ ''='' @ unq raw_cookie]))))
      else (PollTimeout, now, reqs))"
  by pat_completeness auto
termination
  by (relation "measure (\<lambda>(b, unq, rem, start_time, i, now, reqs). start_time + 300000 - now)")
     auto

declare poll_loop.simps [simp del]

text \<open>
  The body of the \<^verbatim>\<open>for\<close> loop that fills \<^verbatim>\<open>all_cookies\<close> from the final
  cookie jar, and the loop.
\<close>

definition store_cookie :: "(string \<Rightarrow> string) \<Rightarrow> string \<times> string \<Rightarrow> pydict \<Rightarrow> pydict" where
  "store_cookie unq c all_cookies =
     (let cookie_name = fst c; raw_value = snd c; cookie_value = unq raw_value
      in if cookie_name = TARGET_COOKIE_NAME
         then AList.update ''shipping_manager_session'' cookie_value all_cookies
         else if cookie_name = ''app_platform''
         then AList.update ''app_platform'' cookie_value all_cookies
         else if cookie_name = ''app_version''
         then AList.update ''app_version'' cookie_value all_cookies
         else all_cookies)"

definition extract_cookies :: "(string \<Rightarrow> string) \<Rightarrow> (string \<times> string) list \<Rightarrow> pydict" where
  "extract_cookies unq final_cookies = fold (store_cookie unq) final_cookies []"

text \<open>
  How a call of \<^verbatim>\<open>browser_login\<close> ends: with the dictionary of cookies, or at one
  of its four ways out without a cookie. \<^verbatim>\<open>detect_browser\<close> leaves with
  \<^verbatim>\<open>sys.exit(1)\<close>, which no handler of the module catches; the other three return
  \<^verbatim>\<open>None\<close>.
\<close>

datatype login_outcome =
  LoginOk pydict | LoginTimeout | BrowserClosed | LoginError | BrowserUnavailable

definition browser_login :: "world \<Rightarrow> login_outcome \<times> world" where
  "browser_login w =
     (case browsers w of
        [] \<Rightarrow> (BrowserUnavailable, w)
      | None # later \<Rightarrow> (BrowserUnavailable, w\<lparr>browsers := later\<rparr>)
      | Some b # later \<Rightarrow>
          (if \<not> navigate_ok b then (LoginError, w\<lparr>browsers := later\<rparr>)
           else
             (case poll_loop b (unquote_strip w) (remote w) (clock_ms w) 0 (clock_ms w)
                     (requests_log w) of
                (PollClosed, now, reqs) \<Rightarrow>
                  (BrowserClosed, w\<lparr>browsers := later, clock_ms := now, requests_log := reqs\<rparr>)
              | (PollTimeout, now, reqs) \<Rightarrow>
                  (LoginTimeout, w\<lparr>browsers := later, clock_ms := now, requests_log := reqs\<rparr>)
              | (PollValidated cookie, now, reqs) \<Rightarrow>
                  (let extracted =
                         (case final_jar b of
                            None \<Rightarrow> AList.update ''shipping_manager_session'' cookie []
                          | Some final_cookies \<Rightarrow>
                              extract_cookies (unquote_strip w) final_cookies);
                       all_cookies =
                         (if map_of extracted ''shipping_manager_session'' = None
                          then AList.update ''shipping_manager_session'' cookie extracted
                          else extracted)
                   in (LoginOk all_cookies,
                       w\<lparr>browsers := later, clock_ms := now + 3000, requests_log := reqs\<rparr>)))))"

subsection \<open>Main\<close>

text \<open>
  The module run as a script (\<^verbatim>\<open>__name__ == "__main__"\<close>). A run ends with an exit
  code, the lines printed on standard output, and the lines on standard error; of the
  latter the model keeps the diagnostics with which \<^verbatim>\<open>main\<close> reports a cancellation
  or a failure, and leaves out the progress messages.

  \<^verbatim>\<open>show_session_selector\<close> returns the parsed answer of the dialog, a dictionary of
  which \<^verbatim>\<open>main\<close> reads \<^verbatim>\<open>action\<close> and \<^verbatim>\<open>user_id\<close>, or nothing (\<^verbatim>\<open>None\<close>, and
  likewise the empty dictionary, which is false too). The operator is the list of the
  answers still to come; when the list is used up the dialog gives no answer.
\<close>

datatype selector_result = Choice "string option" pyid

record process_end =
  exit_code :: int
  stdout :: "string list"
  stderr :: "string list"

text \<open>
  The refresh of one selected session (the block under \<^verbatim>\<open>if session_to_refresh:\<close>):
  browser login, the identity check, \<^verbatim>\<open>save_session\<close> on a match, and the two
  validation runs that follow in every case.
\<close>

datatype refresh_end = RefreshExit | RefreshDone "valid_session list" "expired_session list"

definition refresh_session :: "world \<Rightarrow> pyid \<Rightarrow> refresh_end \<times> string list \<times> world" where
  "refresh_session w selected_user_id =
     (case browser_login w of
        (BrowserUnavailable, w1) \<Rightarrow>
          (RefreshExit, [''[-] ERROR: No compatible browser found!''], w1)
      | (renewal, w1) \<Rightarrow>
          (let (diag, w3) =
                 (case renewal of
                    LoginOk renewal_cookie \<Rightarrow>
                      (if renewal_cookie = [] then ([''[-] Failed to get cookie''], w1)
                       else
                         (case get_user_from_cookie w1 (PyDict renewal_cookie) of
                            (None, w2) \<Rightarrow> ([''[-] Refresh failed - wrong account''], w2)
                          | (Some renewal_user_data, w2) \<Rightarrow>
                              (if py_str (u_id renewal_user_data) = py_str selected_user_id
                               then
                                 ([''[+] Session refreshed for ''
                                     @ str_opt (u_company_name renewal_user_data)],
                                  save_session w2 (IdStr (py_str (u_id renewal_user_data)))
                                    (PyDict renewal_cookie)
                                    (get_default (u_company_name renewal_user_data) ''Unknown'')
                                    ''browser'' None None)
                               else ([''[-] Refresh failed - wrong account''], w2))))
                  | _ \<Rightarrow> ([''[-] Failed to get cookie''], w1));
               (valid_sessions, w4) = validate_all_sessions w3;
               (expired_sessions, w5) = get_expired_sessions_with_methods w4
           in (RefreshDone valid_sessions expired_sessions, diag, w5)))"

text \<open>What the first dialog of a pass asks for, in the order of the tests in \<^verbatim>\<open>main\<close>.\<close>

datatype selector_action =
  Cancelled | NewSession | RefreshSessions | UseSession pyid | InvalidAction

definition selector_action :: "selector_result option \<Rightarrow> selector_action" where
  "selector_action selector_result =
     (case selector_result of
        None \<Rightarrow> Cancelled
      | Some (Choice action user_id) \<Rightarrow>
          (if action = Some ''new_session'' then NewSession
           else if action = Some ''refresh_sessions'' then RefreshSessions
           else if action = Some ''use_session'' then UseSession user_id
           else InvalidAction))"

text \<open>
  The second, button-less dialog of a refresh: the session to refresh, when the answer
  is \<^verbatim>\<open>use_session\<close> with a \<^verbatim>\<open>user_id\<close> equal (\<^verbatim>\<open>==\<close>, no \<^verbatim>\<open>str\<close>) to the
  \<^verbatim>\<open>user_id\<close> of a known session.
\<close>

definition refresh_target :: "string list \<Rightarrow> selector_result option \<Rightarrow> pyid option" where
  "refresh_target all_user_ids refresh_selector_result =
     (case refresh_selector_result of
        None \<Rightarrow> None
      | Some (Choice refresh_action selected_user_id) \<Rightarrow>
          (if refresh_action = Some ''use_session''
             \<and> selected_user_id \<in> set (map IdStr all_user_ids)
           then Some selected_user_id else None))"

fun truthy_cookie :: "pycookie \<Rightarrow> bool" where
  "truthy_cookie PyNone = False"
| "truthy_cookie (PyStr s) = (s \<noteq> [])"
| "truthy_cookie (PyDict d) = (d \<noteq> [])"

text \<open>
  The \<^verbatim>\<open>use_session\<close> branch: exit code, standard output and diagnostics. The
  \<^verbatim>\<open>user_data\<close> of a valid session is a dictionary with an \<^verbatim>\<open>id\<close>, so it is true.
\<close>

definition use_session :: "valid_session list \<Rightarrow> pyid \<Rightarrow> int \<times> string list \<times> string list" where
  "use_session valid_sessions selected_user_id =
     (case find (\<lambda>session. vs_user_id session = py_str selected_user_id) valid_sessions of
        Some session \<Rightarrow>
          (if truthy_cookie (vs_cookie session) then (0, [py_str selected_user_id], [])
           else (1, [], [''[-] ERROR: Session data not found for user ''
                          @ py_str selected_user_id]))
      | None \<Rightarrow>
          (1, [], [''[-] ERROR: Session data not found for user '' @ py_str selected_user_id]))"

definition cancelled_msg :: string where
  "cancelled_msg = ''[-] Session selection cancelled''"

definition invalid_msg :: string where
  "invalid_msg = ''[-] Invalid selector result''"

text \<open>
  The \<^verbatim>\<open>while\<close> loop of \<^verbatim>\<open>main\<close>: it ends the process, or it is left (by its
  condition or by \<^verbatim>\<open>break\<close>) for the browser login of step 2.
\<close>

datatype loop_end = LoopExit int "string list" | LoopBreak

fun main_loop ::
  "world \<Rightarrow> valid_session list \<Rightarrow> expired_session list \<Rightarrow> selector_result option list \<Rightarrow> string list
     \<Rightarrow> loop_end \<times> string list \<times> world" where
  "main_loop w valid_sessions expired_sessions ops err =
     (if valid_sessions = [] \<and> expired_sessions = [] then (LoopBreak, err, w)
      else
        (case ops of
           [] \<Rightarrow> (LoopExit 0 [], err @ [cancelled_msg], w)
         | selector_result # ops1 \<Rightarrow>
             (case selector_action selector_result of
                Cancelled \<Rightarrow> (LoopExit 0 [], err @ [cancelled_msg], w)
              | NewSession \<Rightarrow> (LoopBreak, err, w)
              | RefreshSessions \<Rightarrow>
                  (if valid_sessions = [] \<and> expired_sessions = []
                   then main_loop w valid_sessions expired_sessions ops1 err
                   else
                     (case ops1 of
                        [] \<Rightarrow> main_loop w valid_sessions expired_sessions [] err
                      | refresh_selector_result # ops2 \<Rightarrow>
                          (case refresh_target
                                  (map vs_user_id valid_sessions @ map es_user_id expired_sessions)
                                  refresh_selector_result of
                             None \<Rightarrow> main_loop w valid_sessions expired_sessions ops2 err
                           | Some selected_user_id \<Rightarrow>
                               (case refresh_session w selected_user_id of
                                  (RefreshExit, diag, w') \<Rightarrow> (LoopExit 1 [], err @ diag, w')
                                | (RefreshDone valid_sessions' expired_sessions', diag, w') \<Rightarrow>
                                    main_loop w' valid_sessions' expired_sessions' ops2
                                      (err @ diag)))))
              | UseSession selected_user_id \<Rightarrow>
                  (case use_session valid_sessions selected_user_id of
                     (code, out, diag) \<Rightarrow> (LoopExit code out, err @ diag, w))
              | InvalidAction \<Rightarrow> (LoopExit 1 [], err @ [invalid_msg], w))))"

declare main_loop.simps [simp del]

definition main :: "world \<Rightarrow> selector_result option list \<Rightarrow> process_end \<times> world" where
  "main w ops =
     (let (valid_sessions, w1) = validate_all_sessions w;
          (expired_sessions, w2) = get_expired_sessions_with_methods w1
      in case main_loop w2 valid_sessions expired_sessions ops [] of
           (LoopExit code out, err, w3) \<Rightarrow> (\<lparr>exit_code = code, stdout = out, stderr = err\<rparr>, w3)
         | (LoopBreak, err, w3) \<Rightarrow>
             (case browser_login w3 of
                (BrowserUnavailable, w4) \<Rightarrow>
                  (\<lparr>exit_code = 1, stdout = [],
                    stderr = err @ [''[-] ERROR: No compatible browser found!'']\<rparr>, w4)
              | (LoginOk cookie, w4) \<Rightarrow>
                  (if cookie = [] then
                     (\<lparr>exit_code = 1, stdout = [],
                       stderr = err @ [''[-] Login failed - no cookie obtained'']\<rparr>, w4)
                   else
                     (case get_user_from_cookie w4 (PyDict cookie) of
                        (None, w5) \<Rightarrow>
                          (\<lparr>exit_code = 1, stdout = [],
                            stderr = err @ [''[-] ERROR: Failed to validate session cookie'']\<rparr>,
                           w5)
                      | (Some user_data, w5) \<Rightarrow>
                          (\<lparr>exit_code = 0, stdout = [py_str (u_id user_data)], stderr = err\<rparr>,
                           save_session w5 (u_id user_data) (PyDict cookie)
                             (get_default (u_company_name user_data) ''Unknown'')
                             ''browser'' None None)))
              | (_, w4) \<Rightarrow>
                  (\<lparr>exit_code = 1, stdout = [],
                    stderr = err @ [''[-] Login failed - no cookie obtained'']\<rparr>, w4)))"

subsection \<open>Notions used in the statements\<close>

text \<open>
  The three secrets of a record and the keyring name under which \<^verbatim>\<open>save_session\<close>
  has \<^verbatim>\<open>encrypt_cookie\<close> store each: the second argument it passes, run through the
  name derivation of \<^verbatim>\<open>encrypt_cookie\<close>.
\<close>

datatype field = CookieField | PlatformField | VersionField

fun field_argument :: "string \<Rightarrow> field \<Rightarrow> string" where
  "field_argument user_id CookieField = user_id"
| "field_argument user_id PlatformField = ''app_platform_'' @ user_id"
| "field_argument user_id VersionField = ''app_version_'' @ user_id"

definition vault_identity :: "string \<Rightarrow> field \<Rightarrow> string" where
  "vault_identity user_id f = account_name_for (field_argument user_id f)"

text \<open>
  The \<^verbatim>\<open>Cookie\<close> header of a request that carries the session token alone.
\<close>

definition cookie_header :: "string option \<Rightarrow> string" where
  "cookie_header session_cookie = TARGET_COOKIE_NAME @ ''='' @ str_opt session_cookie"

text \<open>
  A record passes a liveness check \<open>live\<close> (what the stub answers to a header) when the
  check accepts the record's credential: the stored value when it has no tag, else the
  value it decrypts to; a record that does not decrypt does not pass.
\<close>

definition record_live :: "world \<Rightarrow> (string \<Rightarrow> response) \<Rightarrow> string \<times> session_data \<Rightarrow> bool" where
  "record_live w live x =
     (case rec_cookie (snd x) of
        None \<Rightarrow> response_user (live (cookie_header None)) \<noteq> None
      | Some c \<Rightarrow>
          (if is_encrypted (PyStr c) then
             (case decrypt_cookie w c (fst x) of
                None \<Rightarrow> False
              | Some p \<Rightarrow> p \<noteq> [] \<and> response_user (live (cookie_header (Some p))) \<noteq> None)
           else response_user (live (cookie_header (Some c))) \<noteq> None))"

text \<open>
  A record whose tagged cookie is stored under a non-empty account id and does not
  decrypt to a value that carries a tag itself.
\<close>

definition plain_record :: "world \<Rightarrow> string \<times> session_data \<Rightarrow> bool" where
  "plain_record w x =
     (case rec_cookie (snd x) of
        None \<Rightarrow> True
      | Some c \<Rightarrow>
          (if is_encrypted (PyStr c) then
             fst x \<noteq> [] \<and>
             (case decrypt_cookie w c (fst x) of
                None \<Rightarrow> True
              | Some p \<Rightarrow> \<not> is_encrypted (PyStr p))
           else True))"

text \<open>The timestamp stored for an account id.\<close>

definition timestamp_of :: "sessions \<Rightarrow> string \<Rightarrow> int" where
  "timestamp_of ss user_id =
     (case map_of ss user_id of None \<Rightarrow> 0 | Some sd \<Rightarrow> stored_timestamp sd)"

text \<open>
  Pass \<open>i\<close> of the waiting loop does not end the login: the window is there, and the
  jar has no target cookie, or an empty one, or one that the remote service does not
  accept, whenever it is asked. A browser that stays alive and never shows the target
  cookie is the special case \<open>hides_cookie\<close>.
\<close>

definition unsuccessful_pass ::
  "browser \<Rightarrow> (string \<Rightarrow> string) \<Rightarrow> (nat \<Rightarrow> string \<Rightarrow> response) \<Rightarrow> nat \<Rightarrow> bool" where
  "unsuccessful_pass b unq rem i =
     (case observe b i of
        WindowClosed \<Rightarrow> False
      | PollError \<Rightarrow> True
      | CookieJar cookies \<Rightarrow>
          (case map_of cookies TARGET_COOKIE_NAME of
             None \<Rightarrow> True
           | Some raw_cookie \<Rightarrow>
               unq raw_cookie = [] \<or>
               (\<forall>n. response_user (rem n (TARGET_COOKIE_NAME @ ''='' @ unq raw_cookie)) = None)))"

definition hides_cookie :: "browser \<Rightarrow> nat \<Rightarrow> bool" where
  "hides_cookie b i =
     (case observe b i of
        WindowClosed \<Rightarrow> False
      | PollError \<Rightarrow> True
      | CookieJar cookies \<Rightarrow> map_of cookies TARGET_COOKIE_NAME = None)"

text \<open>
  The value of the last cookie with a given name in a jar, which is the one that the
  extraction loop keeps.
\<close>

definition last_cookie :: "(string \<times> string) list \<Rightarrow> string \<Rightarrow> string option" where
  "last_cookie jar name = map_of (rev jar) name"

text \<open>Two worlds that differ at most in the log of requests sent.\<close>

definition same_but_log :: "world \<Rightarrow> world \<Rightarrow> bool" where
  "same_but_log w w' = (\<exists>log. w' = w\<lparr>requests_log := log\<rparr>)"

subsection \<open>Example worlds\<close>

text \<open>
  A remote service that knows two tokens: \<^verbatim>\<open>tokA\<close> belongs to account 42,
  \<^verbatim>\<open>tokB\<close> to account 7; every other request is answered with status 401.
\<close>

definition stub_remote :: "nat \<Rightarrow> string \<Rightarrow> response" where
  "stub_remote n header =
     (if header = ''shipping_manager_session=tokA''
      then Http 200 (Some \<lparr>u_id = IdInt 42, u_company_name = Some ''Acme Co''\<rparr>)
      else if header = ''shipping_manager_session=tokB''
      then Http 200 (Some \<lparr>u_id = IdInt 7, u_company_name = Some ''Beta Lines''\<rparr>)
      else Http 401 None)"

definition example_key :: "byte list" where
  "example_key =
     [0x5A, 0x13, 0xC7, 0x08, 0x9E, 0xF1, 0x22, 0x64, 0xB0, 0x3D, 0x77, 0xE9, 0x01, 0xAC, 0x58, 0xCF,
      0x19, 0x86, 0x4B, 0xD2, 0x6E, 0x35, 0xFA, 0x90, 0x0C, 0xE3, 0x71, 0x2F, 0xBD, 0x44, 0x8A, 0x17]"

text \<open>A machine with a working keyring and no sessions file yet, and one without keyring.\<close>

definition vault_world :: world where
  "vault_world =
     \<lparr>KEYRING_AVAILABLE = True, keyring_ok = True, keyring_store = Map.empty,
      machine_key = Some example_key, sessions_file = Absent, file_writable = True,
      clock_ms = 10000, remote = stub_remote, requests_log = [],
      unquote_strip = (\<lambda>s. s), browsers = []\<rparr>"

definition fallback_world :: world where
  "fallback_world = vault_world\<lparr>KEYRING_AVAILABLE := False\<rparr>"

text \<open>
  A store with two live accounts whose records carry the same timestamp, and a store
  whose only record sits under the empty account id.
\<close>

definition tie_world :: world where
  "tie_world =
     vault_world
       \<lparr>keyring_store := [''session_42'' \<mapsto> ''tokA'', ''session_7'' \<mapsto> ''tokB''],
        sessions_file := Document
          [(''42'', \<lparr>rec_cookie = Some ''KEYRING:session_42'', rec_timestamp = Some 10,
                     rec_company_name = Some ''Acme Co'', rec_login_method = Some ''browser'',
                     rec_app_platform = None, rec_app_version = None\<rparr>),
           (''7'', \<lparr>rec_cookie = Some ''KEYRING:session_7'', rec_timestamp = Some 10,
                    rec_company_name = Some ''Beta Lines'', rec_login_method = Some ''browser'',
                    rec_app_platform = None, rec_app_version = None\<rparr>)]\<rparr>"

definition empty_id_world :: world where
  "empty_id_world =
     vault_world
       \<lparr>keyring_store := [''session_'' \<mapsto> ''tokA''],
        sessions_file := Document
          [([], \<lparr>rec_cookie = Some ''KEYRING:session_'', rec_timestamp = Some 10,
                  rec_company_name = Some ''Acme Co'', rec_login_method = Some ''browser'',
                  rec_app_platform = None, rec_app_version = None\<rparr>)]\<rparr>"

text \<open>
  A store with three accounts: 9 was saved last and its token is dead, 7 and 42 are
  live.
\<close>

definition mixed_world :: world where
  "mixed_world =
     vault_world
       \<lparr>keyring_store :=
          [''session_42'' \<mapsto> ''tokA'', ''session_9'' \<mapsto> ''tokX'', ''session_7'' \<mapsto> ''tokB''],
        sessions_file := Document
          [(''42'', \<lparr>rec_cookie = Some ''KEYRING:session_42'', rec_timestamp = Some 10,
                     rec_company_name = Some ''Acme Co'', rec_login_method = Some ''browser'',
                     rec_app_platform = None, rec_app_version = None\<rparr>),
           (''9'', \<lparr>rec_cookie = Some ''KEYRING:session_9'', rec_timestamp = Some 30,
                    rec_company_name = Some ''Gone Ltd'', rec_login_method = Some ''browser'',
                    rec_app_platform = None, rec_app_version = None\<rparr>),
           (''7'', \<lparr>rec_cookie = Some ''KEYRING:session_7'', rec_timestamp = Some 20,
                    rec_company_name = Some ''Beta Lines'', rec_login_method = Some ''browser'',
                    rec_app_platform = None, rec_app_version = None\<rparr>)]\<rparr>"

text \<open>
  Three browsers. The first stays open with an empty cookie jar and answers at once; the
  second does the same but each pass of its driver calls takes nine seconds. The third
  shows the session cookie \<^verbatim>\<open>tokA\<close> at once, and when the jar is read again after the
  validation the cookie has changed to \<^verbatim>\<open>tokZ\<close>.
\<close>

definition idle_browser :: browser where
  "idle_browser =
     \<lparr>navigate_ok = True, observe = (\<lambda>i. CookieJar []), latency_ms = (\<lambda>i. 0),
      final_jar = None\<rparr>"

definition slow_browser :: browser where
  "slow_browser = idle_browser\<lparr>latency_ms := (\<lambda>i. 9000)\<rparr>"

definition rotating_browser :: browser where
  "rotating_browser =
     \<lparr>navigate_ok = True,
      observe = (\<lambda>i. CookieJar [(''shipping_manager_session'', ''tokA'')]),
      latency_ms = (\<lambda>i. 0),
      final_jar = Some [(''shipping_manager_session'', ''tokZ''), (''app_platform'', ''web'')]\<rparr>"

text \<open>
  A browser in which the operator logs in as account 7 (token \<^verbatim>\<open>tokB\<close>), and the
  store of three accounts with that browser coming up.
\<close>

definition beta_browser :: browser where
  "beta_browser =
     \<lparr>navigate_ok = True,
      observe = (\<lambda>i. CookieJar [(''shipping_manager_session'', ''tokB'')]),
      latency_ms = (\<lambda>i. 0),
      final_jar = Some [(''shipping_manager_session'', ''tokB'')]\<rparr>"

definition refresh_world :: world where
  "refresh_world = mixed_world\<lparr>browsers := [Some beta_browser]\<rparr>"

section \<open>Properties\<close>

subsection \<open>The codecs\<close>

lemma xor_key_involution: "xor_key key (xor_key key data) = data"
proof (rule nth_equalityI)
  show "length (xor_key key (xor_key key data)) = length data"
    by (simp add: xor_key_def)
next
  fix i assume "i < length (xor_key key (xor_key key data))"
  then have i: "i < length data" by (simp add: xor_key_def)
  then show "xor_key key (xor_key key data) ! i = data ! i"
    by (simp add: xor_key_def nth_enumerate_eq xor.assoc)
qed

lemma index_of_nth: "distinct xs \<Longrightarrow> i < length xs \<Longrightarrow> index_of (xs ! i) xs = Some i"
proof (induction xs arbitrary: i)
  case Nil
  then show ?case by simp
next
  case (Cons x xs)
  show ?case
  proof (cases i)
    case 0
    then show ?thesis by simp
  next
    case (Suc j)
    with Cons.prems have "xs ! j \<in> set xs" and "x \<notin> set xs" by auto
    then have "xs ! j \<noteq> x" by auto
    with Cons Suc show ?thesis by simp
  qed
qed

lemma length_b64_alphabet: "length b64_alphabet = 64"
  by (simp add: b64_alphabet_def)

lemma distinct_b64_alphabet: "distinct b64_alphabet"
  by (simp add: b64_alphabet_def)

lemma b64_value_char: "i < 64 \<Longrightarrow> b64_value (b64_char i) = Some i"
  by (simp add: b64_value_def b64_char_def index_of_nth distinct_b64_alphabet length_b64_alphabet)

lemma b64_alphabet_plain: "\<forall>c \<in> set b64_alphabet. c \<noteq> CHR ''='' \<and> (of_char c :: nat) < 128"
  by (simp add: b64_alphabet_def)

lemma b64_char_plain: "i < 64 \<Longrightarrow> b64_char i \<noteq> CHR ''='' \<and> (of_char (b64_char i) :: nat) < 128"
  using b64_alphabet_plain nth_mem [of i b64_alphabet]
  by (simp add: b64_char_def length_b64_alphabet)

lemma unat_byte_less: "unat (a :: byte) < 256"
  using unsigned_less [of a, where 'a = nat] by simp

lemma sextet_bounds:
  assumes "a < (256::nat)" and "b < 256" and "c < 256"
  shows "a div 4 < 64" and "(a mod 4) * 16 + b div 16 < 64"
    and "(b mod 16) * 4 + c div 64 < 64" and "c mod 64 < 64"
    and "(a mod 4) * 16 < 64" and "(b mod 16) * 4 < 64"
  using assms by simp_all

lemma sextet_join:
  assumes "a < (256::nat)" and "b < 256" and "c < 256"
  shows "a div 4 * 4 + ((a mod 4) * 16 + b div 16) div 16 = a"
    and "((a mod 4) * 16 + b div 16) mod 16 * 16 + ((b mod 16) * 4 + c div 64) div 4 = b"
    and "((b mod 16) * 4 + c div 64) mod 4 * 64 + c mod 64 = c"
    and "a div 4 * 4 + (a mod 4) * 16 div 16 = a"
    and "((a mod 4) * 16 + b div 16) mod 16 * 16 + (b mod 16) * 4 div 4 = b"
  using assms by simp_all

lemma a2b_base64_group:
  fixes a b c :: byte
  shows "a2b_base64 0 l p out
           (b64_char (unat a div 4) # b64_char ((unat a mod 4) * 16 + unat b div 16)
            # b64_char ((unat b mod 16) * 4 + unat c div 64) # b64_char (unat c mod 64) # rest)
         = a2b_base64 0 0 0 (out @ [a, b, c]) rest"
  using sextet_bounds [OF unat_byte_less [of a] unat_byte_less [of b] unat_byte_less [of c]]
        sextet_join [OF unat_byte_less [of a] unat_byte_less [of b] unat_byte_less [of c]]
  by (simp add: b64_value_char b64_char_plain)

lemma a2b_base64_two:
  fixes a b :: byte
  shows "a2b_base64 0 l p out
           [b64_char (unat a div 4), b64_char ((unat a mod 4) * 16 + unat b div 16),
            b64_char ((unat b mod 16) * 4), CHR ''='']
         = Some (out @ [a, b])"
  using sextet_bounds [OF unat_byte_less [of a] unat_byte_less [of b] unat_byte_less [of b]]
        sextet_join [OF unat_byte_less [of a] unat_byte_less [of b] unat_byte_less [of b]]
  by (simp add: b64_value_char b64_char_plain)

lemma a2b_base64_one:
  fixes a :: byte
  shows "a2b_base64 0 l p out
           [b64_char (unat a div 4), b64_char ((unat a mod 4) * 16), CHR ''='', CHR ''='']
         = Some (out @ [a])"
  using sextet_bounds [OF unat_byte_less [of a] unat_byte_less [of a] unat_byte_less [of a]]
        sextet_join [OF unat_byte_less [of a] unat_byte_less [of a] unat_byte_less [of a]]
  by (simp add: b64_value_char b64_char_plain)

lemma a2b_base64_b64encode: "a2b_base64 0 l p out (b64encode data) = Some (out @ data)"
proof (induction data arbitrary: l p out rule: b64encode.induct)
  case (1 a b c rest)
  then show ?case by (simp add: a2b_base64_group del: a2b_base64.simps)
next
  case (2 a b)
  then show ?case by (simp add: a2b_base64_two del: a2b_base64.simps)
next
  case (3 a)
  then show ?case by (simp add: a2b_base64_one del: a2b_base64.simps)
next
  case 4
  then show ?case by simp
qed

lemma b64encode_ascii: "list_all (\<lambda>c. (of_char c :: nat) < 128) (b64encode data)"
proof (induction data rule: b64encode.induct)
  case (1 a b c rest)
  then show ?case
    using sextet_bounds [OF unat_byte_less [of a] unat_byte_less [of b] unat_byte_less [of c]]
    by (simp add: b64_char_plain)
next
  case (2 a b)
  then show ?case
    using sextet_bounds [OF unat_byte_less [of a] unat_byte_less [of b] unat_byte_less [of b]]
    by (simp add: b64_char_plain)
next
  case (3 a)
  then show ?case
    using sextet_bounds [OF unat_byte_less [of a] unat_byte_less [of a] unat_byte_less [of a]]
    by (simp add: b64_char_plain)
next
  case 4
  then show ?case by simp
qed

lemma b64decode_b64encode: "b64decode (b64encode data) = Some data"
  using a2b_base64_b64encode [of 0 0 "[]" data]
  by (simp add: b64decode_def b64encode_ascii)

lemma char_of_byte_of_char: "char_of_byte (byte_of_char c) = c"
proof -
  have "of_char c < (256::nat)" by (cases c) (simp add: of_char_def)
  then show ?thesis by (simp add: char_of_byte_def byte_of_char_def unat_of_nat)
qed

lemma bytes_decode_str_encode:
  "utf8_valid (str_encode s) \<Longrightarrow> bytes_decode (str_encode s) = Some s"
  by (simp add: bytes_decode_def str_encode_def comp_def char_of_byte_of_char)

subsection \<open>The credential vault\<close>

text \<open>
  Claim C1. For every secret string \<open>s\<close> and every identity,
  \<^verbatim>\<open>decrypt_cookie(encrypt_cookie(s, id), id) == s\<close>, with the keyring (available and
  working) and without it (obfuscation fallback, for which the machine fingerprint must
  be obtainable), in the world that \<^verbatim>\<open>encrypt_cookie\<close> leaves behind. The reference
  returned is a tagged string. The first hypothesis says that \<open>s\<close> is a Python string:
  its bytes are well-formed UTF-8.
\<close>

theorem decrypt_encrypt_roundtrip:
  assumes "utf8_valid (str_encode s)"
    and "(KEYRING_AVAILABLE w \<and> keyring_ok w) \<or> machine_key w \<noteq> None"
  shows "\<exists>r w'. encrypt_cookie w (Some s) identity = (Some r, w')
           \<and> is_encrypted (PyStr r) \<and> decrypt_cookie w' r identity = Some s"
proof (cases "KEYRING_AVAILABLE w \<and> keyring_ok w")
  case True
  define r where "r = ''KEYRING:'' @ account_name_for identity"
  define w' where "w' = w\<lparr>keyring_store := (keyring_store w)(account_name_for identity \<mapsto> s)\<rparr>"
  from True have "encrypt_cookie w (Some s) identity = (Some r, w')"
    by (simp add: encrypt_cookie_def Let_def r_def w'_def)
  moreover have "is_encrypted (PyStr r)"
    by (simp add: r_def startswith_def)
  moreover from True have "decrypt_cookie w' r identity = Some s"
    by (simp add: decrypt_cookie_def r_def w'_def startswith_def)
  ultimately show ?thesis by blast
next
  case False
  with assms(2) obtain key where key: "machine_key w = Some key" by auto
  define r where "r = ''v1:'' @ b64encode (xor_key key (str_encode s))"
  from False key have "encrypt_cookie w (Some s) identity = (Some r, w)"
    by (auto simp: encrypt_cookie_def Let_def r_def)
  moreover have "is_encrypted (PyStr r)"
    by (simp add: r_def startswith_def)
  moreover from key assms(1) have "decrypt_cookie w r identity = Some s"
    by (simp add: decrypt_cookie_def r_def startswith_def b64decode_b64encode
          xor_key_involution bytes_decode_str_encode)
  ultimately show ?thesis by blast
qed

theorem decrypt_encrypt_roundtrip_witness:
  "utf8_valid (str_encode ''tok123'')
   \<and> ((KEYRING_AVAILABLE fallback_world \<and> keyring_ok fallback_world)
        \<or> machine_key fallback_world \<noteq> None)
   \<and> (\<exists>r w'. encrypt_cookie fallback_world (Some ''tok123'') ''42'' = (Some r, w')
           \<and> is_encrypted (PyStr r) \<and> decrypt_cookie w' r ''42'' = Some ''tok123'')"
proof -
  have valid: "utf8_valid (str_encode ''tok123'')"
    by (simp add: str_encode_def byte_of_char_def)
  have backend: "(KEYRING_AVAILABLE fallback_world \<and> keyring_ok fallback_world)
        \<or> machine_key fallback_world \<noteq> None"
    by (simp add: fallback_world_def vault_world_def)
  from valid backend decrypt_encrypt_roundtrip [OF valid backend, of "''42''"]
  show ?thesis by blast
qed

text \<open>
  With a working keyring, \<^verbatim>\<open>encrypt_cookie\<close> called with the argument that
  \<^verbatim>\<open>save_session\<close> passes for a field stores the secret under \<open>vault_identity\<close>.
\<close>

lemma encrypt_cookie_vault_identity:
  assumes "KEYRING_AVAILABLE w" and "keyring_ok w"
  shows "fst (encrypt_cookie w c (field_argument user_id f))
           = Some (''KEYRING:'' @ vault_identity user_id f)"
    and "keyring_store (snd (encrypt_cookie w c (field_argument user_id f)))
           (vault_identity user_id f) = Some (str_opt c)"
  using assms by (simp_all add: encrypt_cookie_def Let_def vault_identity_def)

lemma vault_identity_plain:
  "CHR ''_'' \<notin> set a \<Longrightarrow> vault_identity a CookieField = ''session_'' @ a"
  "vault_identity a PlatformField = ''app_platform_'' @ a"
  "vault_identity a VersionField = ''app_version_'' @ a"
  by (simp_all add: vault_identity_def account_name_for_def)

lemma str_nat_digits: "set (str_nat n) \<subseteq> set ''0123456789''"
proof (induction n rule: str_nat.induct)
  case (1 n)
  have d: "digit_char d \<in> set ''0123456789''" if "d < 10" for d
    unfolding digit_char_def by (rule nth_mem) (use that in simp)
  show ?case
  proof (cases "n < 10")
    case True
    then show ?thesis using d [of n] by (subst str_nat.simps) simp
  next
    case False
    with "1.IH" d [of "n mod 10"] show ?thesis by (subst str_nat.simps) simp
  qed
qed

lemma str_int_no_underscore: "CHR ''_'' \<notin> set (str_int i)"
  using str_nat_digits [of "nat i"] str_nat_digits [of "nat (- i)"]
  by (auto simp: str_int_def)

text \<open>
  Claim C6, as stated: the keyring names derived for the fields of a record never
  collide across (account id, field) pairs. It fails for an account id that contains an
  underscore, which \<^verbatim>\<open>encrypt_cookie\<close> takes as a name already formed: the accounts
  \<^verbatim>\<open>session_5\<close> and \<^verbatim>\<open>5\<close> share the entry of their session cookie.
\<close>

theorem vault_identity_collision:
  "vault_identity ''session_5'' CookieField = vault_identity ''5'' CookieField
   \<and> (''session_5'', CookieField) \<noteq> (''5'', CookieField)"
  by (simp add: vault_identity_def account_name_for_def)

text \<open>
  Claim C6, amended: for account ids without an underscore (every id rendered from a
  number is one, \<open>str_int_no_underscore\<close>), two distinct pairs of account id and field
  have distinct keyring names.
\<close>

theorem vault_identity_injective:
  assumes "CHR ''_'' \<notin> set a" and "CHR ''_'' \<notin> set b" and "(a, f) \<noteq> (b, g)"
  shows "vault_identity a f \<noteq> vault_identity b g"
  using assms by (cases f; cases g) (simp_all add: vault_identity_plain)

theorem vault_identity_injective_witness:
  "CHR ''_'' \<notin> set ''42'' \<and> CHR ''_'' \<notin> set ''7'' \<and> (''42'', PlatformField) \<noteq> (''7'', PlatformField)
   \<and> vault_identity ''42'' PlatformField \<noteq> vault_identity ''7'' PlatformField"
  using vault_identity_injective [of "''42''" "''7''" PlatformField PlatformField] by simp

subsection \<open>The session store\<close>

lemma update_fresh: "k \<notin> fst ` set d \<Longrightarrow> AList.update k v d = d @ [(k, v)]"
  by (induction d) auto

lemma foldl_update_distinct:
  "distinct (map fst (acc @ d)) \<Longrightarrow> foldl (\<lambda>d (k, v). AList.update k v d) acc d = acc @ d"
proof (induction d arbitrary: acc)
  case Nil
  then show ?case by simp
next
  case (Cons x d)
  obtain k v where x: "x = (k, v)" by (cases x)
  from Cons.prems x have "k \<notin> fst ` set acc" by auto
  then have "AList.update k v acc = acc @ [(k, v)]" by (rule update_fresh)
  moreover from Cons.prems x have "distinct (map fst ((acc @ [(k, v)]) @ d))" by simp
  ultimately show ?case using Cons.IH [of "acc @ [(k, v)]"] x by simp
qed

lemma json_object_distinct: "distinct (map fst d) \<Longrightarrow> json_object d = d"
  using foldl_update_distinct [of "[]" d] by (simp add: json_object_def)

lemma distinct_json_object: "distinct (map fst (json_object members))"
proof -
  have "distinct (map fst d) \<Longrightarrow> distinct (map fst (foldl (\<lambda>d (k, v). AList.update k v d) d members))" for d
    by (induction members arbitrary: d) (auto simp: distinct_update)
  then show ?thesis by (simp add: json_object_def)
qed

lemma distinct_load_sessions: "distinct (map fst (load_sessions w))"
  by (auto simp: load_sessions_def read_sessions_file_def distinct_json_object split: file_state.splits)

lemma encrypt_cookie_world:
  "\<exists>ks. snd (encrypt_cookie w c i) = w\<lparr>keyring_store := ks\<rparr>"
proof (cases "KEYRING_AVAILABLE w \<and> keyring_ok w")
  case True
  then show ?thesis by (auto simp: encrypt_cookie_def Let_def)
next
  case False
  then have "snd (encrypt_cookie w c i) = w"
    by (auto simp: encrypt_cookie_def Let_def split: option.splits)
  then have "snd (encrypt_cookie w c i) = w\<lparr>keyring_store := keyring_store w\<rparr>" by simp
  then show ?thesis by (rule exI [of _ "keyring_store w"])
qed

lemma only_keyring_step:
  assumes "\<exists>ks. w' = w\<lparr>keyring_store := ks\<rparr>"
  shows "\<exists>ks. snd (if b then encrypt_cookie w' c i else (r, w')) = w\<lparr>keyring_store := ks\<rparr>"
proof -
  from assms obtain k1 where w': "w' = w\<lparr>keyring_store := k1\<rparr>" ..
  obtain k2 where "snd (encrypt_cookie w' c i) = w'\<lparr>keyring_store := k2\<rparr>"
    using encrypt_cookie_world by blast
  with w' have "snd (encrypt_cookie w' c i) = w\<lparr>keyring_store := k2\<rparr>" by simp
  with w' show ?thesis by (cases b) auto
qed

lemma build_session_data_world:
  "\<exists>ks. snd (build_session_data w uid c n m p v) = w\<lparr>keyring_store := ks\<rparr>"
  unfolding build_session_data_def Let_def split_beta snd_conv
  by (intro only_keyring_step encrypt_cookie_world)

lemma build_session_data_fields:
  "rec_timestamp (fst (build_session_data w uid c n m p v)) = Some (int (clock_ms w div 1000))"
  "rec_company_name (fst (build_session_data w uid c n m p v)) = Some n"
  "rec_login_method (fst (build_session_data w uid c n m p v)) = Some m"
  by (simp_all add: build_session_data_def Let_def split_beta)

lemma save_session_writable:
  assumes "file_writable w"
  shows "\<exists>ks. save_session w uid c n m p v =
           w\<lparr>keyring_store := ks,
             sessions_file := Document (AList.update (py_str uid)
                (fst (build_session_data w uid c n m p v)) (load_sessions w)),
             clock_ms := clock_ms w + 500\<rparr>"
proof -
  obtain ks where "snd (build_session_data w uid c n m p v) = w\<lparr>keyring_store := ks\<rparr>"
    using build_session_data_world by blast
  with assms show ?thesis
    by (auto simp: save_session_def Let_def split_beta)
qed

lemma load_sessions_after_save:
  assumes "file_writable w"
  shows "load_sessions (save_session w uid c n m p v) =
           AList.update (py_str uid) (fst (build_session_data w uid c n m p v)) (load_sessions w)"
proof -
  obtain ks where "save_session w uid c n m p v =
           w\<lparr>keyring_store := ks,
             sessions_file := Document (AList.update (py_str uid)
                (fst (build_session_data w uid c n m p v)) (load_sessions w)),
             clock_ms := clock_ms w + 500\<rparr>"
    using save_session_writable [OF assms] by blast
  then show ?thesis
    by (simp add: load_sessions_def [of "_\<lparr>sessions_file := _, clock_ms := _\<rparr>"] read_sessions_file_def
          json_object_distinct distinct_update distinct_load_sessions)
qed

lemma filter_update_key:
  "distinct (map fst d) \<Longrightarrow> filter (\<lambda>kv. fst kv = k) (AList.update k v d) = [(k, v)]"
proof (induction d)
  case Nil
  then show ?case by simp
next
  case (Cons x d)
  obtain k' v' where x: "x = (k', v')" by (cases x)
  show ?case
  proof (cases "k' = k")
    case True
    with Cons.prems x have "k \<notin> fst ` set d" by auto
    then have "filter (\<lambda>kv. fst kv = k) d = []" by (auto simp: filter_empty_conv)
    with True x show ?thesis by simp
  next
    case False
    with Cons x show ?thesis by simp
  qed
qed

lemma save_session_keeps_writable:
  "file_writable (save_session w uid c n m p v) = file_writable w"
proof -
  obtain ks where "snd (build_session_data w uid c n m p v) = w\<lparr>keyring_store := ks\<rparr>"
    using build_session_data_world by blast
  then show ?thesis by (simp add: save_session_def Let_def split_beta)
qed

lemma save_session_clock:
  "file_writable w \<Longrightarrow> clock_ms (save_session w uid c n m p v) = clock_ms w + 500"
  using save_session_writable [of w uid c n m p v] by auto

lemma vault_world_simps:
  "KEYRING_AVAILABLE vault_world" "keyring_ok vault_world" "file_writable vault_world"
  "clock_ms vault_world = 10000" "sessions_file vault_world = Absent"
  by (simp_all add: vault_world_def)

text \<open>
  Claim C8. \<^verbatim>\<open>load_sessions\<close> never raises and returns a mapping in every state of
  the file: every exception of its body ends in the handler, which returns the empty
  mapping, as does a missing file; a document that parses is returned. The result has
  each key once.
\<close>

theorem load_sessions_never_raises:
  "distinct (map fst (load_sessions w))
   \<and> (sessions_file w = Absent \<or> sessions_file w = Unreadable \<or> sessions_file w = Corrupt
        \<longrightarrow> load_sessions w = [])
   \<and> (\<forall>e. read_sessions_file w = Inl e \<longrightarrow> load_sessions w = [])
   \<and> (\<forall>members. sessions_file w = Document members \<longrightarrow> load_sessions w = json_object members)"
  by (auto simp: load_sessions_def read_sessions_file_def distinct_json_object
           split: file_state.splits)

theorem load_sessions_never_raises_witness:
  "read_sessions_file (vault_world\<lparr>sessions_file := Corrupt\<rparr>) = Inl JSONDecodeError
   \<and> load_sessions (vault_world\<lparr>sessions_file := Corrupt\<rparr>) = []"
  using load_sessions_never_raises [of "vault_world\<lparr>sessions_file := Corrupt\<rparr>"]
  by (simp add: read_sessions_file_def)

text \<open>
  Claim C5. Two calls of \<^verbatim>\<open>save_session\<close> for one account, with a writable file,
  leave exactly one record under the account's key. It is the record built by the second
  call, which does not look at the stored mapping: its timestamp is the clock of the
  second call (half a second after the first began), its name and method are those of
  the second call. The records under all other keys are as before the first call.
\<close>

theorem save_session_twice:
  assumes "file_writable w"
    and "w1 = save_session w user_id cookie1 name1 method1 platform1 version1"
    and "w2 = save_session w1 user_id cookie2 name2 method2 platform2 version2"
    and "sd2 = fst (build_session_data w1 user_id cookie2 name2 method2 platform2 version2)"
  shows "filter (\<lambda>kv. fst kv = py_str user_id) (load_sessions w2) = [(py_str user_id, sd2)]
       \<and> map_of (load_sessions w2) (py_str user_id) = Some sd2
       \<and> rec_timestamp sd2 = Some (int ((clock_ms w + 500) div 1000))
       \<and> rec_company_name sd2 = Some name2
       \<and> rec_login_method sd2 = Some method2
       \<and> (\<forall>k. k \<noteq> py_str user_id \<longrightarrow> map_of (load_sessions w2) k = map_of (load_sessions w) k)"
proof -
  have w1_writable: "file_writable w1"
    using assms(1,2) by (simp add: save_session_keeps_writable)
  have l1: "load_sessions w1 =
      AList.update (py_str user_id)
        (fst (build_session_data w user_id cookie1 name1 method1 platform1 version1)) (load_sessions w)"
    using assms(1,2) by (simp add: load_sessions_after_save)
  have l2: "load_sessions w2 = AList.update (py_str user_id) sd2 (load_sessions w)"
    using w1_writable assms(3,4) l1 by (simp add: load_sessions_after_save)
  have "filter (\<lambda>kv. fst kv = py_str user_id) (load_sessions w2) = [(py_str user_id, sd2)]"
    unfolding l2 by (rule filter_update_key) (rule distinct_load_sessions)
  moreover have "map_of (load_sessions w2) (py_str user_id) = Some sd2"
    unfolding l2 by (simp add: update_conv')
  moreover have "rec_timestamp sd2 = Some (int ((clock_ms w + 500) div 1000))"
    using assms(1,2,4) by (simp add: build_session_data_fields save_session_clock)
  moreover have "rec_company_name sd2 = Some name2" "rec_login_method sd2 = Some method2"
    using assms(4) by (simp_all add: build_session_data_fields)
  moreover have "\<forall>k. k \<noteq> py_str user_id \<longrightarrow> map_of (load_sessions w2) k = map_of (load_sessions w) k"
    unfolding l2 by (simp add: update_conv')
  ultimately show ?thesis by blast
qed

text \<open>
  The first call stores a platform token and the second has none: the record that
  remains has none, nothing of the first record is merged into it.
\<close>

theorem save_session_twice_witness:
  "file_writable vault_world
   \<and> filter (\<lambda>kv. fst kv = ''42'')
        (load_sessions
          (save_session
            (save_session vault_world (IdStr ''42'') (PyStr ''tokA'') ''Acme'' ''browser''
               (Some ''ios'') None)
            (IdStr ''42'') (PyStr ''tokB'') ''Acme Co'' ''browser'' None None))
     = [(''42'', \<lparr>rec_cookie = Some ''KEYRING:session_42'', rec_timestamp = Some 10,
                  rec_company_name = Some ''Acme Co'', rec_login_method = Some ''browser'',
                  rec_app_platform = None, rec_app_version = None\<rparr>)]"
proof -
  define w1 where "w1 = save_session vault_world (IdStr ''42'') (PyStr ''tokA'') ''Acme'' ''browser''
               (Some ''ios'') None"
  define w2 where "w2 = save_session w1 (IdStr ''42'') (PyStr ''tokB'') ''Acme Co'' ''browser'' None None"
  define sd2 where "sd2 = fst (build_session_data w1 (IdStr ''42'') (PyStr ''tokB'') ''Acme Co'' ''browser'' None None)"
  have writable: "file_writable vault_world" by (simp add: vault_world_simps)
  obtain ks where "w1 = vault_world\<lparr>keyring_store := ks,
       sessions_file := Document (AList.update (py_str (IdStr ''42''))
          (fst (build_session_data vault_world (IdStr ''42'') (PyStr ''tokA'') ''Acme'' ''browser'' (Some ''ios'') None))
          (load_sessions vault_world)),
       clock_ms := clock_ms vault_world + 500\<rparr>"
    unfolding w1_def using save_session_writable [OF writable] by blast
  then have w1: "KEYRING_AVAILABLE w1" "keyring_ok w1" "clock_ms w1 = 10500"
    by (simp_all add: vault_world_simps)
  have "sd2 = \<lparr>rec_cookie = Some ''KEYRING:session_42'', rec_timestamp = Some 10,
                  rec_company_name = Some ''Acme Co'', rec_login_method = Some ''browser'',
                  rec_app_platform = None, rec_app_version = None\<rparr>"
    by (simp add: sd2_def build_session_data_def encrypt_cookie_def account_name_for_def w1 Let_def)
  with save_session_twice [OF writable w1_def w2_def sd2_def] writable
  show ?thesis by (simp add: w1_def w2_def)
qed

subsection \<open>The validator\<close>

text \<open>
  Claim C9. For a string with a recognised tag (\<^verbatim>\<open>KEYRING:\<close> or \<^verbatim>\<open>v1:\<close>) and no
  user id (\<^verbatim>\<open>None\<close> or the empty string), \<^verbatim>\<open>validate_session_cookie\<close> returns
  \<^verbatim>\<open>None\<close> and leaves the world as it was: no request is sent.
\<close>

theorem validate_tagged_without_user_id:
  assumes "is_encrypted (PyStr cookie)" and "user_id = None \<or> user_id = Some []"
  shows "validate_session_cookie w (PyStr cookie) user_id = (None, w)"
  using assms by (auto simp: validate_session_cookie_def)

theorem validate_tagged_without_user_id_witness:
  "is_encrypted (PyStr ''KEYRING:session_42'') \<and> ((None :: string option) = None \<or> None = Some [])
   \<and> validate_session_cookie vault_world (PyStr ''KEYRING:session_42'') None = (None, vault_world)"
proof -
  have "is_encrypted (PyStr ''KEYRING:session_42'')" by (simp add: startswith_def)
  with validate_tagged_without_user_id [of "''KEYRING:session_42''" None vault_world]
  show ?thesis by simp
qed

text \<open>
  The two validation runs against a stub whose answer depends on the header alone. Each
  record is looked at once; the world changes in its request log only.
\<close>

lemma decrypt_cookie_log [simp]:
  "decrypt_cookie (w\<lparr>requests_log := l\<rparr>) c k = decrypt_cookie w c k"
  by (simp add: decrypt_cookie_def)

lemma validate_none:
  "validate_session_cookie w PyNone u =
     (response_user (remote w (length (requests_log w)) (cookie_header None)),
      w\<lparr>requests_log := requests_log w @ [cookie_header None]\<rparr>)"
  by (simp add: validate_session_cookie_def cookie_header_def Let_def)

lemma validate_untagged:
  "\<not> is_encrypted (PyStr s) \<Longrightarrow>
   validate_session_cookie w (PyStr s) u =
     (response_user (remote w (length (requests_log w)) (cookie_header (Some s))),
      w\<lparr>requests_log := requests_log w @ [cookie_header (Some s)]\<rparr>)"
  by (auto simp: validate_session_cookie_def cookie_header_def Let_def)

lemma validate_tagged:
  "is_encrypted (PyStr c) \<Longrightarrow> k \<noteq> [] \<Longrightarrow>
   validate_session_cookie w (PyStr c) (Some k) =
     (case decrypt_cookie w c k of
        None \<Rightarrow> (None, w)
      | Some p \<Rightarrow>
          if p = [] then (None, w)
          else (response_user (remote w (length (requests_log w)) (cookie_header (Some p))),
                w\<lparr>requests_log := requests_log w @ [cookie_header (Some p)]\<rparr>))"
  by (simp add: validate_session_cookie_def cookie_header_def Let_def split: option.splits)

lemma validate_each_step:
  assumes stub: "remote w = (\<lambda>n. live)" and px: "plain_record w (k, sd)"
  shows "\<exists>log'.
           snd (validate_each (w\<lparr>requests_log := log\<rparr>) ((k, sd) # ss))
             = snd (validate_each (w\<lparr>requests_log := log'\<rparr>) ss)
           \<and> map vs_user_id (fst (validate_each (w\<lparr>requests_log := log\<rparr>) ((k, sd) # ss)))
             = (if record_live w live (k, sd) then [k] else [])
               @ map vs_user_id (fst (validate_each (w\<lparr>requests_log := log'\<rparr>) ss))"
proof -
  have untagged: ?thesis
    if c: "opt_cookie (rec_cookie sd) = c" "\<not> is_encrypted c" "c = PyNone \<or> c = PyStr s"
      "h = cookie_header (case c of PyStr s \<Rightarrow> Some s | _ \<Rightarrow> None)"
      "record_live w live (k, sd) = (response_user (live h) \<noteq> None)" for c s h
  proof -
    have v: "validate_session_cookie (w\<lparr>requests_log := log\<rparr>) c (Some k) =
        (response_user (live h), w\<lparr>requests_log := log @ [h]\<rparr>)"
      using c stub by (auto simp: validate_none validate_untagged)
    show ?thesis
    proof (cases "response_user (live h)")
      case None
      with v c show ?thesis
        by (intro exI [of _ "log @ [h]"]) (simp add: Let_def)
    next
      case (Some u)
      with v c show ?thesis
        by (intro exI [of _ "log @ [h]"]) (simp add: Let_def split_beta)
    qed
  qed
  show ?thesis
  proof (cases "rec_cookie sd")
    case None
    then show ?thesis
      by (intro untagged [of PyNone _ "cookie_header None"]) (simp_all add: record_live_def)
  next
    case (Some c)
    show ?thesis
    proof (cases "is_encrypted (PyStr c)")
      case False
      with Some show ?thesis
        by (intro untagged [of "PyStr c" c "cookie_header (Some c)"])
           (simp_all add: record_live_def del: is_encrypted.simps)
    next
      case True
      show ?thesis
      proof (cases "decrypt_cookie w c k")
        case None
        with Some True show ?thesis
          by (intro exI [of _ log]) (simp add: record_live_def Let_def)
      next
        case (Some p)
        note c = \<open>rec_cookie sd = Some c\<close> \<open>is_encrypted (PyStr c)\<close>
        show ?thesis
        proof (cases "p = []")
          case True
          with Some c show ?thesis
            by (intro exI [of _ log]) (simp add: record_live_def Let_def)
        next
          case False
          from px Some c have np: "\<not> is_encrypted (PyStr p)" by (simp add: plain_record_def)
          have v: "validate_session_cookie (w\<lparr>requests_log := log\<rparr>) (PyStr p) (Some k) =
              (response_user (live (cookie_header (Some p))),
               w\<lparr>requests_log := log @ [cookie_header (Some p)]\<rparr>)"
            using np stub by (simp add: validate_untagged)
          have rl: "record_live w live (k, sd)
                      = (response_user (live (cookie_header (Some p))) \<noteq> None)"
            using Some c False by (simp add: record_live_def)
          show ?thesis
          proof (cases "response_user (live (cookie_header (Some p)))")
            case None
            with v rl Some c False show ?thesis
              by (intro exI [of _ "log @ [cookie_header (Some p)]"])
                 (simp add: Let_def del: is_encrypted.simps)
          next
            case (Some u)
            with v rl \<open>decrypt_cookie w c k = Some p\<close> c False show ?thesis
              by (intro exI [of _ "log @ [cookie_header (Some p)]"])
                 (simp add: Let_def split_beta del: is_encrypted.simps)
          qed
        qed
      qed
    qed
  qed
qed

lemma validate_each_stub:
  assumes stub: "remote w = (\<lambda>n. live)"
    and plain: "\<forall>x \<in> set ss. plain_record w x"
  shows "(\<exists>log'. snd (validate_each (w\<lparr>requests_log := log\<rparr>) ss) = w\<lparr>requests_log := log'\<rparr>)
       \<and> map vs_user_id (fst (validate_each (w\<lparr>requests_log := log\<rparr>) ss))
           = map fst (filter (record_live w live) ss)"
  using plain
proof (induction ss arbitrary: log)
  case Nil
  show ?case by (auto intro: exI [of _ log])
next
  case (Cons x ss)
  obtain k sd where x: "x = (k, sd)" by (cases x)
  from Cons.prems x have px: "plain_record w (k, sd)" by simp
  obtain log' where step:
      "snd (validate_each (w\<lparr>requests_log := log\<rparr>) ((k, sd) # ss))
         = snd (validate_each (w\<lparr>requests_log := log'\<rparr>) ss)"
      "map vs_user_id (fst (validate_each (w\<lparr>requests_log := log\<rparr>) ((k, sd) # ss)))
         = (if record_live w live (k, sd) then [k] else [])
           @ map vs_user_id (fst (validate_each (w\<lparr>requests_log := log'\<rparr>) ss))"
    using validate_each_step [OF stub px] by blast
  from Cons.prems have "(\<exists>log''. snd (validate_each (w\<lparr>requests_log := log'\<rparr>) ss) = w\<lparr>requests_log := log''\<rparr>)
       \<and> map vs_user_id (fst (validate_each (w\<lparr>requests_log := log'\<rparr>) ss))
           = map fst (filter (record_live w live) ss)"
    using Cons.IH [of log'] by simp
  then show ?case unfolding x step by simp
qed

lemma expired_each_step:
  assumes stub: "remote w = (\<lambda>n. live)" and px: "plain_record w (k, sd)"
  shows "\<exists>log'.
           snd (expired_each (w\<lparr>requests_log := log\<rparr>) ((k, sd) # ss))
             = snd (expired_each (w\<lparr>requests_log := log'\<rparr>) ss)
           \<and> map es_user_id (fst (expired_each (w\<lparr>requests_log := log\<rparr>) ((k, sd) # ss)))
             = (if record_live w live (k, sd) then [] else [k])
               @ map es_user_id (fst (expired_each (w\<lparr>requests_log := log'\<rparr>) ss))"
proof -
  have sent: ?thesis
    if v: "validate_session_cookie (w\<lparr>requests_log := log\<rparr>) (opt_cookie (rec_cookie sd)) (Some k) =
             (response_user (live h), w\<lparr>requests_log := log @ [h]\<rparr>)"
      and rl: "record_live w live (k, sd) = (response_user (live h) \<noteq> None)" for h
  proof (cases "response_user (live h)")
    case None
    with v rl show ?thesis
      by (intro exI [of _ "log @ [h]"]) (simp add: Let_def split_beta)
  next
    case (Some u)
    with v rl show ?thesis
      by (intro exI [of _ "log @ [h]"]) (simp add: Let_def)
  qed
  have unsent: ?thesis
    if v: "validate_session_cookie (w\<lparr>requests_log := log\<rparr>) (opt_cookie (rec_cookie sd)) (Some k) =
             (None, w\<lparr>requests_log := log\<rparr>)"
      and rl: "\<not> record_live w live (k, sd)"
    using v rl by (intro exI [of _ log]) (simp add: Let_def split_beta)
  show ?thesis
  proof (cases "rec_cookie sd")
    case None
    with stub show ?thesis
      by (intro sent [of "cookie_header None"]) (simp_all add: record_live_def validate_none)
  next
    case (Some c)
    show ?thesis
    proof (cases "is_encrypted (PyStr c)")
      case False
      with Some stub show ?thesis
        by (intro sent [of "cookie_header (Some c)"])
           (simp_all add: record_live_def validate_untagged del: is_encrypted.simps)
    next
      case True
      with px Some have k: "k \<noteq> []" by (simp add: plain_record_def)
      note c = \<open>rec_cookie sd = Some c\<close> \<open>is_encrypted (PyStr c)\<close>
      show ?thesis
      proof (cases "decrypt_cookie w c k")
        case None
        with c k show ?thesis
          by (intro unsent) (simp_all add: record_live_def validate_tagged del: is_encrypted.simps)
      next
        case (Some p)
        show ?thesis
        proof (cases "p = []")
          case True
          with Some c k show ?thesis
            by (intro unsent)
               (simp_all add: record_live_def validate_tagged del: is_encrypted.simps)
        next
          case False
          with Some c k stub show ?thesis
            by (intro sent [of "cookie_header (Some p)"])
               (simp_all add: record_live_def validate_tagged del: is_encrypted.simps)
        qed
      qed
    qed
  qed
qed

lemma expired_each_stub:
  assumes stub: "remote w = (\<lambda>n. live)"
    and plain: "\<forall>x \<in> set ss. plain_record w x"
  shows "(\<exists>log'. snd (expired_each (w\<lparr>requests_log := log\<rparr>) ss) = w\<lparr>requests_log := log'\<rparr>)
       \<and> map es_user_id (fst (expired_each (w\<lparr>requests_log := log\<rparr>) ss))
           = map fst (filter (\<lambda>x. \<not> record_live w live x) ss)"
  using plain
proof (induction ss arbitrary: log)
  case Nil
  show ?case by (auto intro: exI [of _ log])
next
  case (Cons x ss)
  obtain k sd where x: "x = (k, sd)" by (cases x)
  from Cons.prems x have px: "plain_record w (k, sd)" by simp
  obtain log' where step:
      "snd (expired_each (w\<lparr>requests_log := log\<rparr>) ((k, sd) # ss))
         = snd (expired_each (w\<lparr>requests_log := log'\<rparr>) ss)"
      "map es_user_id (fst (expired_each (w\<lparr>requests_log := log\<rparr>) ((k, sd) # ss)))
         = (if record_live w live (k, sd) then [] else [k])
           @ map es_user_id (fst (expired_each (w\<lparr>requests_log := log'\<rparr>) ss))"
    using expired_each_step [OF stub px] by blast
  from Cons.prems have "(\<exists>log''. snd (expired_each (w\<lparr>requests_log := log'\<rparr>) ss) = w\<lparr>requests_log := log''\<rparr>)
       \<and> map es_user_id (fst (expired_each (w\<lparr>requests_log := log'\<rparr>) ss))
           = map fst (filter (\<lambda>x. \<not> record_live w live x) ss)"
    using Cons.IH [of log'] by simp
  then show ?case unfolding x step by simp
qed

lemma load_sessions_log [simp]: "load_sessions (w\<lparr>requests_log := l\<rparr>) = load_sessions w"
  by (simp add: load_sessions_def read_sessions_file_def)

lemma validation_runs_stub:
  assumes stub: "remote w = (\<lambda>n. live)"
    and plain: "\<forall>x \<in> set (load_sessions w). plain_record w x"
    and run: "validate_all_sessions w = (valid_sessions, w1)"
      "get_expired_sessions_with_methods w1 = (expired_sessions, w2)"
  shows "map vs_user_id valid_sessions
           = map fst (filter (record_live w live) (sorted_sessions (load_sessions w)))"
    and "map es_user_id expired_sessions
           = map fst (filter (\<lambda>x. \<not> record_live w live x) (load_sessions w))"
proof -
  have plain': "\<forall>x \<in> set (sorted_sessions (load_sessions w)). plain_record w x"
    using plain by (simp add: sorted_sessions_def)
  obtain log1 where
    v: "snd (validate_each w (sorted_sessions (load_sessions w))) = w\<lparr>requests_log := log1\<rparr>"
      "map vs_user_id (fst (validate_each w (sorted_sessions (load_sessions w))))
         = map fst (filter (record_live w live) (sorted_sessions (load_sessions w)))"
    using validate_each_stub [OF stub plain', of "requests_log w"] by auto
  have "\<exists>log. w1 = w\<lparr>requests_log := log\<rparr>"
  proof (cases "load_sessions w = []")
    case True
    with run(1) have "w1 = w\<lparr>requests_log := requests_log w\<rparr>"
      by (simp add: validate_all_sessions_def)
    then show ?thesis by (rule exI [of _ "requests_log w"])
  next
    case False
    with run(1) v(1) have "w1 = w\<lparr>requests_log := log1\<rparr>"
      by (auto simp: validate_all_sessions_def)
    then show ?thesis by (rule exI [of _ log1])
  qed
  then obtain log where w1: "w1 = w\<lparr>requests_log := log\<rparr>" by blast
  show "map vs_user_id valid_sessions
           = map fst (filter (record_live w live) (sorted_sessions (load_sessions w)))"
  proof (cases "load_sessions w = []")
    case True
    with run(1) show ?thesis by (simp add: validate_all_sessions_def sorted_sessions_def)
  next
    case False
    with run(1) v(2) show ?thesis by (auto simp: validate_all_sessions_def)
  qed
  show "map es_user_id expired_sessions
           = map fst (filter (\<lambda>x. \<not> record_live w live x) (load_sessions w))"
  proof (cases "load_sessions w = []")
    case True
    with run(2) w1 show ?thesis by (simp add: get_expired_sessions_with_methods_def)
  next
    case False
    with run(2) w1 expired_each_stub [OF stub plain, of log] show ?thesis
      by (auto simp: get_expired_sessions_with_methods_def)
  qed
qed

lemma timestamp_of_member:
  "distinct (map fst ss) \<Longrightarrow> x \<in> set ss \<Longrightarrow> timestamp_of ss (fst x) = stored_timestamp (snd x)"
  by (cases x) (simp add: timestamp_of_def)

lemma stub_remote_const: "stub_remote = (\<lambda>n. stub_remote 0)"
  by (simp add: fun_eq_iff stub_remote_def)

lemma validation_simps:
  "opt_cookie (Some s) = PyStr s"
  "get_default (Some v) d = v"
  by simp_all

lemma tie_world_fields:
  "KEYRING_AVAILABLE tie_world" "keyring_ok tie_world"
  "keyring_store tie_world = [''session_42'' \<mapsto> ''tokA'', ''session_7'' \<mapsto> ''tokB'']"
  "remote tie_world = stub_remote" "requests_log tie_world = []"
  "load_sessions tie_world =
          [(''42'', \<lparr>rec_cookie = Some ''KEYRING:session_42'', rec_timestamp = Some 10,
                     rec_company_name = Some ''Acme Co'', rec_login_method = Some ''browser'',
                     rec_app_platform = None, rec_app_version = None\<rparr>),
           (''7'', \<lparr>rec_cookie = Some ''KEYRING:session_7'', rec_timestamp = Some 10,
                    rec_company_name = Some ''Beta Lines'', rec_login_method = Some ''browser'',
                    rec_app_platform = None, rec_app_version = None\<rparr>)]"
  by (simp_all add: tie_world_def vault_world_def load_sessions_def read_sessions_file_def
        json_object_def)

lemma empty_id_world_fields:
  "KEYRING_AVAILABLE empty_id_world" "keyring_ok empty_id_world"
  "keyring_store empty_id_world = [''session_'' \<mapsto> ''tokA'']"
  "remote empty_id_world = stub_remote" "requests_log empty_id_world = []"
  "load_sessions empty_id_world =
          [([], \<lparr>rec_cookie = Some ''KEYRING:session_'', rec_timestamp = Some 10,
                  rec_company_name = Some ''Acme Co'', rec_login_method = Some ''browser'',
                  rec_app_platform = None, rec_app_version = None\<rparr>)]"
  by (simp_all add: empty_id_world_def vault_world_def load_sessions_def read_sessions_file_def
        json_object_def)

lemma mixed_world_fields:
  "KEYRING_AVAILABLE mixed_world" "keyring_ok mixed_world"
  "keyring_store mixed_world =
     [''session_42'' \<mapsto> ''tokA'', ''session_9'' \<mapsto> ''tokX'', ''session_7'' \<mapsto> ''tokB'']"
  "remote mixed_world = stub_remote" "requests_log mixed_world = []"
  "load_sessions mixed_world =
          [(''42'', \<lparr>rec_cookie = Some ''KEYRING:session_42'', rec_timestamp = Some 10,
                     rec_company_name = Some ''Acme Co'', rec_login_method = Some ''browser'',
                     rec_app_platform = None, rec_app_version = None\<rparr>),
           (''9'', \<lparr>rec_cookie = Some ''KEYRING:session_9'', rec_timestamp = Some 30,
                    rec_company_name = Some ''Gone Ltd'', rec_login_method = Some ''browser'',
                    rec_app_platform = None, rec_app_version = None\<rparr>),
           (''7'', \<lparr>rec_cookie = Some ''KEYRING:session_7'', rec_timestamp = Some 20,
                    rec_company_name = Some ''Beta Lines'', rec_login_method = Some ''browser'',
                    rec_app_platform = None, rec_app_version = None\<rparr>)]"
  by (simp_all add: mixed_world_def vault_world_def load_sessions_def read_sessions_file_def
        json_object_def)

lemmas run_defs =
  validate_all_sessions_def get_expired_sessions_with_methods_def sorted_sessions_def
  stored_timestamp_def validate_session_cookie_def decrypt_cookie_def startswith_def
  stub_remote_def TARGET_COOKIE_NAME_def response_user_def Let_def

lemma tie_run:
  "map vs_user_id (fst (validate_all_sessions tie_world)) = [''42'', ''7'']"
  "fst (get_expired_sessions_with_methods (snd (validate_all_sessions tie_world))) = []"
  by (simp_all add: run_defs tie_world_fields)

lemma empty_id_run:
  "map vs_user_id (fst (validate_all_sessions empty_id_world)) = [[]]"
  "map es_user_id (fst (get_expired_sessions_with_methods
                          (snd (validate_all_sessions empty_id_world)))) = [[]]"
  by (simp_all add: run_defs empty_id_world_fields)

lemma mixed_run:
  "map vs_user_id (fst (validate_all_sessions mixed_world)) = [''7'', ''42'']"
  "map es_user_id (fst (get_expired_sessions_with_methods
                          (snd (validate_all_sessions mixed_world)))) = [''9'']"
  by (simp_all add: run_defs mixed_world_fields)

lemma stable_valid_order:
  assumes dist: "distinct (map fst L)"
  shows "filter (\<lambda>k. timestamp_of L k = t) (map fst (filter P (sorted_sessions L)))
           = map fst (filter (\<lambda>x. P x \<and> stored_timestamp (snd x) = t) L)"
proof -
  define f where "f = (\<lambda>x :: string \<times> session_data. - stored_timestamp (snd x))"
  have ts: "timestamp_of L (fst x) = stored_timestamp (snd x)"
    if "x \<in> set (filter P (sort_key f L))" for x
  proof -
    from that have "x \<in> set L" by simp
    with dist show ?thesis by (rule timestamp_of_member)
  qed
  have "filter (\<lambda>k. timestamp_of L k = t) (map fst (filter P (sort_key f L)))
      = map fst (filter (\<lambda>x. timestamp_of L (fst x) = t) (filter P (sort_key f L)))"
    by (simp add: filter_map comp_def)
  also have "filter (\<lambda>x. timestamp_of L (fst x) = t) (filter P (sort_key f L))
      = filter (\<lambda>x. stored_timestamp (snd x) = t) (filter P (sort_key f L))"
    by (rule filter_cong) (simp_all only: ts)
  also have "\<dots> = filter P (filter (\<lambda>x. f x = - t) (sort_key f L))"
    by (simp add: f_def conj_commute)
  also have "filter (\<lambda>x. f x = - t) (sort_key f L) = filter (\<lambda>x. f x = - t) L"
    by (rule sort_key_stable)
  also have "filter P (filter (\<lambda>x. f x = - t) L)
      = filter (\<lambda>x. P x \<and> stored_timestamp (snd x) = t) L"
    by (simp add: f_def conj_commute)
  finally show ?thesis by (simp add: sorted_sessions_def f_def)
qed

text \<open>
  Claim C3, as stated: of N records of which K pass a deterministic stub, the
  validation yields K valid and N - K expired entries, each record in exactly one list,
  the valid list in strictly descending order of timestamp. Two live records with the
  same timestamp both appear, so the order is not strict; and a record stored under the
  empty account id is decrypted by \<^verbatim>\<open>validate_all_sessions\<close> but refused by
  \<^verbatim>\<open>validate_session_cookie\<close> for lack of a user id, so it lands in both lists.
\<close>

theorem validate_all_counterexample:
  "map (timestamp_of (load_sessions tie_world))
       (map vs_user_id (fst (validate_all_sessions tie_world))) = [10, 10]
   \<and> \<not> sorted_wrt (>) (map (timestamp_of (load_sessions tie_world))
                          (map vs_user_id (fst (validate_all_sessions tie_world))))
   \<and> length (load_sessions empty_id_world) = 1
   \<and> length (fst (validate_all_sessions empty_id_world)) = 1
   \<and> length (fst (get_expired_sessions_with_methods
                     (snd (validate_all_sessions empty_id_world)))) = 1"
proof -
  have ts: "map (timestamp_of (load_sessions tie_world))
       (map vs_user_id (fst (validate_all_sessions tie_world))) = [10, 10]"
    unfolding tie_run by (simp add: timestamp_of_def stored_timestamp_def tie_world_fields)
  have "length (map vs_user_id (fst (validate_all_sessions empty_id_world))) = 1"
    "length (map es_user_id (fst (get_expired_sessions_with_methods
                          (snd (validate_all_sessions empty_id_world))))) = 1"
    unfolding empty_id_run by simp_all
  then show ?thesis unfolding ts by (simp add: empty_id_world_fields)
qed

text \<open>
  Claim C3, amended. Take a store of N records in which tagged cookies sit under
  non-empty account ids and do not decrypt to a value that is tagged itself, and a stub
  whose answer depends on the header alone; let K records pass it (a record that does
  not decrypt does not pass). Then \<^verbatim>\<open>validate_all_sessions\<close> returns K valid entries,
  \<^verbatim>\<open>get_expired_sessions_with_methods\<close> returns N - K expired entries, every account
  id of the store is in exactly one of the two lists, and the valid list is ordered by
  stored timestamp, largest first, equal timestamps allowed; the valid entries that
  share a timestamp are the passing records of the store with that timestamp, in the
  order of the store.
\<close>

theorem validate_all_partition:
  assumes stub: "remote w = (\<lambda>n. live)"
    and plain: "\<forall>x \<in> set (load_sessions w). plain_record w x"
    and run: "validate_all_sessions w = (valid_sessions, w1)"
      "get_expired_sessions_with_methods w1 = (expired_sessions, w2)"
    and N: "N = length (load_sessions w)"
    and K: "K = length (filter (record_live w live) (load_sessions w))"
  shows "length valid_sessions = K
       \<and> length expired_sessions = N - K
       \<and> (\<forall>k \<in> fst ` set (load_sessions w).
            (k \<in> vs_user_id ` set valid_sessions) \<noteq> (k \<in> es_user_id ` set expired_sessions))
       \<and> sorted_wrt (\<ge>) (map (timestamp_of (load_sessions w)) (map vs_user_id valid_sessions))
       \<and> (\<forall>t. filter (\<lambda>k. timestamp_of (load_sessions w) k = t) (map vs_user_id valid_sessions)
                = map fst (filter (\<lambda>x. record_live w live x \<and> stored_timestamp (snd x) = t)
                             (load_sessions w)))"
proof -
  define L where "L = load_sessions w"
  define P where "P = record_live w live"
  have dist: "distinct (map fst L)" by (simp add: L_def distinct_load_sessions)
  have v: "map vs_user_id valid_sessions = map fst (filter P (sorted_sessions L))"
    and e: "map es_user_id expired_sessions = map fst (filter (\<lambda>x. \<not> P x) L)"
    using validation_runs_stub [OF stub plain run] by (simp_all add: L_def P_def)
  have "length valid_sessions = length (map vs_user_id valid_sessions)" by simp
  also have "\<dots> = length (filter P L)"
    unfolding v by (simp add: sorted_sessions_def filter_sort)
  finally have c1: "length valid_sessions = K" by (simp add: K L_def P_def)
  have "length expired_sessions = length (map es_user_id expired_sessions)" by simp
  also have "\<dots> = length (filter (\<lambda>x. \<not> P x) L)" unfolding e by simp
  also have "\<dots> = N - K"
    using sum_length_filter_compl [of P L] by (simp add: N K L_def P_def)
  finally have c2: "length expired_sessions = N - K" .
  have vset: "vs_user_id ` set valid_sessions = fst ` {x \<in> set L. P x}"
    using arg_cong [OF v, of set] by (simp add: sorted_sessions_def)
  have eset: "es_user_id ` set expired_sessions = fst ` {x \<in> set L. \<not> P x}"
    using arg_cong [OF e, of set] by simp
  have c3: "\<forall>k \<in> fst ` set L.
      (k \<in> vs_user_id ` set valid_sessions) \<noteq> (k \<in> es_user_id ` set expired_sessions)"
  proof
    fix k assume "k \<in> fst ` set L"
    then obtain sd where sd: "(k, sd) \<in> set L" by auto
    have only: "sd' = sd" if "(k, sd') \<in> set L" for sd'
      using dist that sd by (rule eq_key_imp_eq_value)
    have member: "(k \<in> fst ` {x \<in> set L. Q x}) = Q (k, sd)" for Q
    proof
      assume "k \<in> fst ` {x \<in> set L. Q x}"
      then obtain sd' where "(k, sd') \<in> set L" and "Q (k, sd')" by auto
      with only show "Q (k, sd)" by simp
    next
      assume "Q (k, sd)"
      with sd have "(k, sd) \<in> {x \<in> set L. Q x}" by simp
      then show "k \<in> fst ` {x \<in> set L. Q x}" by (rule rev_image_eqI) simp
    qed
    show "(k \<in> vs_user_id ` set valid_sessions) \<noteq> (k \<in> es_user_id ` set expired_sessions)"
      unfolding vset eset member [of P] member [of "\<lambda>x. \<not> P x"] by simp
  qed
  have "sorted (map (\<lambda>x. - stored_timestamp (snd x)) (filter P (sorted_sessions L)))"
    unfolding sorted_sessions_def by (rule sorted_filter) (rule sorted_sort_key)
  then have "sorted_wrt (\<ge>)
               (map (\<lambda>x. stored_timestamp (snd x)) (filter P (sorted_sessions L)))"
    by (simp add: sorted_map sorted_wrt_map)
  moreover have "map (timestamp_of L) (map fst (filter P (sorted_sessions L)))
      = map (\<lambda>x. stored_timestamp (snd x)) (filter P (sorted_sessions L))"
  proof -
    have "timestamp_of L (fst x) = stored_timestamp (snd x)"
      if "x \<in> set (filter P (sorted_sessions L))" for x
    proof -
      from that have "x \<in> set L" by (simp add: sorted_sessions_def)
      with dist show ?thesis by (rule timestamp_of_member)
    qed
    then show ?thesis by (simp add: comp_def)
  qed
  ultimately have c4: "sorted_wrt (\<ge>) (map (timestamp_of L) (map vs_user_id valid_sessions))"
    unfolding v by (simp only:)
  have c5: "\<forall>t. filter (\<lambda>k. timestamp_of L k = t) (map vs_user_id valid_sessions)
                = map fst (filter (\<lambda>x. P x \<and> stored_timestamp (snd x) = t) L)"
    unfolding v using stable_valid_order [OF dist] by blast
  from c1 c2 c3 c4 c5 show ?thesis unfolding L_def P_def by (intro conjI)
qed

theorem validate_all_partition_witness:
  "remote mixed_world = (\<lambda>n. stub_remote 0)
   \<and> list_all (plain_record mixed_world) (load_sessions mixed_world)
   \<and> length (load_sessions mixed_world) = 3
   \<and> length (filter (record_live mixed_world (stub_remote 0)) (load_sessions mixed_world)) = 2
   \<and> length (fst (validate_all_sessions mixed_world)) = 2
   \<and> length (fst (get_expired_sessions_with_methods (snd (validate_all_sessions mixed_world)))) = 1
   \<and> map vs_user_id (fst (validate_all_sessions mixed_world)) = [''7'', ''42'']
   \<and> sorted_wrt (\<ge>) (map (timestamp_of (load_sessions mixed_world))
                         (map vs_user_id (fst (validate_all_sessions mixed_world))))
   \<and> remote tie_world = (\<lambda>n. stub_remote 0)
   \<and> list_all (plain_record tie_world) (load_sessions tie_world)
   \<and> map fst (load_sessions tie_world) = [''42'', ''7'']
   \<and> filter (\<lambda>k. timestamp_of (load_sessions tie_world) k = 10)
        (map vs_user_id (fst (validate_all_sessions tie_world))) = [''42'', ''7'']"
proof -
  have stub: "remote mixed_world = (\<lambda>n. stub_remote 0)"
    using stub_remote_const by (simp add: mixed_world_fields)
  have plain: "\<forall>x \<in> set (load_sessions mixed_world). plain_record mixed_world x"
    by (simp add: mixed_world_fields plain_record_def decrypt_cookie_def startswith_def)
  have N: "3 = length (load_sessions mixed_world)"
    by (simp add: mixed_world_fields)
  have K: "2 = length (filter (record_live mixed_world (stub_remote 0)) (load_sessions mixed_world))"
    by (simp add: mixed_world_fields record_live_def decrypt_cookie_def startswith_def
          cookie_header_def stub_remote_def TARGET_COOKIE_NAME_def response_user_def)
  have plain': "list_all (plain_record mixed_world) (load_sessions mixed_world)"
    using plain by (simp only: list_all_iff)
  from validate_all_partition [OF stub plain surjective_pairing surjective_pairing N K]
  have mixed: "length (fst (validate_all_sessions mixed_world)) = 2
     \<and> length (fst (get_expired_sessions_with_methods (snd (validate_all_sessions mixed_world)))) = 1
     \<and> sorted_wrt (\<ge>) (map (timestamp_of (load_sessions mixed_world))
                         (map vs_user_id (fst (validate_all_sessions mixed_world))))"
    by simp
  have tstub: "remote tie_world = (\<lambda>n. stub_remote 0)"
    using stub_remote_const by (simp add: tie_world_fields)
  have tplain: "\<forall>x \<in> set (load_sessions tie_world). plain_record tie_world x"
    by (simp add: tie_world_fields plain_record_def decrypt_cookie_def startswith_def)
  have tplain': "list_all (plain_record tie_world) (load_sessions tie_world)"
    using tplain by (simp only: list_all_iff)
  have tkeys: "map fst (load_sessions tie_world) = [''42'', ''7'']"
    by (simp add: tie_world_fields)
  have tlive: "map fst (filter (\<lambda>x. record_live tie_world (stub_remote 0) x
                                       \<and> stored_timestamp (snd x) = 10)
                          (load_sessions tie_world)) = [''42'', ''7'']"
    by (simp add: tie_world_fields record_live_def decrypt_cookie_def startswith_def
          cookie_header_def stub_remote_def TARGET_COOKIE_NAME_def response_user_def
          stored_timestamp_def)
  from validate_all_partition [OF tstub tplain surjective_pairing surjective_pairing refl refl]
  have "filter (\<lambda>k. timestamp_of (load_sessions tie_world) k = 10)
          (map vs_user_id (fst (validate_all_sessions tie_world)))
        = map fst (filter (\<lambda>x. record_live tie_world (stub_remote 0) x
                                  \<and> stored_timestamp (snd x) = 10)
                     (load_sessions tie_world))"
    by blast
  then have tie: "filter (\<lambda>k. timestamp_of (load_sessions tie_world) k = 10)
          (map vs_user_id (fst (validate_all_sessions tie_world))) = [''42'', ''7'']"
    unfolding tlive .
  from stub plain' N K mixed mixed_run(1) tstub tplain' tkeys tie
  show ?thesis by simp
qed

subsection \<open>Browser login\<close>

lemma hides_cookie_unsuccessful: "hides_cookie b i \<Longrightarrow> unsuccessful_pass b unq rem i"
  by (auto simp: hides_cookie_def unsuccessful_pass_def split: poll_obs.splits)

lemma poll_loop_timeout:
  assumes "\<forall>i. unsuccessful_pass b unq rem i"
    and "\<forall>i. latency_ms b i \<le> L"
    and "now < start_time + 300000 + 2000 + L"
  shows "\<exists>now' reqs'. poll_loop b unq rem start_time i now reqs = (PollTimeout, now', reqs')
           \<and> start_time + 300000 \<le> now' \<and> now' < start_time + 300000 + 2000 + L"
  using assms
proof (induction b unq rem start_time i now reqs rule: poll_loop.induct)
  case (1 b unq rem start_time i now reqs)
  show ?case
  proof (cases "now - start_time < 300000")
    case False
    with "1.prems"(3) show ?thesis by (subst poll_loop.simps) simp
  next
    case True
    from "1.prems"(2) have lat: "latency_ms b i \<le> L" by simp
    with True have next_ok: "now + latency_ms b i + 2000 < start_time + 300000 + 2000 + L"
      by arith
    from "1.prems"(1) have pass: "unsuccessful_pass b unq rem i" by simp
    show ?thesis
    proof (cases "observe b i")
      case WindowClosed
      with pass show ?thesis by (simp add: unsuccessful_pass_def)
    next
      case PollError
      with True "1.IH"(1) [OF True PollError "1.prems"(1,2) next_ok] show ?thesis
        by (subst poll_loop.simps) simp
    next
      case (CookieJar cookies)
      show ?thesis
      proof (cases "map_of cookies TARGET_COOKIE_NAME")
        case None
        with True CookieJar "1.IH"(2) [OF True CookieJar None "1.prems"(1,2) next_ok]
        show ?thesis by (subst poll_loop.simps) simp
      next
        case (Some raw_cookie)
        show ?thesis
        proof (cases "unq raw_cookie = []")
          case empty: True
          with True CookieJar Some
            "1.IH"(3) [OF True CookieJar Some empty "1.prems"(1,2) next_ok]
          show ?thesis by (subst poll_loop.simps) simp
        next
          case nonempty: False
          with pass CookieJar Some
          have rej: "response_user (rem (length reqs) (TARGET_COOKIE_NAME @ ''='' @ unq raw_cookie)) = None"
            by (simp add: unsuccessful_pass_def)
          then have rej': "\<not> response_user (rem (length reqs) (TARGET_COOKIE_NAME @ ''='' @ unq raw_cookie)) \<noteq> None"
            by simp
          with True CookieJar Some nonempty rej
            "1.IH"(4) [OF True CookieJar Some nonempty rej' "1.prems"(1,2) next_ok]
          show ?thesis by (subst poll_loop.simps) simp
        qed
      qed
    qed
  qed
qed

lemma idle_browser_fields:
  "navigate_ok idle_browser" "observe idle_browser = (\<lambda>i. CookieJar [])"
  "latency_ms idle_browser = (\<lambda>i. 0)" "final_jar idle_browser = None"
  by (simp_all add: idle_browser_def)

lemma slow_browser_fields:
  "navigate_ok slow_browser" "observe slow_browser = (\<lambda>i. CookieJar [])"
  "latency_ms slow_browser = (\<lambda>i. 9000)" "final_jar slow_browser = None"
  by (simp_all add: slow_browser_def idle_browser_def)

lemma slow_poll:
  "poll_loop slow_browser unq rem 10000 0 10000 [] = (PollTimeout, 318000, [])"
  by (simp add: poll_loop.simps slow_browser_fields TARGET_COOKIE_NAME_def)

text \<open>
  Claim C4, as stated: with a browser that stays alive and never shows the target
  cookie, \<^verbatim>\<open>browser_login\<close> returns without a cookie within the 300 seconds of the
  deadline plus at most one poll interval of 2 seconds. The deadline is tested at the
  head of the loop only, so the time that the driver calls of the last pass take comes on
  top: with nine seconds for the calls of each pass the login gives up after 308 seconds.
\<close>

theorem browser_login_slow_counterexample:
  "(\<forall>i. hides_cookie slow_browser i)
   \<and> fst (browser_login (vault_world\<lparr>browsers := [Some slow_browser]\<rparr>)) = LoginTimeout
   \<and> clock_ms (snd (browser_login (vault_world\<lparr>browsers := [Some slow_browser]\<rparr>)))
       = clock_ms (vault_world\<lparr>browsers := [Some slow_browser]\<rparr>) + 308000"
proof -
  have "clock_ms vault_world = 10000" "requests_log vault_world = []"
    by (simp_all add: vault_world_def)
  then show ?thesis
    by (simp add: browser_login_def slow_browser_fields slow_poll hides_cookie_def)
qed

text \<open>
  Claim C4, amended. When no pass of the loop ends the login (the browser stays alive
  and shows no target cookie, or only cookies that the remote service does not accept)
  and the calls of each pass take at most \<open>L\<close> milliseconds, \<^verbatim>\<open>browser_login\<close>
  returns with the timeout, no sooner than 300 seconds and less than 302 seconds plus
  \<open>L\<close> after it began to wait. A cookie that fails validation does not move the
  deadline. The loop function is total: the login never waits for ever.
\<close>

theorem browser_login_timeout:
  assumes "browsers w = Some b # later" and "navigate_ok b"
    and "\<forall>i. unsuccessful_pass b (unquote_strip w) (remote w) i"
    and "\<forall>i. latency_ms b i \<le> L"
  shows "fst (browser_login w) = LoginTimeout
       \<and> clock_ms w + 300000 \<le> clock_ms (snd (browser_login w))
       \<and> clock_ms (snd (browser_login w)) < clock_ms w + 300000 + 2000 + L"
proof -
  have "clock_ms w < clock_ms w + 300000 + 2000 + L" by simp
  from poll_loop_timeout [OF assms(3,4) this, of 0 "requests_log w"]
  obtain now' reqs' where
    "poll_loop b (unquote_strip w) (remote w) (clock_ms w) 0 (clock_ms w) (requests_log w)
       = (PollTimeout, now', reqs')"
    and "clock_ms w + 300000 \<le> now'" and "now' < clock_ms w + 300000 + 2000 + L"
    by blast
  with assms(1,2) show ?thesis by (simp add: browser_login_def)
qed

theorem browser_login_timeout_witness:
  "browsers (vault_world\<lparr>browsers := [Some idle_browser]\<rparr>) = Some idle_browser # []
   \<and> navigate_ok idle_browser
   \<and> (\<forall>i. unsuccessful_pass idle_browser (unquote_strip (vault_world\<lparr>browsers := [Some idle_browser]\<rparr>))
             (remote (vault_world\<lparr>browsers := [Some idle_browser]\<rparr>)) i)
   \<and> (\<forall>i. latency_ms idle_browser i \<le> 0)
   \<and> fst (browser_login (vault_world\<lparr>browsers := [Some idle_browser]\<rparr>)) = LoginTimeout
   \<and> clock_ms (snd (browser_login (vault_world\<lparr>browsers := [Some idle_browser]\<rparr>)))
       < clock_ms (vault_world\<lparr>browsers := [Some idle_browser]\<rparr>) + 302000"
proof -
  define w where "w = vault_world\<lparr>browsers := [Some idle_browser]\<rparr>"
  have 1: "browsers w = Some idle_browser # []" by (simp add: w_def)
  have 2: "navigate_ok idle_browser" by (simp add: idle_browser_fields)
  have 3: "\<forall>i. unsuccessful_pass idle_browser (unquote_strip w) (remote w) i"
    by (simp add: unsuccessful_pass_def idle_browser_fields)
  have 4: "\<forall>i. latency_ms idle_browser i \<le> 0" by (simp add: idle_browser_fields)
  from browser_login_timeout [OF 1 2 3 4] 1 2 3 4 show ?thesis
    unfolding w_def by simp
qed

lemma map_of_store_cookie:
  "map_of (store_cookie unq c acc) ''shipping_manager_session''
     = (if fst c = TARGET_COOKIE_NAME then Some (unq (snd c))
        else map_of acc ''shipping_manager_session'')"
  "map_of (store_cookie unq c acc) ''app_platform''
     = (if fst c = ''app_platform'' then Some (unq (snd c)) else map_of acc ''app_platform'')"
  "map_of (store_cookie unq c acc) ''app_version''
     = (if fst c = ''app_version'' then Some (unq (snd c)) else map_of acc ''app_version'')"
  by (simp_all add: store_cookie_def Let_def update_conv' TARGET_COOKIE_NAME_def)

lemma keys_store_cookie:
  "fst ` set (store_cookie unq c acc)
     \<subseteq> fst ` set acc \<union> {''shipping_manager_session'', ''app_platform'', ''app_version''}"
  by (auto simp: store_cookie_def Let_def dom_update)

lemma last_cookie_Cons:
  "last_cookie (c # jar) name
     = (case last_cookie jar name of Some v \<Rightarrow> Some v
        | None \<Rightarrow> if fst c = name then Some (snd c) else None)"
  by (cases c) (auto simp: last_cookie_def map_add_def split: option.splits)

lemma map_of_fold_store_cookie:
  "map_of (fold (store_cookie unq) jar acc) ''shipping_manager_session''
     = (case last_cookie jar TARGET_COOKIE_NAME of
          Some raw \<Rightarrow> Some (unq raw) | None \<Rightarrow> map_of acc ''shipping_manager_session'')"
  "map_of (fold (store_cookie unq) jar acc) ''app_platform''
     = (case last_cookie jar ''app_platform'' of
          Some raw \<Rightarrow> Some (unq raw) | None \<Rightarrow> map_of acc ''app_platform'')"
  "map_of (fold (store_cookie unq) jar acc) ''app_version''
     = (case last_cookie jar ''app_version'' of
          Some raw \<Rightarrow> Some (unq raw) | None \<Rightarrow> map_of acc ''app_version'')"
proof (induction jar arbitrary: acc)
  case Nil
  {
    case 1 show ?case by (simp add: last_cookie_def)
  next
    case 2 show ?case by (simp add: last_cookie_def)
  next
    case 3 show ?case by (simp add: last_cookie_def)
  }
next
  case (Cons c jar)
  {
    case 1 show ?case
      by (simp add: Cons.IH(1) last_cookie_Cons map_of_store_cookie(1) split: option.splits)
  next
    case 2 show ?case
      by (simp add: Cons.IH(2) last_cookie_Cons map_of_store_cookie(2) split: option.splits)
  next
    case 3 show ?case
      by (simp add: Cons.IH(3) last_cookie_Cons map_of_store_cookie(3) split: option.splits)
  }
qed

lemma keys_fold_store_cookie:
  "fst ` set (fold (store_cookie unq) jar acc)
     \<subseteq> fst ` set acc \<union> {''shipping_manager_session'', ''app_platform'', ''app_version''}"
proof (induction jar arbitrary: acc)
  case Nil
  show ?case by auto
next
  case (Cons c jar)
  have "fst ` set (fold (store_cookie unq) (c # jar) acc)
      \<subseteq> fst ` set (store_cookie unq c acc)
        \<union> {''shipping_manager_session'', ''app_platform'', ''app_version''}"
    using Cons.IH [of "store_cookie unq c acc"] by simp
  also have "\<dots> \<subseteq> fst ` set acc
        \<union> {''shipping_manager_session'', ''app_platform'', ''app_version''}"
    using keys_store_cookie [of unq c acc] by blast
  finally show ?case .
qed

lemma poll_loop_validated:
  assumes "poll_loop b unq rem start_time i now reqs = (PollValidated token, now', reqs')"
  shows "token \<noteq> [] \<and> (\<exists>n. response_user (rem n (TARGET_COOKIE_NAME @ ''='' @ token)) \<noteq> None)"
  using assms
proof (induction b unq rem start_time i now reqs rule: poll_loop.induct)
  case (1 b unq rem start_time i now reqs)
  show ?case
  proof (cases "now - start_time < 300000")
    case False
    with "1.prems" show ?thesis by (subst (asm) poll_loop.simps) simp
  next
    case True
    show ?thesis
    proof (cases "observe b i")
      case WindowClosed
      with True "1.prems" show ?thesis by (subst (asm) poll_loop.simps) simp
    next
      case PollError
      with True "1.prems"
      have "poll_loop b unq rem start_time (Suc i) (now + latency_ms b i + 2000) reqs
              = (PollValidated token, now', reqs')"
        by (subst (asm) poll_loop.simps) simp
      then show ?thesis by (rule "1.IH"(1) [OF True PollError])
    next
      case (CookieJar cookies)
      show ?thesis
      proof (cases "map_of cookies TARGET_COOKIE_NAME")
        case None
        with True CookieJar "1.prems"
        have "poll_loop b unq rem start_time (Suc i) (now + latency_ms b i + 2000) reqs
                = (PollValidated token, now', reqs')"
          by (subst (asm) poll_loop.simps) simp
        then show ?thesis by (rule "1.IH"(2) [OF True CookieJar None])
      next
        case (Some raw_cookie)
        show ?thesis
        proof (cases "unq raw_cookie = []")
          case empty: True
          with True CookieJar Some "1.prems"
          have "poll_loop b unq rem start_time (Suc i) (now + latency_ms b i + 2000) reqs
                  = (PollValidated token, now', reqs')"
            by (subst (asm) poll_loop.simps) simp
          then show ?thesis by (rule "1.IH"(3) [OF True CookieJar Some empty])
        next
          case nonempty: False
          show ?thesis
          proof (cases "response_user
                          (rem (length reqs) (TARGET_COOKIE_NAME @ ''='' @ unq raw_cookie)) \<noteq> None")
            case accepted: True
            with True CookieJar Some nonempty "1.prems" have "token = unq raw_cookie"
              by (subst (asm) poll_loop.simps) simp
            with nonempty accepted show ?thesis by auto
          next
            case rejected: False
            with True CookieJar Some nonempty "1.prems"
            have "poll_loop b unq rem start_time (Suc i) (now + latency_ms b i + 2000)
                    (reqs @ [TARGET_COOKIE_NAME @ ''='' @ unq raw_cookie])
                    = (PollValidated token, now', reqs')"
              by (subst (asm) poll_loop.simps) simp
            then show ?thesis by (rule "1.IH"(4) [OF True CookieJar Some nonempty rejected])
          qed
        qed
      qed
    qed
  qed
qed

lemma rotating_browser_fields:
  "navigate_ok rotating_browser"
  "observe rotating_browser = (\<lambda>i. CookieJar [(''shipping_manager_session'', ''tokA'')])"
  "latency_ms rotating_browser = (\<lambda>i. 0)"
  "final_jar rotating_browser
     = Some [(''shipping_manager_session'', ''tokZ''), (''app_platform'', ''web'')]"
  by (simp_all add: rotating_browser_def)

lemma vault_world_login_fields:
  "clock_ms vault_world = 10000" "requests_log vault_world = []"
  "remote vault_world = stub_remote" "unquote_strip vault_world = (\<lambda>s. s)"
  by (simp_all add: vault_world_def)

lemma rotating_poll:
  "poll_loop rotating_browser (\<lambda>s. s) stub_remote 10000 0 10000 []
     = (PollValidated ''tokA'', 10000, [''shipping_manager_session=tokA''])"
  by (simp add: poll_loop.simps rotating_browser_fields TARGET_COOKIE_NAME_def
        stub_remote_def response_user_def)

lemma rotating_login:
  "fst (browser_login (vault_world\<lparr>browsers := [Some rotating_browser]\<rparr>))
     = LoginOk [(''shipping_manager_session'', ''tokZ''), (''app_platform'', ''web'')]"
  by (simp add: browser_login_def rotating_browser_fields vault_world_login_fields rotating_poll
        extract_cookies_def store_cookie_def TARGET_COOKIE_NAME_def Let_def)

text \<open>
  Claim C10, as stated: a successful result of \<^verbatim>\<open>browser_login\<close> holds the validated
  session token under \<^verbatim>\<open>shipping_manager_session\<close>. The result is filled from the
  cookie jar as it is read again three seconds after the validation: when the cookie has
  changed by then, the result holds the new value, here one that the remote service
  does not accept.
\<close>

theorem browser_login_token_counterexample:
  "fst (poll_loop rotating_browser (unquote_strip vault_world) (remote vault_world)
          (clock_ms vault_world) 0 (clock_ms vault_world) (requests_log vault_world))
     = PollValidated ''tokA''
   \<and> fst (browser_login (vault_world\<lparr>browsers := [Some rotating_browser]\<rparr>))
     = LoginOk [(''shipping_manager_session'', ''tokZ''), (''app_platform'', ''web'')]
   \<and> response_user (remote vault_world 1 (TARGET_COOKIE_NAME @ ''='' @ ''tokZ'')) = None"
  by (simp add: rotating_login vault_world_login_fields rotating_poll stub_remote_def
        TARGET_COOKIE_NAME_def response_user_def)

text \<open>
  Claim C10, amended. A successful result of \<^verbatim>\<open>browser_login\<close> always has the key
  \<^verbatim>\<open>shipping_manager_session\<close>. Its value is the decoded value of the last cookie of
  that name in the jar read after the validation, and the validated token (non-empty,
  accepted by the remote service) when that jar has no such cookie or cannot be read.
  \<^verbatim>\<open>app_platform\<close> and \<^verbatim>\<open>app_version\<close> are present exactly when the final jar has
  a cookie of that name, and there are no other keys.
\<close>

theorem browser_login_result:
  assumes "browser_login w = (LoginOk all_cookies, w')"
  shows "\<exists>b later token.
           browsers w = Some b # later
         \<and> fst (poll_loop b (unquote_strip w) (remote w) (clock_ms w) 0 (clock_ms w)
                  (requests_log w)) = PollValidated token
         \<and> token \<noteq> []
         \<and> (\<exists>n. response_user (remote w n (TARGET_COOKIE_NAME @ ''='' @ token)) \<noteq> None)
         \<and> map_of all_cookies ''shipping_manager_session''
             = Some (case final_jar b of
                       None \<Rightarrow> token
                     | Some jar \<Rightarrow>
                         (case last_cookie jar TARGET_COOKIE_NAME of
                            None \<Rightarrow> token
                          | Some raw \<Rightarrow> unquote_strip w raw))
         \<and> map_of all_cookies ''app_platform''
             = (case final_jar b of
                  None \<Rightarrow> None
                | Some jar \<Rightarrow> map_option (unquote_strip w) (last_cookie jar ''app_platform''))
         \<and> map_of all_cookies ''app_version''
             = (case final_jar b of
                  None \<Rightarrow> None
                | Some jar \<Rightarrow> map_option (unquote_strip w) (last_cookie jar ''app_version''))
         \<and> fst ` set all_cookies
             \<subseteq> {''shipping_manager_session'', ''app_platform'', ''app_version''}"
proof -
  from assms obtain b later where bs: "browsers w = Some b # later" and nav: "navigate_ok b"
    by (auto simp: browser_login_def split: list.splits option.splits if_splits)
  define unq where "unq = unquote_strip w"
  obtain e now reqs where
    poll: "poll_loop b unq (remote w) (clock_ms w) 0 (clock_ms w) (requests_log w) = (e, now, reqs)"
    by (cases "poll_loop b unq (remote w) (clock_ms w) 0 (clock_ms w) (requests_log w)")
  from assms bs nav poll obtain token where e: "e = PollValidated token"
    by (cases e) (auto simp: browser_login_def unq_def)
  define extracted where "extracted =
    (case final_jar b of
       None \<Rightarrow> AList.update ''shipping_manager_session'' token []
     | Some final_cookies \<Rightarrow> extract_cookies unq final_cookies)"
  have all: "all_cookies =
      (if map_of extracted ''shipping_manager_session'' = None
       then AList.update ''shipping_manager_session'' token extracted else extracted)"
    using assms bs nav poll e unfolding extracted_def unq_def
    by (auto simp: browser_login_def Let_def)
  have validated: "token \<noteq> [] \<and>
      (\<exists>n. response_user (remote w n (TARGET_COOKIE_NAME @ ''='' @ token)) \<noteq> None)"
    using poll e by (intro poll_loop_validated) simp
  have session: "map_of all_cookies ''shipping_manager_session''
             = Some (case final_jar b of
                       None \<Rightarrow> token
                     | Some jar \<Rightarrow>
                         (case last_cookie jar TARGET_COOKIE_NAME of
                            None \<Rightarrow> token
                          | Some raw \<Rightarrow> unq raw))"
    unfolding all extracted_def
    by (simp add: update_conv' extract_cookies_def map_of_fold_store_cookie
          split: option.splits)
  have platform: "map_of all_cookies ''app_platform''
             = (case final_jar b of
                  None \<Rightarrow> None
                | Some jar \<Rightarrow> map_option unq (last_cookie jar ''app_platform''))"
    unfolding all extracted_def
    by (simp add: update_conv' extract_cookies_def map_of_fold_store_cookie
          split: option.splits)
  have version: "map_of all_cookies ''app_version''
             = (case final_jar b of
                  None \<Rightarrow> None
                | Some jar \<Rightarrow> map_option unq (last_cookie jar ''app_version''))"
    unfolding all extracted_def
    by (simp add: update_conv' extract_cookies_def map_of_fold_store_cookie
          split: option.splits)
  have "fst ` set extracted
          \<subseteq> {''shipping_manager_session'', ''app_platform'', ''app_version''}"
    using keys_fold_store_cookie [of unq _ "[]"]
    by (auto simp: extracted_def extract_cookies_def split: option.splits)
  then have keys: "fst ` set all_cookies
          \<subseteq> {''shipping_manager_session'', ''app_platform'', ''app_version''}"
    unfolding all by (auto simp: dom_update)
  from bs poll e validated session platform version keys show ?thesis
    unfolding unq_def by auto
qed

theorem browser_login_result_witness:
  "browser_login (vault_world\<lparr>browsers := [Some rotating_browser]\<rparr>)
     = (LoginOk [(''shipping_manager_session'', ''tokZ''), (''app_platform'', ''web'')],
        snd (browser_login (vault_world\<lparr>browsers := [Some rotating_browser]\<rparr>)))
   \<and> (\<exists>token. token \<noteq> []
         \<and> (\<exists>n. response_user (remote (vault_world\<lparr>browsers := [Some rotating_browser]\<rparr>) n
                    (TARGET_COOKIE_NAME @ ''='' @ token)) \<noteq> None)
         \<and> fst (poll_loop rotating_browser (\<lambda>s. s) stub_remote 10000 0 10000 [])
             = PollValidated token)"
proof -
  define w where "w = vault_world\<lparr>browsers := [Some rotating_browser]\<rparr>"
  have run: "browser_login w
     = (LoginOk [(''shipping_manager_session'', ''tokZ''), (''app_platform'', ''web'')],
        snd (browser_login w))"
    using rotating_login by (simp add: w_def prod_eq_iff)
  from browser_login_result [OF run] obtain b later token where
    "browsers w = Some b # later"
    "fst (poll_loop b (unquote_strip w) (remote w) (clock_ms w) 0 (clock_ms w) (requests_log w))
       = PollValidated token"
    "token \<noteq> []"
    "\<exists>n. response_user (remote w n (TARGET_COOKIE_NAME @ ''='' @ token)) \<noteq> None"
    by blast
  then have "token \<noteq> []
      \<and> (\<exists>n. response_user (remote w n (TARGET_COOKIE_NAME @ ''='' @ token)) \<noteq> None)
      \<and> fst (poll_loop rotating_browser (\<lambda>s. s) stub_remote 10000 0 10000 [])
          = PollValidated token"
    by (simp add: w_def vault_world_login_fields)
  then have "\<exists>token. token \<noteq> []
      \<and> (\<exists>n. response_user (remote w n (TARGET_COOKIE_NAME @ ''='' @ token)) \<noteq> None)
      \<and> fst (poll_loop rotating_browser (\<lambda>s. s) stub_remote 10000 0 10000 [])
          = PollValidated token" ..
  with run show ?thesis unfolding w_def by blast
qed

subsection \<open>The refresh of a session\<close>

text \<open>
  Validation only adds to the request log, and a browser login changes neither the
  sessions file nor the keyring.
\<close>

lemma same_but_log_refl: "same_but_log w w"
  unfolding same_but_log_def by (rule exI [of _ "requests_log w"]) simp

lemma same_but_log_trans: "same_but_log a b \<Longrightarrow> same_but_log b c \<Longrightarrow> same_but_log a c"
  unfolding same_but_log_def by auto

lemma same_but_log_store:
  assumes "same_but_log w w'"
  shows "sessions_file w' = sessions_file w" and "keyring_store w' = keyring_store w"
  using assms unfolding same_but_log_def by auto

lemma validate_dict:
  "validate_session_cookie w (PyDict d) u =
     (let h = TARGET_COOKIE_NAME @ ''='' @ str_opt (map_of d ''shipping_manager_session'')
              @ (if truthy (map_of d ''app_platform'')
                 then ''; app_platform='' @ str_opt (map_of d ''app_platform'') else [])
              @ (if truthy (map_of d ''app_version'')
                 then ''; app_version='' @ str_opt (map_of d ''app_version'') else [])
      in (response_user (remote w (length (requests_log w)) h),
          w\<lparr>requests_log := requests_log w @ [h]\<rparr>))"
  by (simp add: validate_session_cookie_def Let_def)

lemma validate_tagged_no_user:
  "is_encrypted (PyStr c) \<Longrightarrow> u = None \<or> u = Some [] \<Longrightarrow>
   validate_session_cookie w (PyStr c) u = (None, w)"
  by (auto simp: validate_session_cookie_def)

lemma validate_session_cookie_same:
  "same_but_log w (snd (validate_session_cookie w c u))"
proof (cases c)
  case PyNone
  then show ?thesis by (auto simp: validate_none same_but_log_def)
next
  case (PyDict d)
  then show ?thesis by (auto simp: validate_dict Let_def same_but_log_def)
next
  case (PyStr s)
  show ?thesis
  proof (cases "is_encrypted (PyStr s)")
    case False
    with PyStr show ?thesis by (auto simp: validate_untagged same_but_log_def)
  next
    case True
    show ?thesis
    proof (cases "u = None \<or> u = Some []")
      case no_user: True
      with True PyStr show ?thesis
        by (simp add: validate_tagged_no_user same_but_log_refl del: is_encrypted.simps)
    next
      case False
      then obtain k where k: "u = Some k" "k \<noteq> []" by (cases u) auto
      show ?thesis
      proof (cases "decrypt_cookie w s k")
        case None
        with True PyStr k show ?thesis
          by (simp add: validate_tagged same_but_log_refl del: is_encrypted.simps)
      next
        case (Some p)
        with True PyStr k show ?thesis
          by (cases "p = []")
             (auto simp: validate_tagged same_but_log_refl same_but_log_def
                   simp del: is_encrypted.simps)
      qed
    qed
  qed
qed

lemma validate_each_same: "same_but_log w (snd (validate_each w ss))"
proof (induction ss arbitrary: w)
  case Nil
  show ?case by (simp add: same_but_log_refl)
next
  case (Cons x ss)
  obtain k sd where x: "x = (k, sd)" by (cases x)
  have "snd (validate_each w ((k, sd) # ss)) = snd (validate_each w ss)
      \<or> (\<exists>plain. snd (validate_each w ((k, sd) # ss))
            = snd (validate_each (snd (validate_session_cookie w plain (Some k))) ss))"
    by (auto simp: Let_def split_beta split: option.splits prod.splits)
  then show ?case
    unfolding x
    using Cons.IH same_but_log_trans [OF validate_session_cookie_same Cons.IH]
    by auto
qed

lemma expired_each_same: "same_but_log w (snd (expired_each w ss))"
proof (induction ss arbitrary: w)
  case Nil
  show ?case by (simp add: same_but_log_refl)
next
  case (Cons x ss)
  obtain k sd where x: "x = (k, sd)" by (cases x)
  have "snd (expired_each w ((k, sd) # ss))
          = snd (expired_each
                  (snd (validate_session_cookie w (opt_cookie (rec_cookie sd)) (Some k))) ss)"
    by (auto simp: Let_def split_beta split: option.splits prod.splits)
  then show ?case
    unfolding x
    using same_but_log_trans [OF validate_session_cookie_same Cons.IH]
    by auto
qed

lemma validate_all_sessions_same: "same_but_log w (snd (validate_all_sessions w))"
  by (simp add: validate_all_sessions_def Let_def same_but_log_refl validate_each_same)

lemma get_expired_same: "same_but_log w (snd (get_expired_sessions_with_methods w))"
  by (simp add: get_expired_sessions_with_methods_def Let_def same_but_log_refl expired_each_same)

lemma browser_login_store:
  "sessions_file (snd (browser_login w)) = sessions_file w
   \<and> keyring_store (snd (browser_login w)) = keyring_store w"
proof (cases "browsers w")
  case Nil
  then show ?thesis by (simp add: browser_login_def)
next
  case (Cons first later)
  show ?thesis
  proof (cases first)
    case None
    with Cons show ?thesis by (simp add: browser_login_def)
  next
    case (Some b)
    obtain e now reqs where poll:
      "poll_loop b (unquote_strip w) (remote w) (clock_ms w) 0 (clock_ms w) (requests_log w)
         = (e, now, reqs)"
      by (rule prod_cases3)
    with Cons Some show ?thesis
      by (cases e) (simp_all add: browser_login_def Let_def)
  qed
qed

lemma browser_login_nonempty:
  assumes "browser_login w = (LoginOk all_cookies, w')"
  shows "all_cookies \<noteq> []"
proof -
  from assms obtain b later where bs: "browsers w = Some b # later" and nav: "navigate_ok b"
    by (auto simp: browser_login_def split: list.splits option.splits if_splits)
  obtain e now reqs where poll:
    "poll_loop b (unquote_strip w) (remote w) (clock_ms w) 0 (clock_ms w) (requests_log w)
       = (e, now, reqs)"
    by (rule prod_cases3)
  from assms bs nav poll obtain token where e: "e = PollValidated token"
    by (cases e) (auto simp: browser_login_def)
  from assms bs nav poll e obtain extracted where
    "all_cookies =
      (if map_of extracted ''shipping_manager_session'' = None
       then AList.update ''shipping_manager_session'' token extracted else extracted)"
    by (auto simp: browser_login_def Let_def)
  then show ?thesis by (cases "map_of extracted ''shipping_manager_session''") auto
qed

lemma revalidation_store:
  assumes "validate_all_sessions w3 = (valid_sessions, w4)"
    and "get_expired_sessions_with_methods w4 = (expired_sessions, w5)"
  shows "sessions_file w5 = sessions_file w3 \<and> keyring_store w5 = keyring_store w3"
proof -
  have "same_but_log w3 w4" using validate_all_sessions_same [of w3] assms(1) by simp
  moreover have "same_but_log w4 w5" using get_expired_same [of w4] assms(2) by simp
  ultimately have "same_but_log w3 w5" by (rule same_but_log_trans)
  then show ?thesis by (simp add: same_but_log_store)
qed

lemma beta_browser_fields:
  "navigate_ok beta_browser"
  "observe beta_browser = (\<lambda>i. CookieJar [(''shipping_manager_session'', ''tokB'')])"
  "latency_ms beta_browser = (\<lambda>i. 0)"
  "final_jar beta_browser = Some [(''shipping_manager_session'', ''tokB'')]"
  by (simp_all add: beta_browser_def)

lemma refresh_world_fields:
  "browsers refresh_world = [Some beta_browser]"
  "clock_ms refresh_world = 10000" "requests_log refresh_world = []"
  "remote refresh_world = stub_remote" "unquote_strip refresh_world = (\<lambda>s. s)"
  by (simp_all add: refresh_world_def mixed_world_def vault_world_def)

lemma beta_poll:
  "poll_loop beta_browser (\<lambda>s. s) stub_remote 10000 0 10000 []
     = (PollValidated ''tokB'', 10000, [''shipping_manager_session=tokB''])"
  by (simp add: poll_loop.simps beta_browser_fields TARGET_COOKIE_NAME_def
        stub_remote_def response_user_def)

lemma refresh_world_login:
  "browser_login refresh_world
     = (LoginOk [(''shipping_manager_session'', ''tokB'')],
        refresh_world\<lparr>browsers := [], clock_ms := 13000,
                       requests_log := [''shipping_manager_session=tokB'']\<rparr>)"
  by (simp add: browser_login_def beta_browser_fields refresh_world_fields beta_poll
        extract_cookies_def store_cookie_def TARGET_COOKIE_NAME_def Let_def)

lemma refresh_world_user:
  "fst (get_user_from_cookie
         (refresh_world\<lparr>browsers := [], clock_ms := 13000,
                        requests_log := [''shipping_manager_session=tokB'']\<rparr>)
         (PyDict [(''shipping_manager_session'', ''tokB'')]))
     = Some \<lparr>u_id = IdInt 7, u_company_name = Some ''Beta Lines''\<rparr>"
  by (simp add: get_user_from_cookie_def validate_dict Let_def refresh_world_fields
        TARGET_COOKIE_NAME_def stub_remote_def response_user_def)

text \<open>
  Claim C2. In the refresh of a selected account, when the browser login returns
  cookies and the account they authenticate is not the selected one (its id renders
  differently, or the validation yields no user data), the refresh reports the wrong
  account and leaves the sessions file and the keyring exactly as they were:
  \<^verbatim>\<open>save_session\<close> is not called. When the ids agree, the store is the one that
  \<^verbatim>\<open>save_session\<close> leaves. The validation runs that follow do not touch the store.
\<close>

theorem refresh_wrong_account:
  assumes login: "browser_login w = (LoginOk renewal_cookie, w1)"
    and user: "get_user_from_cookie w1 (PyDict renewal_cookie) = (renewal_user_data, w2)"
    and refresh: "refresh_session w selected_user_id = (outcome, diag, w')"
  shows "if \<exists>u. renewal_user_data = Some u \<and> py_str (u_id u) = py_str selected_user_id
         then \<exists>u saved. renewal_user_data = Some u
                \<and> saved = save_session w2 (IdStr (py_str (u_id u))) (PyDict renewal_cookie)
                            (get_default (u_company_name u) ''Unknown'') ''browser'' None None
                \<and> sessions_file w' = sessions_file saved
                \<and> keyring_store w' = keyring_store saved
         else diag = [''[-] Refresh failed - wrong account'']
                \<and> sessions_file w' = sessions_file w
                \<and> keyring_store w' = keyring_store w"
proof -
  have nonempty: "renewal_cookie \<noteq> []" using login by (rule browser_login_nonempty)
  have w1: "sessions_file w1 = sessions_file w" "keyring_store w1 = keyring_store w"
    using browser_login_store [of w] login by simp_all
  have "same_but_log w1 w2"
    using validate_session_cookie_same [of w1 "PyDict renewal_cookie" None] user
    by (simp add: get_user_from_cookie_def)
  then have w2: "sessions_file w2 = sessions_file w" "keyring_store w2 = keyring_store w"
    using w1 by (simp_all add: same_but_log_store)
  define w3 where "w3 =
    (case renewal_user_data of
       None \<Rightarrow> w2
     | Some u \<Rightarrow>
         if py_str (u_id u) = py_str selected_user_id
         then save_session w2 (IdStr (py_str (u_id u))) (PyDict renewal_cookie)
                (get_default (u_company_name u) ''Unknown'') ''browser'' None None
         else w2)"
  define d where "d =
    (case renewal_user_data of
       None \<Rightarrow> [''[-] Refresh failed - wrong account'']
     | Some u \<Rightarrow>
         if py_str (u_id u) = py_str selected_user_id
         then [''[+] Session refreshed for '' @ str_opt (u_company_name u)]
         else [''[-] Refresh failed - wrong account''])"
  obtain valid_sessions w4 where v: "validate_all_sessions w3 = (valid_sessions, w4)"
    by (cases "validate_all_sessions w3")
  obtain expired_sessions w5 where e: "get_expired_sessions_with_methods w4 = (expired_sessions, w5)"
    by (cases "get_expired_sessions_with_methods w4")
  have "refresh_session w selected_user_id = (RefreshDone valid_sessions expired_sessions, d, w5)"
  proof (cases renewal_user_data)
    case None
    with login user nonempty v e show ?thesis
      by (simp add: refresh_session_def w3_def d_def)
  next
    case (Some u)
    with login user nonempty v e show ?thesis
      by (cases "py_str (u_id u) = py_str selected_user_id")
         (simp_all add: refresh_session_def w3_def d_def)
  qed
  with refresh have diag: "diag = d" and w': "w' = w5" by simp_all
  have store: "sessions_file w' = sessions_file w3 \<and> keyring_store w' = keyring_store w3"
    unfolding w' using v e by (rule revalidation_store)
  show ?thesis
  proof (cases "\<exists>u. renewal_user_data = Some u \<and> py_str (u_id u) = py_str selected_user_id")
    case True
    then obtain u where u: "renewal_user_data = Some u"
      "py_str (u_id u) = py_str selected_user_id" by blast
    with store show ?thesis unfolding if_P [OF True] by (simp add: w3_def)
  next
    case False
    then have "w3 = w2" and "d = [''[-] Refresh failed - wrong account'']"
      by (auto simp: w3_def d_def split: option.splits)
    with store diag w2 show ?thesis unfolding if_not_P [OF False] by simp
  qed
qed

theorem refresh_wrong_account_witness:
  "fst (browser_login refresh_world) = LoginOk [(''shipping_manager_session'', ''tokB'')]
   \<and> fst (get_user_from_cookie (snd (browser_login refresh_world))
            (PyDict [(''shipping_manager_session'', ''tokB'')]))
       = Some \<lparr>u_id = IdInt 7, u_company_name = Some ''Beta Lines''\<rparr>
   \<and> py_str (IdInt 7) \<noteq> py_str (IdStr ''42'')
   \<and> fst (snd (refresh_session refresh_world (IdStr ''42'')))
       = [''[-] Refresh failed - wrong account'']
   \<and> sessions_file (snd (snd (refresh_session refresh_world (IdStr ''42''))))
       = sessions_file refresh_world
   \<and> keyring_store (snd (snd (refresh_session refresh_world (IdStr ''42''))))
       = keyring_store refresh_world"
proof -
  define w1 where "w1 = snd (browser_login refresh_world)"
  define ud where "ud = fst (get_user_from_cookie w1 (PyDict [(''shipping_manager_session'', ''tokB'')]))"
  have login: "browser_login refresh_world = (LoginOk [(''shipping_manager_session'', ''tokB'')], w1)"
    by (simp add: w1_def refresh_world_login)
  have ud: "ud = Some \<lparr>u_id = IdInt 7, u_company_name = Some ''Beta Lines''\<rparr>"
    by (simp add: ud_def w1_def refresh_world_login refresh_world_user)
  have user: "get_user_from_cookie w1 (PyDict [(''shipping_manager_session'', ''tokB'')])
      = (ud, snd (get_user_from_cookie w1 (PyDict [(''shipping_manager_session'', ''tokB'')])))"
    by (simp add: ud_def)
  have differ: "py_str (IdInt 7) \<noteq> py_str (IdStr ''42'')"
    by (simp add: str_int_def str_nat.simps digit_char_def)
  have refresh: "refresh_session refresh_world (IdStr ''42'')
      = (fst (refresh_session refresh_world (IdStr ''42'')),
         fst (snd (refresh_session refresh_world (IdStr ''42''))),
         snd (snd (refresh_session refresh_world (IdStr ''42''))))"
    by simp
  from refresh_wrong_account [OF login user refresh] ud differ
  have concl: "fst (snd (refresh_session refresh_world (IdStr ''42'')))
          = [''[-] Refresh failed - wrong account'']
      \<and> sessions_file (snd (snd (refresh_session refresh_world (IdStr ''42''))))
          = sessions_file refresh_world
      \<and> keyring_store (snd (snd (refresh_session refresh_world (IdStr ''42''))))
          = keyring_store refresh_world"
    by simp
  have f1: "fst (browser_login refresh_world) = LoginOk [(''shipping_manager_session'', ''tokB'')]"
    by (simp add: refresh_world_login)
  have f2: "fst (get_user_from_cookie (snd (browser_login refresh_world))
            (PyDict [(''shipping_manager_session'', ''tokB'')]))
       = Some \<lparr>u_id = IdInt 7, u_company_name = Some ''Beta Lines''\<rparr>"
    using ud by (simp add: ud_def w1_def)
  from f1 f2 differ concl show ?thesis by blast
qed

subsection \<open>The process\<close>

lemma refresh_session_diag:
  assumes "refresh_session w selected_user_id = (outcome, diag, w')"
  shows "cancelled_msg \<notin> set diag"
proof -
  obtain renewal w1 where login: "browser_login w = (renewal, w1)"
    by (cases "browser_login w")
  show ?thesis
  proof (cases renewal)
    case BrowserUnavailable
    with login assms show ?thesis
      by (auto simp: refresh_session_def cancelled_msg_def)
  next
    case (LoginOk renewal_cookie)
    obtain ud w2 where user: "get_user_from_cookie w1 (PyDict renewal_cookie) = (ud, w2)"
      by (cases "get_user_from_cookie w1 (PyDict renewal_cookie)")
    show ?thesis
    proof (cases "renewal_cookie = []")
      case True
      with login LoginOk assms show ?thesis
        by (auto simp: refresh_session_def cancelled_msg_def Let_def split_beta)
    next
      case False
      show ?thesis
      proof (cases ud)
        case None
        with False user login LoginOk assms show ?thesis
          by (auto simp: refresh_session_def cancelled_msg_def Let_def split_beta)
      next
        case (Some u)
        with False user login LoginOk assms show ?thesis
          by (cases "py_str (u_id u) = py_str selected_user_id")
             (auto simp: refresh_session_def cancelled_msg_def Let_def split_beta)
      qed
    qed
  next
    case LoginTimeout
    with login assms show ?thesis
      by (auto simp: refresh_session_def cancelled_msg_def Let_def split_beta)
  next
    case BrowserClosed
    with login assms show ?thesis
      by (auto simp: refresh_session_def cancelled_msg_def Let_def split_beta)
  next
    case LoginError
    with login assms show ?thesis
      by (auto simp: refresh_session_def cancelled_msg_def Let_def split_beta)
  qed
qed

lemma main_loop_break:
  "valid_sessions = [] \<Longrightarrow> expired_sessions = [] \<Longrightarrow>
   main_loop w valid_sessions expired_sessions ops err = (LoopBreak, err, w)"
  by (subst main_loop.simps) simp

lemma main_loop_no_answer:
  assumes "\<not> (valid_sessions = [] \<and> expired_sessions = [])"
  shows "main_loop w valid_sessions expired_sessions [] err
           = (LoopExit 0 [], err @ [cancelled_msg], w)"
  using assms by (cases "valid_sessions = []") (subst main_loop.simps, simp)+

lemma main_loop_answer:
  assumes "\<not> (valid_sessions = [] \<and> expired_sessions = [])"
  shows "main_loop w valid_sessions expired_sessions (selector_result # ops1) err =
     (case selector_action selector_result of
        Cancelled \<Rightarrow> (LoopExit 0 [], err @ [cancelled_msg], w)
      | NewSession \<Rightarrow> (LoopBreak, err, w)
      | RefreshSessions \<Rightarrow>
          (case ops1 of
             [] \<Rightarrow> main_loop w valid_sessions expired_sessions [] err
           | refresh_selector_result # ops2 \<Rightarrow>
               (case refresh_target
                       (map vs_user_id valid_sessions @ map es_user_id expired_sessions)
                       refresh_selector_result of
                  None \<Rightarrow> main_loop w valid_sessions expired_sessions ops2 err
                | Some selected_user_id \<Rightarrow>
                    (case refresh_session w selected_user_id of
                       (RefreshExit, diag, w') \<Rightarrow> (LoopExit 1 [], err @ diag, w')
                     | (RefreshDone valid_sessions' expired_sessions', diag, w') \<Rightarrow>
                         main_loop w' valid_sessions' expired_sessions' ops2 (err @ diag))))
      | UseSession selected_user_id \<Rightarrow>
          (case use_session valid_sessions selected_user_id of
             (code, out, diag) \<Rightarrow> (LoopExit code out, err @ diag, w))
      | InvalidAction \<Rightarrow> (LoopExit 1 [], err @ [invalid_msg], w))"
  using assms
  by (cases "valid_sessions = []"; cases "selector_action selector_result")
     (subst main_loop.simps, simp)+

lemma validate_each_cons:
  "\<exists>w''. fst (validate_each w ((k, sd) # rest)) = fst (validate_each w'' rest)
        \<or> (\<exists>s. vs_user_id s = k
               \<and> fst (validate_each w ((k, sd) # rest)) = s # fst (validate_each w'' rest))"
proof -
  define plaintext_cookie where "plaintext_cookie =
            (if is_encrypted (opt_cookie (rec_cookie sd))
             then (case decrypt_cookie w (str_opt (rec_cookie sd)) k of
                     None \<Rightarrow> None
                   | Some p \<Rightarrow> if p = [] then None else Some (PyStr p))
             else Some (opt_cookie (rec_cookie sd)))"
  show ?thesis
  proof (cases plaintext_cookie)
    case None
    then have "validate_each w ((k, sd) # rest) = validate_each w rest"
      unfolding plaintext_cookie_def by (simp add: Let_def del: is_encrypted.simps)
    then show ?thesis by auto
  next
    case (Some plain)
    obtain ud w1 where val: "validate_session_cookie w plain (Some k) = (ud, w1)"
      by (cases "validate_session_cookie w plain (Some k)")
    show ?thesis
    proof (cases ud)
      case None
      with Some val have "validate_each w ((k, sd) # rest) = validate_each w1 rest"
        unfolding plaintext_cookie_def by (simp add: Let_def del: is_encrypted.simps)
      then show ?thesis by auto
    next
      case ud: (Some user_data)
      with Some val have "\<exists>s. vs_user_id s = k
               \<and> fst (validate_each w ((k, sd) # rest)) = s # fst (validate_each w1 rest)"
        unfolding plaintext_cookie_def
        by (simp add: Let_def split_beta del: is_encrypted.simps)
      then show ?thesis by auto
    qed
  qed
qed

lemma validate_each_keys:
  "vs_user_id ` set (fst (validate_each w ss)) \<subseteq> fst ` set ss"
proof (induction ss arbitrary: w)
  case Nil
  show ?case by simp
next
  case (Cons x ss)
  obtain k sd where x: "x = (k, sd)" by (cases x)
  from validate_each_cons [of w k sd ss] obtain w'' where
    "fst (validate_each w ((k, sd) # ss)) = fst (validate_each w'' ss)
        \<or> (\<exists>s. vs_user_id s = k
               \<and> fst (validate_each w ((k, sd) # ss)) = s # fst (validate_each w'' ss))"
    by blast
  then show ?case unfolding x
  proof
    assume e: "fst (validate_each w ((k, sd) # ss)) = fst (validate_each w'' ss)"
    show "vs_user_id ` set (fst (validate_each w ((k, sd) # ss))) \<subseteq> fst ` set ((k, sd) # ss)"
      unfolding e using Cons.IH [of w''] by auto
  next
    assume "\<exists>s. vs_user_id s = k
               \<and> fst (validate_each w ((k, sd) # ss)) = s # fst (validate_each w'' ss)"
    then obtain s where s: "vs_user_id s = k"
      and e: "fst (validate_each w ((k, sd) # ss)) = s # fst (validate_each w'' ss)"
      by blast
    show "vs_user_id ` set (fst (validate_each w ((k, sd) # ss))) \<subseteq> fst ` set ((k, sd) # ss)"
      unfolding e using Cons.IH [of w''] s by auto
  qed
qed

lemma validate_each_distinct:
  "distinct (map fst ss) \<Longrightarrow> distinct (map vs_user_id (fst (validate_each w ss)))"
proof (induction ss arbitrary: w)
  case Nil
  show ?case by simp
next
  case (Cons x ss)
  obtain k sd where x: "x = (k, sd)" by (cases x)
  from Cons.prems x have k: "k \<notin> fst ` set ss" and d: "distinct (map fst ss)" by auto
  from validate_each_cons [of w k sd ss] obtain w'' where
    "fst (validate_each w ((k, sd) # ss)) = fst (validate_each w'' ss)
        \<or> (\<exists>s. vs_user_id s = k
               \<and> fst (validate_each w ((k, sd) # ss)) = s # fst (validate_each w'' ss))"
    by blast
  note c = this
  from validate_each_keys [of w'' ss] k
  have fresh: "k \<notin> vs_user_id ` set (fst (validate_each w'' ss))" by blast
  from c show ?case unfolding x
  proof
    assume e: "fst (validate_each w ((k, sd) # ss)) = fst (validate_each w'' ss)"
    show "distinct (map vs_user_id (fst (validate_each w ((k, sd) # ss))))"
      unfolding e by (rule Cons.IH [OF d])
  next
    assume "\<exists>s. vs_user_id s = k
               \<and> fst (validate_each w ((k, sd) # ss)) = s # fst (validate_each w'' ss)"
    then obtain s where s: "vs_user_id s = k"
      and e: "fst (validate_each w ((k, sd) # ss)) = s # fst (validate_each w'' ss)"
      by blast
    show "distinct (map vs_user_id (fst (validate_each w ((k, sd) # ss))))"
      unfolding e using Cons.IH [OF d, of w''] s fresh by simp
  qed
qed

lemma distinct_valid_sessions: "distinct (map vs_user_id (fst (validate_all_sessions w)))"
proof -
  have "distinct (map fst (sorted_sessions (load_sessions w)))"
    using distinct_load_sessions [of w]
    by (simp add: sorted_sessions_def distinct_map)
  then show ?thesis
    by (simp add: validate_all_sessions_def Let_def validate_each_distinct)
qed

lemma find_distinct_key:
  "distinct (map f xs) \<Longrightarrow> x \<in> set xs \<Longrightarrow> find (\<lambda>y. f y = f x) xs = Some x"
  by (induction xs) (auto simp: image_iff)


lemma selector_action_use:
  "selector_action selector_result = UseSession selected_user_id \<Longrightarrow>
   selector_result = Some (Choice (Some ''use_session'') selected_user_id)"
  by (auto simp: selector_action_def split: option.splits selector_result.splits if_splits)

lemma find_Some_member: "find P xs = Some x \<Longrightarrow> x \<in> set xs \<and> P x"
  by (induction xs) (auto split: if_splits)

lemma use_session_outcome:
  assumes "use_session valid_sessions selected_user_id = (code, out, diag)"
  shows "(code = 0 \<and> out = [py_str selected_user_id] \<and> diag = []
          \<and> (\<exists>s. s \<in> set valid_sessions \<and> vs_user_id s = py_str selected_user_id
                 \<and> truthy_cookie (vs_cookie s)))
       \<or> (code = 1 \<and> out = [] \<and> cancelled_msg \<notin> set diag)"
proof (cases "find (\<lambda>session. vs_user_id session = py_str selected_user_id) valid_sessions")
  case None
  with assms show ?thesis by (auto simp: use_session_def cancelled_msg_def)
next
  case (Some s)
  from find_Some_member [OF Some]
  have s: "s \<in> set valid_sessions" "vs_user_id s = py_str selected_user_id" by simp_all
  show ?thesis
  proof (cases "truthy_cookie (vs_cookie s)")
    case True
    with assms Some s show ?thesis by (auto simp: use_session_def)
  next
    case False
    with assms Some show ?thesis by (auto simp: use_session_def cancelled_msg_def)
  qed
qed

lemma use_session_valid:
  assumes "distinct (map vs_user_id valid_sessions)" and "s \<in> set valid_sessions"
    and "vs_user_id s = py_str selected_user_id" and "truthy_cookie (vs_cookie s)"
  shows "use_session valid_sessions selected_user_id = (0, [py_str selected_user_id], [])"
proof -
  from find_distinct_key [OF assms(1,2)] assms(3)
  have "find (\<lambda>session. vs_user_id session = py_str selected_user_id) valid_sessions = Some s"
    by simp
  with assms(4) show ?thesis by (simp add: use_session_def)
qed

lemma use_session_unknown:
  assumes "py_str selected_user_id \<notin> vs_user_id ` set valid_sessions"
  shows "fst (use_session valid_sessions selected_user_id) = 1
       \<and> fst (snd (use_session valid_sessions selected_user_id)) = []"
proof -
  have "\<not> (\<exists>x. x \<in> set valid_sessions \<and> vs_user_id x = py_str selected_user_id)"
  proof
    assume "\<exists>x. x \<in> set valid_sessions \<and> vs_user_id x = py_str selected_user_id"
    then obtain x where "x \<in> set valid_sessions" "vs_user_id x = py_str selected_user_id"
      by blast
    then have "py_str selected_user_id \<in> vs_user_id ` set valid_sessions" by force
    with assms show False ..
  qed
  then
  have "find (\<lambda>session. vs_user_id session = py_str selected_user_id) valid_sessions = None"
    unfolding find_None_iff .
  then show ?thesis by (simp add: use_session_def)
qed

lemma refresh_session_valid:
  assumes "refresh_session w selected_user_id
             = (RefreshDone valid_sessions' expired_sessions', diag, w')"
  shows "\<exists>w0. valid_sessions' = fst (validate_all_sessions w0)"
proof -
  obtain renewal w1 where login: "browser_login w = (renewal, w1)"
    by (cases "browser_login w")
  show ?thesis
  proof (cases renewal)
    case BrowserUnavailable
    with login assms show ?thesis
      by (auto simp: refresh_session_def)
  next
    case (LoginOk renewal_cookie)
    obtain ud w2 where user: "get_user_from_cookie w1 (PyDict renewal_cookie) = (ud, w2)"
      by (cases "get_user_from_cookie w1 (PyDict renewal_cookie)")
    show ?thesis
    proof (cases "renewal_cookie = []")
      case True
      with login LoginOk assms show ?thesis
        by (auto simp: refresh_session_def Let_def split_beta)
    next
      case False
      show ?thesis
      proof (cases ud)
        case None
        with False user login LoginOk assms show ?thesis
          by (auto simp: refresh_session_def Let_def split_beta)
      next
        case (Some u)
        with False user login LoginOk assms show ?thesis
          by (cases "py_str (u_id u) = py_str selected_user_id")
             (auto simp: refresh_session_def Let_def split_beta)
      qed
    qed
  next
    case LoginTimeout
    with login assms show ?thesis
      by (auto simp: refresh_session_def Let_def split_beta)
  next
    case BrowserClosed
    with login assms show ?thesis
      by (auto simp: refresh_session_def Let_def split_beta)
  next
    case LoginError
    with login assms show ?thesis
      by (auto simp: refresh_session_def Let_def split_beta)
  qed
qed

lemma main_loop_outcome:
  assumes "cancelled_msg \<notin> set err"
    and "\<exists>w0. valid_sessions = fst (validate_all_sessions w0)"
    and "main_loop w valid_sessions expired_sessions ops err = (r, err', w')"
  shows "(r = LoopBreak \<and> cancelled_msg \<notin> set err')
       \<or> (\<exists>selected_user_id.
             r = LoopExit 0 [py_str selected_user_id] \<and> cancelled_msg \<notin> set err'
             \<and> Some (Choice (Some ''use_session'') selected_user_id) \<in> set ops
             \<and> (\<exists>w0 s. s \<in> set (fst (validate_all_sessions w0))
                    \<and> vs_user_id s = py_str selected_user_id \<and> truthy_cookie (vs_cookie s)))
       \<or> (r = LoopExit 0 [] \<and> cancelled_msg \<in> set err')
       \<or> (r = LoopExit 1 [] \<and> cancelled_msg \<notin> set err')"
  using assms
proof (induction w valid_sessions expired_sessions ops err rule: main_loop.induct)
  case (1 w valid_sessions expired_sessions ops err)
  note clean = "1.prems"(1) and inv = "1.prems"(2) and run = "1.prems"(3)
  show ?case
  proof (cases "valid_sessions = [] \<and> expired_sessions = []")
    case True
    with clean run show ?thesis by (auto simp: main_loop_break)
  next
    case some: False
    show ?thesis
    proof (cases ops)
      case Nil
      with some clean run show ?thesis by (auto simp: main_loop_no_answer)
    next
      case (Cons selector_result ops1)
      show ?thesis
      proof (cases "selector_action selector_result")
        case Cancelled
        with some Cons clean run show ?thesis by (auto simp: main_loop_answer)
      next
        case NewSession
        with some Cons clean run show ?thesis by (auto simp: main_loop_answer)
      next
        case InvalidAction
        with some Cons clean run show ?thesis
          by (auto simp: main_loop_answer invalid_msg_def cancelled_msg_def)
      next
        case (UseSession selected_user_id)
        obtain code out diag where u: "use_session valid_sessions selected_user_id = (code, out, diag)"
          by (cases "use_session valid_sessions selected_user_id")
        with some Cons UseSession run
        have r: "r = LoopExit code out" "err' = err @ diag"
          by (simp_all add: main_loop_answer)
        from selector_action_use [OF UseSession] Cons
        have mem: "Some (Choice (Some ''use_session'') selected_user_id) \<in> set ops" by simp
        from use_session_outcome [OF u]
        show ?thesis
        proof
          assume ok: "code = 0 \<and> out = [py_str selected_user_id] \<and> diag = []
            \<and> (\<exists>s. s \<in> set valid_sessions \<and> vs_user_id s = py_str selected_user_id
                   \<and> truthy_cookie (vs_cookie s))"
          then obtain s where s: "s \<in> set valid_sessions"
            "vs_user_id s = py_str selected_user_id" "truthy_cookie (vs_cookie s)" by blast
          from inv obtain w0 where "valid_sessions = fst (validate_all_sessions w0)" by blast
          with s have "\<exists>w0 s. s \<in> set (fst (validate_all_sessions w0))
                    \<and> vs_user_id s = py_str selected_user_id \<and> truthy_cookie (vs_cookie s)"
            by blast
          with ok r clean mem show ?thesis by simp blast
        next
          assume "code = 1 \<and> out = [] \<and> cancelled_msg \<notin> set diag"
          with r clean show ?thesis by simp
        qed
      next
        case RefreshSessions
        show ?thesis
        proof (cases ops1)
          case Nil
          with some Cons RefreshSessions run
          have "main_loop w valid_sessions expired_sessions [] err = (r, err', w')"
            by (simp add: main_loop_answer)
          from "1.IH"(2) [OF some Cons RefreshSessions some Nil clean inv this]
          show ?thesis by auto
        next
          case ops1: (Cons refresh_selector_result ops2)
          have sub: "set ops2 \<subseteq> set ops" unfolding Cons ops1 by auto
          show ?thesis
          proof (cases "refresh_target
                          (map vs_user_id valid_sessions @ map es_user_id expired_sessions)
                          refresh_selector_result")
            case None
            with some Cons RefreshSessions ops1 run
            have "main_loop w valid_sessions expired_sessions ops2 err = (r, err', w')"
              by (simp add: main_loop_answer)
            from "1.IH"(3) [OF some Cons RefreshSessions some ops1 None clean inv this] sub
            show ?thesis by blast
          next
            case (Some selected_user_id)
            obtain outcome diag w1 where
              refresh: "refresh_session w selected_user_id = (outcome, diag, w1)"
              by (cases "refresh_session w selected_user_id")
            from refresh_session_diag [OF refresh] clean
            have clean': "cancelled_msg \<notin> set (err @ diag)" by simp
            show ?thesis
            proof (cases outcome)
              case RefreshExit
              with some Cons RefreshSessions ops1 Some refresh run
              have "r = LoopExit 1 []" "err' = err @ diag"
                by (simp_all add: main_loop_answer)
              with clean' show ?thesis by simp
            next
              case (RefreshDone valid_sessions' expired_sessions')
              from refresh RefreshDone
              have inv': "\<exists>w0. valid_sessions' = fst (validate_all_sessions w0)"
                by (intro refresh_session_valid) simp
              from RefreshDone some Cons RefreshSessions ops1 Some refresh run
              have "main_loop w1 valid_sessions' expired_sessions' ops2 (err @ diag)
                      = (r, err', w')"
                by (simp add: main_loop_answer)
              from "1.IH"(4) [OF some Cons RefreshSessions some ops1 Some
                      refresh [symmetric] RefreshDone refl clean' inv' this] sub
              show ?thesis by blast
            qed
          qed
        qed
      qed
    qed
  qed
qed

lemma main_at_exit:
  assumes "validate_all_sessions w = (valid_sessions, w1)"
    and "get_expired_sessions_with_methods w1 = (expired_sessions, w2)"
    and "main_loop w2 valid_sessions expired_sessions ops [] = (LoopExit code out, err, w3)"
  shows "main w ops = (\<lparr>exit_code = code, stdout = out, stderr = err\<rparr>, w3)"
  using assms by (simp add: main_def)

lemma main_login:
  assumes v: "validate_all_sessions w = (valid_sessions, w1)"
    and x: "get_expired_sessions_with_methods w1 = (expired_sessions, w2)"
    and loop: "main_loop w2 valid_sessions expired_sessions ops [] = (LoopBreak, err, w3)"
    and run: "main w ops = (e, w')"
  shows "(\<exists>cookie w4 user_data w5.
            browser_login w3 = (LoginOk cookie, w4) \<and> cookie \<noteq> []
            \<and> get_user_from_cookie w4 (PyDict cookie) = (Some user_data, w5)
            \<and> e = \<lparr>exit_code = 0, stdout = [py_str (u_id user_data)], stderr = err\<rparr>
            \<and> w' = save_session w5 (u_id user_data) (PyDict cookie)
                     (get_default (u_company_name user_data) ''Unknown'') ''browser'' None None)
       \<or> (\<not> (\<exists>cookie w4 user_data w5.
                browser_login w3 = (LoginOk cookie, w4) \<and> cookie \<noteq> []
                \<and> get_user_from_cookie w4 (PyDict cookie) = (Some user_data, w5))
           \<and> exit_code e = 1 \<and> stdout e = []
           \<and> (\<exists>msg. stderr e = err @ [msg] \<and> msg \<noteq> cancelled_msg))"
proof -
  obtain login w4 where login: "browser_login w3 = (login, w4)"
    by (cases "browser_login w3")
  show ?thesis
  proof (cases login)
    case (LoginOk cookie)
    obtain ud w5 where user: "get_user_from_cookie w4 (PyDict cookie) = (ud, w5)"
      by (cases "get_user_from_cookie w4 (PyDict cookie)")
    show ?thesis
    proof (cases "cookie = []")
      case True
      with run v x loop login LoginOk show ?thesis
        by (auto simp: main_def cancelled_msg_def)
    next
      case False
      show ?thesis
      proof (cases ud)
        case None
        with False run v x loop login LoginOk user show ?thesis
          by (auto simp: main_def cancelled_msg_def)
      next
        case (Some user_data)
        with False run v x loop login LoginOk user show ?thesis
          by (auto simp: main_def)
      qed
    qed
  next
    case LoginTimeout
    with run v x loop login show ?thesis
      by (auto simp: main_def cancelled_msg_def)
  next
    case BrowserClosed
    with run v x loop login show ?thesis
      by (auto simp: main_def cancelled_msg_def)
  next
    case LoginError
    with run v x loop login show ?thesis
      by (auto simp: main_def cancelled_msg_def)
  next
    case BrowserUnavailable
    with run v x loop login show ?thesis
      by (auto simp: main_def cancelled_msg_def)
  qed
qed


lemma vault_world_run:
  "validate_all_sessions (vault_world\<lparr>browsers := bs\<rparr>) = ([], vault_world\<lparr>browsers := bs\<rparr>)"
  "get_expired_sessions_with_methods (vault_world\<lparr>browsers := bs\<rparr>)
     = ([], vault_world\<lparr>browsers := bs\<rparr>)"
  by (simp_all add: validate_all_sessions_def get_expired_sessions_with_methods_def
        load_sessions_def read_sessions_file_def vault_world_def)

lemma beta_login:
  "browser_login (vault_world\<lparr>browsers := [Some beta_browser]\<rparr>)
     = (LoginOk [(''shipping_manager_session'', ''tokB'')],
        vault_world\<lparr>browsers := [], clock_ms := 13000,
                     requests_log := [''shipping_manager_session=tokB'']\<rparr>)"
  by (simp add: browser_login_def beta_browser_fields vault_world_login_fields beta_poll
        extract_cookies_def store_cookie_def TARGET_COOKIE_NAME_def Let_def)

lemma beta_user:
  "get_user_from_cookie
     (vault_world\<lparr>browsers := [], clock_ms := 13000,
                  requests_log := [''shipping_manager_session=tokB'']\<rparr>)
     (PyDict [(''shipping_manager_session'', ''tokB'')])
     = (Some \<lparr>u_id = IdInt 7, u_company_name = Some ''Beta Lines''\<rparr>,
        vault_world\<lparr>browsers := [], clock_ms := 13000,
                     requests_log := [''shipping_manager_session=tokB'',
                                      ''shipping_manager_session=tokB'']\<rparr>)"
  by (simp add: get_user_from_cookie_def validate_dict Let_def vault_world_login_fields
        TARGET_COOKIE_NAME_def stub_remote_def response_user_def)

lemma no_browser_login: "browser_login (vault_world\<lparr>browsers := []\<rparr>) = (BrowserUnavailable, vault_world\<lparr>browsers := []\<rparr>)"
  by (simp add: browser_login_def)

lemma main_cancelled:
  assumes "fst (validate_all_sessions w) \<noteq> []
           \<or> fst (get_expired_sessions_with_methods (snd (validate_all_sessions w))) \<noteq> []"
  shows "fst (main w (None # ops))
           = \<lparr>exit_code = 0, stdout = [], stderr = [cancelled_msg]\<rparr>"
proof -
  from assms have "\<not> (fst (validate_all_sessions w) = []
           \<and> fst (get_expired_sessions_with_methods (snd (validate_all_sessions w))) = [])"
    by simp
  then show ?thesis
    by (simp add: main_def split_beta main_loop_answer selector_action_def)
qed

lemma mixed_valid:
  "fst (validate_all_sessions mixed_world) =
     [\<lparr>vs_user_id = ''7'', vs_cookie = PyStr ''tokB'', vs_company_name = ''Beta Lines'',
       vs_user_data = \<lparr>u_id = IdInt 7, u_company_name = Some ''Beta Lines''\<rparr>,
       vs_login_method = ''browser''\<rparr>,
      \<lparr>vs_user_id = ''42'', vs_cookie = PyStr ''tokA'', vs_company_name = ''Acme Co'',
       vs_user_data = \<lparr>u_id = IdInt 42, u_company_name = Some ''Acme Co''\<rparr>,
       vs_login_method = ''browser''\<rparr>]"
  by (simp add: run_defs mixed_world_fields)

text \<open>
  Claim C7, as stated: the process exits with code 0 and the chosen account id on
  standard output on success, and with code 1 in every failure or cancellation case,
  the operator cancelling the selection included. When the selection dialog returns no
  answer, \<^verbatim>\<open>main\<close> prints the cancellation to standard error and calls
  \<^verbatim>\<open>sys.exit(0)\<close>.
\<close>

theorem main_cancel_counterexample:
  "exit_code (fst (main mixed_world [None])) = 0
   \<and> stdout (fst (main mixed_world [None])) = []
   \<and> stderr (fst (main mixed_world [None])) = [''[-] Session selection cancelled'']"
proof -
  have "fst (validate_all_sessions mixed_world) \<noteq> []"
    using mixed_run(1) by auto
  then have "fst (main mixed_world [None])
           = \<lparr>exit_code = 0, stdout = [], stderr = [cancelled_msg]\<rparr>"
    by (intro main_cancelled) simp
  then show ?thesis by (simp add: cancelled_msg_def)
qed

text \<open>
  Claim C7, amended. Every run of the process ends in one of three ways. Success: exit
  code 0 and one line on standard output, which is the \<^verbatim>\<open>user_id\<close> of a
  \<^verbatim>\<open>use_session\<close> answer of the operator that names a session found valid, or else
  the id of the account that the browser login authenticated, whose session is then
  saved. Cancellation: exit code 0 and nothing on standard output, after the
  cancellation message on standard error. Failure: exit code 1 and nothing on standard
  output. Moreover, with the sessions of the first validation run: when there are
  sessions and the dialog gives no answer, the run is a cancellation; when the first
  answer chooses a valid session with a cookie, the run succeeds with that \<^verbatim>\<open>user_id\<close>
  on standard output; when it chooses an id that no valid session has, the run fails;
  and when there are no sessions, or the first answer asks for a new session, the run
  succeeds with the authenticated account id exactly if the browser login yields a
  cookie that the remote service accepts, and fails otherwise.
\<close>

theorem main_exit:
  assumes run: "main w ops = (e, w')"
    and v: "validate_all_sessions w = (valid_sessions, w1)"
    and x: "get_expired_sessions_with_methods w1 = (expired_sessions, w2)"
  shows
    "((exit_code e = 0 \<and> cancelled_msg \<notin> set (stderr e)
        \<and> ((\<exists>chosen. stdout e = [py_str chosen]
               \<and> Some (Choice (Some ''use_session'') chosen) \<in> set ops
               \<and> (\<exists>w0 s0. s0 \<in> set (fst (validate_all_sessions w0))
                      \<and> vs_user_id s0 = py_str chosen \<and> truthy_cookie (vs_cookie s0)))
            \<or> (\<exists>w3 c3 w4' u3 w5'.
                  browser_login w3 = (LoginOk c3, w4') \<and> c3 \<noteq> []
                  \<and> get_user_from_cookie w4' (PyDict c3) = (Some u3, w5')
                  \<and> stdout e = [py_str (u_id u3)]
                  \<and> w' = save_session w5' (u_id u3) (PyDict c3)
                           (get_default (u_company_name u3) ''Unknown'') ''browser'' None None)))
      \<or> (exit_code e = 0 \<and> stdout e = [] \<and> cancelled_msg \<in> set (stderr e))
      \<or> (exit_code e = 1 \<and> stdout e = [] \<and> cancelled_msg \<notin> set (stderr e)))
   \<and> ((valid_sessions \<noteq> [] \<or> expired_sessions \<noteq> []) \<and> (ops = [] \<or> ops = None # rest)
        \<longrightarrow> e = \<lparr>exit_code = 0, stdout = [], stderr = [cancelled_msg]\<rparr> \<and> w' = w2)
   \<and> (ops = Some (Choice (Some ''use_session'') selected_user_id) # rest
        \<and> s \<in> set valid_sessions \<and> vs_user_id s = py_str selected_user_id
        \<and> truthy_cookie (vs_cookie s)
        \<longrightarrow> e = \<lparr>exit_code = 0, stdout = [py_str selected_user_id], stderr = []\<rparr> \<and> w' = w2)
   \<and> (ops = Some (Choice (Some ''use_session'') selected_user_id) # rest
        \<and> (valid_sessions \<noteq> [] \<or> expired_sessions \<noteq> [])
        \<and> py_str selected_user_id \<notin> vs_user_id ` set valid_sessions
        \<longrightarrow> exit_code e = 1 \<and> stdout e = [] \<and> w' = w2)
   \<and> ((valid_sessions = [] \<and> expired_sessions = [])
          \<or> ops = Some (Choice (Some ''new_session'') selected_user_id) # rest
        \<longrightarrow> (browser_login w2 = (LoginOk cookie, w4) \<and> cookie \<noteq> []
                \<and> get_user_from_cookie w4 (PyDict cookie) = (Some user_data, w5)
              \<longrightarrow> e = \<lparr>exit_code = 0, stdout = [py_str (u_id user_data)], stderr = []\<rparr>
                  \<and> w' = save_session w5 (u_id user_data) (PyDict cookie)
                           (get_default (u_company_name user_data) ''Unknown'') ''browser''
                           None None)
          \<and> (\<not> (\<exists>c3 w4' u3 w5'.
                    browser_login w2 = (LoginOk c3, w4') \<and> c3 \<noteq> []
                    \<and> get_user_from_cookie w4' (PyDict c3) = (Some u3, w5'))
              \<longrightarrow> exit_code e = 1 \<and> stdout e = []))"
proof -
  obtain r err w3 where loop: "main_loop w2 valid_sessions expired_sessions ops [] = (r, err, w3)"
    by (rule prod_cases3)
  from v have inv: "\<exists>w0. valid_sessions = fst (validate_all_sessions w0)"
    by (intro exI [of _ w]) simp
  from distinct_valid_sessions [of w] v
  have dist: "distinct (map vs_user_id valid_sessions)" by simp
  have c1: "(exit_code e = 0 \<and> cancelled_msg \<notin> set (stderr e)
        \<and> ((\<exists>chosen. stdout e = [py_str chosen]
               \<and> Some (Choice (Some ''use_session'') chosen) \<in> set ops
               \<and> (\<exists>w0 s0. s0 \<in> set (fst (validate_all_sessions w0))
                      \<and> vs_user_id s0 = py_str chosen \<and> truthy_cookie (vs_cookie s0)))
            \<or> (\<exists>w3 c3 w4' u3 w5'.
                  browser_login w3 = (LoginOk c3, w4') \<and> c3 \<noteq> []
                  \<and> get_user_from_cookie w4' (PyDict c3) = (Some u3, w5')
                  \<and> stdout e = [py_str (u_id u3)]
                  \<and> w' = save_session w5' (u_id u3) (PyDict c3)
                           (get_default (u_company_name u3) ''Unknown'') ''browser'' None None)))
      \<or> (exit_code e = 0 \<and> stdout e = [] \<and> cancelled_msg \<in> set (stderr e))
      \<or> (exit_code e = 1 \<and> stdout e = [] \<and> cancelled_msg \<notin> set (stderr e))"
  proof -
    have "cancelled_msg \<notin> set []" by simp
    from main_loop_outcome [OF this inv loop]
    consider (break) "r = LoopBreak" "cancelled_msg \<notin> set err"
      | (chosen) chosen where "r = LoopExit 0 [py_str chosen]" "cancelled_msg \<notin> set err"
          "Some (Choice (Some ''use_session'') chosen) \<in> set ops"
          "\<exists>w0 s0. s0 \<in> set (fst (validate_all_sessions w0))
                      \<and> vs_user_id s0 = py_str chosen \<and> truthy_cookie (vs_cookie s0)"
      | (cancelled) "r = LoopExit 0 []" "cancelled_msg \<in> set err"
      | (failed) "r = LoopExit 1 []" "cancelled_msg \<notin> set err"
      by blast
    then show ?thesis
    proof cases
      case chosen
      from loop chosen(1) main_at_exit [OF v x, of ops 0 "[py_str chosen]" err w3] run
      have "exit_code e = 0" "stdout e = [py_str chosen]" "stderr e = err" by auto
      with chosen(2-4) show ?thesis by blast
    next
      case cancelled
      from loop cancelled(1) main_at_exit [OF v x, of ops 0 "[]" err w3] run
      have "exit_code e = 0" "stdout e = []" "stderr e = err" by auto
      with cancelled(2) show ?thesis by simp
    next
      case failed
      from loop failed(1) main_at_exit [OF v x, of ops 1 "[]" err w3] run
      have "exit_code e = 1" "stdout e = []" "stderr e = err" by auto
      with failed(2) show ?thesis by simp
    next
      case break
      from loop break(1) have "main_loop w2 valid_sessions expired_sessions ops [] = (LoopBreak, err, w3)"
        by simp
      from main_login [OF v x this run] show ?thesis
      proof
        assume "\<exists>cookie w4 user_data w5.
            browser_login w3 = (LoginOk cookie, w4) \<and> cookie \<noteq> []
            \<and> get_user_from_cookie w4 (PyDict cookie) = (Some user_data, w5)
            \<and> e = \<lparr>exit_code = 0, stdout = [py_str (u_id user_data)], stderr = err\<rparr>
            \<and> w' = save_session w5 (u_id user_data) (PyDict cookie)
                     (get_default (u_company_name user_data) ''Unknown'') ''browser'' None None"
        then obtain c3 w4' u3 w5' where l:
            "browser_login w3 = (LoginOk c3, w4')" "c3 \<noteq> []"
            "get_user_from_cookie w4' (PyDict c3) = (Some u3, w5')"
            "e = \<lparr>exit_code = 0, stdout = [py_str (u_id u3)], stderr = err\<rparr>"
            "w' = save_session w5' (u_id u3) (PyDict c3)
                     (get_default (u_company_name u3) ''Unknown'') ''browser'' None None"
          by blast
        from l(4) break(2)
        have f: "exit_code e = 0" "stdout e = [py_str (u_id u3)]"
          "cancelled_msg \<notin> set (stderr e)" by simp_all
        from l(1-3) f(2) l(5)
        have "\<exists>w3 c3 w4' u3 w5'.
                  browser_login w3 = (LoginOk c3, w4') \<and> c3 \<noteq> []
                  \<and> get_user_from_cookie w4' (PyDict c3) = (Some u3, w5')
                  \<and> stdout e = [py_str (u_id u3)]
                  \<and> w' = save_session w5' (u_id u3) (PyDict c3)
                           (get_default (u_company_name u3) ''Unknown'') ''browser'' None None"
          by blast
        with f(1,3) show ?thesis by blast
      next
        assume "\<not> (\<exists>cookie w4 user_data w5.
                browser_login w3 = (LoginOk cookie, w4) \<and> cookie \<noteq> []
                \<and> get_user_from_cookie w4 (PyDict cookie) = (Some user_data, w5))
           \<and> exit_code e = 1 \<and> stdout e = []
           \<and> (\<exists>msg. stderr e = err @ [msg] \<and> msg \<noteq> cancelled_msg)"
        then obtain msg where "exit_code e = 1" "stdout e = []"
          "stderr e = err @ [msg]" "msg \<noteq> cancelled_msg" by blast
        with break(2) have "exit_code e = 1" "stdout e = []" "cancelled_msg \<notin> set (stderr e)"
          by auto
        then show ?thesis by simp
      qed
    qed
  qed
  have c2: "(valid_sessions \<noteq> [] \<or> expired_sessions \<noteq> []) \<and> (ops = [] \<or> ops = None # rest)
        \<longrightarrow> e = \<lparr>exit_code = 0, stdout = [], stderr = [cancelled_msg]\<rparr> \<and> w' = w2"
  proof
    assume h: "(valid_sessions \<noteq> [] \<or> expired_sessions \<noteq> []) \<and> (ops = [] \<or> ops = None # rest)"
    then have some: "\<not> (valid_sessions = [] \<and> expired_sessions = [])" by simp
    from h have "main_loop w2 valid_sessions expired_sessions ops []
                   = (LoopExit 0 [], [cancelled_msg], w2)"
      using main_loop_no_answer [OF some, of w2 "[]"]
        main_loop_answer [OF some, of w2 None rest "[]"]
      by (auto simp: selector_action_def)
    from main_at_exit [OF v x this] run
    show "e = \<lparr>exit_code = 0, stdout = [], stderr = [cancelled_msg]\<rparr> \<and> w' = w2" by simp
  qed
  have use: "selector_action (Some (Choice (Some ''use_session'') selected_user_id))
               = UseSession selected_user_id"
    by (simp add: selector_action_def)
  have c3: "ops = Some (Choice (Some ''use_session'') selected_user_id) # rest
        \<and> s \<in> set valid_sessions \<and> vs_user_id s = py_str selected_user_id
        \<and> truthy_cookie (vs_cookie s)
        \<longrightarrow> e = \<lparr>exit_code = 0, stdout = [py_str selected_user_id], stderr = []\<rparr> \<and> w' = w2"
  proof
    assume h: "ops = Some (Choice (Some ''use_session'') selected_user_id) # rest
        \<and> s \<in> set valid_sessions \<and> vs_user_id s = py_str selected_user_id
        \<and> truthy_cookie (vs_cookie s)"
    then have s: "s \<in> set valid_sessions" "vs_user_id s = py_str selected_user_id"
      "truthy_cookie (vs_cookie s)" by simp_all
    from s(1) have some: "\<not> (valid_sessions = [] \<and> expired_sessions = [])" by auto
    from h use use_session_valid [OF dist s]
    have "main_loop w2 valid_sessions expired_sessions ops []
            = (LoopExit 0 [py_str selected_user_id], [], w2)"
      by (simp add: main_loop_answer [OF some])
    from main_at_exit [OF v x this] run
    show "e = \<lparr>exit_code = 0, stdout = [py_str selected_user_id], stderr = []\<rparr> \<and> w' = w2"
      by simp
  qed
  have c4: "ops = Some (Choice (Some ''use_session'') selected_user_id) # rest
        \<and> (valid_sessions \<noteq> [] \<or> expired_sessions \<noteq> [])
        \<and> py_str selected_user_id \<notin> vs_user_id ` set valid_sessions
        \<longrightarrow> exit_code e = 1 \<and> stdout e = [] \<and> w' = w2"
  proof
    assume h: "ops = Some (Choice (Some ''use_session'') selected_user_id) # rest
        \<and> (valid_sessions \<noteq> [] \<or> expired_sessions \<noteq> [])
        \<and> py_str selected_user_id \<notin> vs_user_id ` set valid_sessions"
    then have some: "\<not> (valid_sessions = [] \<and> expired_sessions = [])" by simp
    obtain code out diag where u: "use_session valid_sessions selected_user_id = (code, out, diag)"
      by (rule prod_cases3)
    from h use_session_unknown [of selected_user_id valid_sessions] u
    have "code = 1" "out = []" by simp_all
    with h use u
    have "main_loop w2 valid_sessions expired_sessions ops [] = (LoopExit 1 [], diag, w2)"
      by (simp add: main_loop_answer [OF some])
    from main_at_exit [OF v x this] run
    show "exit_code e = 1 \<and> stdout e = [] \<and> w' = w2" by auto
  qed
  have c5: "(valid_sessions = [] \<and> expired_sessions = [])
          \<or> ops = Some (Choice (Some ''new_session'') selected_user_id) # rest
        \<longrightarrow> (browser_login w2 = (LoginOk cookie, w4) \<and> cookie \<noteq> []
                \<and> get_user_from_cookie w4 (PyDict cookie) = (Some user_data, w5)
              \<longrightarrow> e = \<lparr>exit_code = 0, stdout = [py_str (u_id user_data)], stderr = []\<rparr>
                  \<and> w' = save_session w5 (u_id user_data) (PyDict cookie)
                           (get_default (u_company_name user_data) ''Unknown'') ''browser''
                           None None)
          \<and> (\<not> (\<exists>c3 w4' u3 w5'.
                    browser_login w2 = (LoginOk c3, w4') \<and> c3 \<noteq> []
                    \<and> get_user_from_cookie w4' (PyDict c3) = (Some u3, w5'))
              \<longrightarrow> exit_code e = 1 \<and> stdout e = [])"
  proof
    assume h: "(valid_sessions = [] \<and> expired_sessions = [])
          \<or> ops = Some (Choice (Some ''new_session'') selected_user_id) # rest"
    have new: "selector_action (Some (Choice (Some ''new_session'') selected_user_id)) = NewSession"
      by (simp add: selector_action_def)
    have "main_loop w2 valid_sessions expired_sessions ops [] = (LoopBreak, [], w2)"
    proof (cases "valid_sessions = [] \<and> expired_sessions = []")
      case True
      then show ?thesis by (simp add: main_loop_break)
    next
      case False
      with h have "ops = Some (Choice (Some ''new_session'') selected_user_id) # rest" by simp
      with new show ?thesis by (simp add: main_loop_answer [OF False])
    qed
    note d = main_login [OF v x this run]
    show "(browser_login w2 = (LoginOk cookie, w4) \<and> cookie \<noteq> []
                \<and> get_user_from_cookie w4 (PyDict cookie) = (Some user_data, w5)
              \<longrightarrow> e = \<lparr>exit_code = 0, stdout = [py_str (u_id user_data)], stderr = []\<rparr>
                  \<and> w' = save_session w5 (u_id user_data) (PyDict cookie)
                           (get_default (u_company_name user_data) ''Unknown'') ''browser''
                           None None)
          \<and> (\<not> (\<exists>c3 w4' u3 w5'.
                    browser_login w2 = (LoginOk c3, w4') \<and> c3 \<noteq> []
                    \<and> get_user_from_cookie w4' (PyDict c3) = (Some u3, w5'))
              \<longrightarrow> exit_code e = 1 \<and> stdout e = [])"
    proof (rule conjI)
      show "browser_login w2 = (LoginOk cookie, w4) \<and> cookie \<noteq> []
                \<and> get_user_from_cookie w4 (PyDict cookie) = (Some user_data, w5)
              \<longrightarrow> e = \<lparr>exit_code = 0, stdout = [py_str (u_id user_data)], stderr = []\<rparr>
                  \<and> w' = save_session w5 (u_id user_data) (PyDict cookie)
                           (get_default (u_company_name user_data) ''Unknown'') ''browser''
                           None None"
      proof (rule impI)
        assume l: "browser_login w2 = (LoginOk cookie, w4) \<and> cookie \<noteq> []
                \<and> get_user_from_cookie w4 (PyDict cookie) = (Some user_data, w5)"
        with d show "e = \<lparr>exit_code = 0, stdout = [py_str (u_id user_data)], stderr = []\<rparr>
                  \<and> w' = save_session w5 (u_id user_data) (PyDict cookie)
                           (get_default (u_company_name user_data) ''Unknown'') ''browser''
                           None None"
          by auto
      qed
    next
      show "\<not> (\<exists>c3 w4' u3 w5'.
                    browser_login w2 = (LoginOk c3, w4') \<and> c3 \<noteq> []
                    \<and> get_user_from_cookie w4' (PyDict c3) = (Some u3, w5'))
              \<longrightarrow> exit_code e = 1 \<and> stdout e = []"
        using d by blast
    qed
  qed
  from c1 c2 c3 c4 c5 show ?thesis by (intro conjI)
qed

theorem main_exit_witness:
  "map vs_user_id (fst (validate_all_sessions mixed_world)) = [''7'', ''42'']
   \<and> fst (main mixed_world [None])
       = \<lparr>exit_code = 0, stdout = [], stderr = [''[-] Session selection cancelled'']\<rparr>
   \<and> fst (main mixed_world [Some (Choice (Some ''use_session'') (IdStr ''42''))])
       = \<lparr>exit_code = 0, stdout = [''42''], stderr = []\<rparr>
   \<and> exit_code (fst (main mixed_world [Some (Choice (Some ''use_session'') (IdStr ''9''))])) = 1
   \<and> stdout (fst (main mixed_world [Some (Choice (Some ''use_session'') (IdStr ''9''))])) = []
   \<and> fst (main (vault_world\<lparr>browsers := [Some beta_browser]\<rparr>) [])
       = \<lparr>exit_code = 0, stdout = [''7''], stderr = []\<rparr>
   \<and> exit_code (fst (main (vault_world\<lparr>browsers := []\<rparr>) [])) = 1
   \<and> stdout (fst (main (vault_world\<lparr>browsers := []\<rparr>) [])) = []"
proof -
  define s42 where "s42 =
      \<lparr>vs_user_id = ''42'', vs_cookie = PyStr ''tokA'', vs_company_name = ''Acme Co'',
       vs_user_data = \<lparr>u_id = IdInt 42, u_company_name = Some ''Acme Co''\<rparr>,
       vs_login_method = ''browser''\<rparr>"
  have some: "fst (validate_all_sessions mixed_world) \<noteq> []"
    by (simp add: mixed_valid)
  have s42: "s42 \<in> set (fst (validate_all_sessions mixed_world))"
    "vs_user_id s42 = py_str (IdStr ''42'')" "truthy_cookie (vs_cookie s42)"
    by (simp_all add: mixed_valid s42_def)
  have n9: "py_str (IdStr ''9'') \<notin> vs_user_id ` set (fst (validate_all_sessions mixed_world))"
    by (simp add: mixed_valid)
  from main_exit [where w = mixed_world and ops = "[None]" and rest = "[]",
      OF surjective_pairing surjective_pairing surjective_pairing,
      THEN conjunct2, THEN conjunct1] some
  have a: "fst (main mixed_world [None])
       = \<lparr>exit_code = 0, stdout = [], stderr = [''[-] Session selection cancelled'']\<rparr>"
    by (simp add: cancelled_msg_def)
  from main_exit [where w = mixed_world
        and ops = "[Some (Choice (Some ''use_session'') (IdStr ''42''))]"
        and rest = "[]" and selected_user_id = "IdStr ''42''" and s = s42,
      OF surjective_pairing surjective_pairing surjective_pairing,
      THEN conjunct2, THEN conjunct2, THEN conjunct1] s42
  have b: "fst (main mixed_world [Some (Choice (Some ''use_session'') (IdStr ''42''))])
       = \<lparr>exit_code = 0, stdout = [''42''], stderr = []\<rparr>"
    by simp
  from main_exit [where w = mixed_world
        and ops = "[Some (Choice (Some ''use_session'') (IdStr ''9''))]"
        and rest = "[]" and selected_user_id = "IdStr ''9''",
      OF surjective_pairing surjective_pairing surjective_pairing,
      THEN conjunct2, THEN conjunct2, THEN conjunct2, THEN conjunct1] some n9
  have c: "exit_code (fst (main mixed_world [Some (Choice (Some ''use_session'') (IdStr ''9''))])) = 1
     \<and> stdout (fst (main mixed_world [Some (Choice (Some ''use_session'') (IdStr ''9''))])) = []"
    by simp
  from main_exit [where w = "vault_world\<lparr>browsers := [Some beta_browser]\<rparr>" and ops = "[]"
        and cookie = "[(''shipping_manager_session'', ''tokB'')]"
        and ?w4.0 = "vault_world\<lparr>browsers := [], clock_ms := 13000,
                     requests_log := [''shipping_manager_session=tokB'']\<rparr>"
        and user_data = "\<lparr>u_id = IdInt 7, u_company_name = Some ''Beta Lines''\<rparr>"
        and ?w5.0 = "vault_world\<lparr>browsers := [], clock_ms := 13000,
                     requests_log := [''shipping_manager_session=tokB'',
                                      ''shipping_manager_session=tokB'']\<rparr>",
      OF surjective_pairing vault_world_run(1) vault_world_run(2),
      THEN conjunct2, THEN conjunct2, THEN conjunct2, THEN conjunct2]
    beta_login beta_user
  have d: "fst (main (vault_world\<lparr>browsers := [Some beta_browser]\<rparr>) [])
       = \<lparr>exit_code = 0, stdout = [''7''], stderr = []\<rparr>"
    by (simp add: str_int_def str_nat.simps digit_char_def)
  from main_exit [where w = "vault_world\<lparr>browsers := []\<rparr>" and ops = "[]",
      OF surjective_pairing vault_world_run(1) vault_world_run(2),
      THEN conjunct2, THEN conjunct2, THEN conjunct2, THEN conjunct2]
    no_browser_login
  have e: "exit_code (fst (main (vault_world\<lparr>browsers := []\<rparr>) [])) = 1
     \<and> stdout (fst (main (vault_world\<lparr>browsers := []\<rparr>) [])) = []"
    by simp
  from mixed_run(1) a b c d e show ?thesis by simp
qed

end
